(* ===== verification/Prelude.thy ===== *)
theory Prelude
  imports Main "HOL-Library.Word" "HOL-Library.Monad_Syntax"
begin

unbundle bit_operations_syntax

text \<open>
  Shared types, fact collections and lemmas of the development.

  A C++ unsigned integer of \<open>w\<close> bits is a \<open>w word\<close>; \<open>size_t\<close> and
  buffer lengths are \<open>nat\<close> (every length here is far below \<open>2 ^ 64\<close>); a
  \<open>std::vector<uint8_t>\<close> or a \<open>std::span<const uint8_t>\<close> is a list of bytes.
  Undefined behaviour of the source (an index outside a vector or span, a signed overflow) is
  the value \<open>None\<close> of an \<open>option\<close>, so that "no undefined behaviour" is a
  statement one can prove; an error that the source returns is a value (see \<open>Results\<close>).
\<close>

type_synonym u8 = "8 word"
type_synonym u16 = "16 word"
type_synonym u32 = "32 word"
type_synonym u64 = "64 word"
type_synonym bytes = "u8 list"

text \<open>
  Collections: \<open>wire_simps\<close> evaluates a parser or a serializer on a structured buffer,
  \<open>default_simps\<close> unfolds default-constructed values.
\<close>

named_theorems wire_simps \<open>cursor reads and writes on structured buffers\<close>
named_theorems default_simps \<open>default-constructed values\<close>

text \<open>Offsets stay sums of numerals, never towers of \<open>Suc\<close>.\<close>

declare add_2_eq_Suc [simp del] add_2_eq_Suc' [simp del]

section \<open>Options\<close>

lemma bind_eq_SomeE:
  assumes "Option.bind x f = Some y"
  obtains z where "x = Some z" and "f z = Some y"
  using assms by (cases x) auto

lemma bind_some_exI: "x = Some z \<Longrightarrow> (\<exists>y. f z = Some y) \<Longrightarrow> \<exists>y. Option.bind x f = Some y"
  by simp

lemma bind_totalI: "\<exists>z. x = Some z \<Longrightarrow> (\<And>z. \<exists>y. f z = Some y) \<Longrightarrow> \<exists>y. Option.bind x f = Some y"
  by auto

section \<open>Lists\<close>

lemma take_drop_nth4:
  "i + 4 \<le> length xs \<Longrightarrow> take 4 (drop i xs) = [xs ! i, xs ! (i + 1), xs ! (i + 2), xs ! (i + 3)]"
  by (simp add: list_eq_iff_nth_eq nth_Cons' numeral_eq_Suc less_Suc_eq)

lemma take_drop_nth2:
  "i + 2 \<le> length xs \<Longrightarrow> take 2 (drop i xs) = [xs ! i, xs ! (i + 1)]"
  by (simp add: list_eq_iff_nth_eq nth_Cons' numeral_eq_Suc less_Suc_eq)

lemma take_drop_nth1: "i < length xs \<Longrightarrow> take 1 (drop i xs) = [xs ! i]"
  by (simp add: take_Suc hd_drop_conv_nth)

lemma take_add_take_drop: "take (m + n) xs = take m xs @ take n (drop m xs)"
  by (rule take_add)

section \<open>Strings as byte sequences\<close>

text \<open>
  \<open>std::string\<close> holds bytes and is a HOL \<open>string\<close>; the two
  \<open>reinterpret_cast\<close>s between characters and bytes are \<open>byte_of_char\<close> and
  \<open>char_of_byte\<close>, inverse to each other.
\<close>

definition byte_of_char :: "char \<Rightarrow> u8" where
  "byte_of_char c = word_of_nat (of_char c)"

definition char_of_byte :: "u8 \<Rightarrow> char" where
  "char_of_byte b = char_of (unat b)"

abbreviation str_bytes :: "string \<Rightarrow> bytes" where
  "str_bytes s \<equiv> map byte_of_char s"

abbreviation bytes_str :: "bytes \<Rightarrow> string" where
  "bytes_str bs \<equiv> map char_of_byte bs"

lemma of_char_less_256: "(of_char c :: nat) < 256"
  using of_char_mod_256 [of c, where ?'a = nat] by (metis mod_less_divisor zero_less_numeral)

lemma char_of_byte_of_char [simp]: "char_of_byte (byte_of_char c) = c"
  by (simp add: char_of_byte_def byte_of_char_def unat_of_nat of_char_less_256)

lemma byte_of_char_of_byte [simp]: "byte_of_char (char_of_byte b) = b"
proof -
  have "unat b < 256"
    using unsigned_less [of b] by simp
  then show ?thesis by (simp add: byte_of_char_def char_of_byte_def)
qed

lemma char_byte_comp [simp]:
  "char_of_byte \<circ> byte_of_char = id" "byte_of_char \<circ> char_of_byte = id"
  by (simp_all add: fun_eq_iff)

lemma bytes_str_str_bytes [simp]: "bytes_str (str_bytes s) = s"
  by (simp add: o_def)

lemma str_bytes_bytes_str [simp]: "str_bytes (bytes_str bs) = bs"
  by (simp add: o_def)

section \<open>Signed 32-bit arithmetic\<close>

text \<open>
  \<open>int\<close> of the source is 32 bits wide; a result outside its range is undefined behaviour.
\<close>

definition i32 :: "int \<Rightarrow> int option" where
  "i32 z = (if - (2 ^ 31) \<le> z \<and> z < 2 ^ 31 then Some z else None)"

lemma i32_eq_Some_iff [simp]: "i32 z = Some y \<longleftrightarrow> y = z \<and> - (2 ^ 31) \<le> z \<and> z < 2 ^ 31"
  by (auto simp: i32_def)

lemma i32_small: "\<bar>z\<bar> \<le> 2147483647 \<Longrightarrow> i32 z = Some z"
  by (simp add: abs_le_iff)

lemma i32_eq_None_iff [simp]: "i32 z = None \<longleftrightarrow> z < - (2 ^ 31) \<or> 2 ^ 31 \<le> z"
  by (auto simp: i32_def)

end
