(* ===== verification/Results.thy ===== *)
theory Results
  imports Prelude
begin

text \<open>
  \<open>common/results.h\<close>: the error codes and the \<open>result\<close> every fallible function
  returns. A \<open>result\<close> carries a value, an error code and a message; its conversion to
  \<open>bool\<close> looks at the error code alone. The value of a failed result is the default
  value of its type, so every wire structure below has a default.
\<close>

datatype error =
    none | resolve_failed | connect_failed | send_failed | receive_failed | closed | malformed
  | handshake_failed | accept_failed | close_failed | shutdown_failed | rejected

record 'a result =
  val :: 'a
  err :: error
  message :: string

definition ok :: "'a result \<Rightarrow> bool" where
  "ok r \<longleftrightarrow> err r = none"

definition success :: "'a \<Rightarrow> 'a result" where
  "success v = \<lparr>val = v, err = none, message = []\<rparr>"

definition failure :: "'a \<Rightarrow> error \<Rightarrow> string \<Rightarrow> 'a result" where
  "failure v e m = \<lparr>val = v, err = e, message = m\<rparr>"

lemma result_sel [simp]:
  "val (success v) = v" "err (success v) = none" "message (success v) = []"
  "val (failure v e m) = v" "err (failure v e m) = e" "message (failure v e m) = m"
  by (simp_all add: success_def failure_def)

lemma ok_success [simp]: "ok (success v)"
  by (simp add: ok_def)

lemma ok_failure [simp]: "ok (failure v e m) \<longleftrightarrow> e = none"
  by (simp add: ok_def)

lemma success_eq_iff [simp]: "success v = success w \<longleftrightarrow> v = w"
  by (simp add: success_def)

lemma success_neq_failure [simp]: "e \<noteq> none \<Longrightarrow> success v \<noteq> failure w e m"
  by (simp add: success_def failure_def)

lemma failure_neq_success [simp]: "e \<noteq> none \<Longrightarrow> failure w e m \<noteq> success v"
  by (simp add: success_def failure_def)

end
