(* ===== verification/Bytes.thy ===== *)
theory Bytes
  imports Results
begin

text \<open>
  \<open>common/bytes.h\<close>: big-endian reads and writes at a cursor. A read takes the data and
  the offset and gives the value and the advanced offset; a write takes the buffer, the offset
  and the value and gives the new buffer and offset. An access outside the span or vector is
  \<open>None\<close>. The big-endian byte images \<open>be16\<close>, \<open>be32\<close>, \<open>be64\<close>
  are the specification the reads and writes are checked against.
\<close>

section \<open>The cursor functions\<close>

definition read8 :: "bytes \<Rightarrow> nat \<Rightarrow> (u8 \<times> nat) option" where
  "read8 data off = (if off < length data then Some (data ! off, off + 1) else None)"

definition read16 :: "bytes \<Rightarrow> nat \<Rightarrow> (u16 \<times> nat) option" where
  "read16 data off =
     (if off + 2 \<le> length data
      then Some (push_bit 8 (ucast (data ! off)) OR ucast (data ! (off + 1)), off + 2)
      else None)"

definition read32 :: "bytes \<Rightarrow> nat \<Rightarrow> (u32 \<times> nat) option" where
  "read32 data off =
     (if off + 4 \<le> length data
      then Some (push_bit 24 (ucast (data ! off)) OR
                 push_bit 16 (ucast (data ! (off + 1))) OR
                 push_bit 8 (ucast (data ! (off + 2))) OR
                 ucast (data ! (off + 3)), off + 4)
      else None)"

definition read64 :: "bytes \<Rightarrow> nat \<Rightarrow> (u64 \<times> nat) option" where
  "read64 data off = do {
     (high, off) \<leftarrow> read32 data off;
     (low, off) \<leftarrow> read32 data off;
     Some (push_bit 32 (ucast high) OR ucast low, off) }"

definition write8 :: "bytes \<Rightarrow> nat \<Rightarrow> u8 \<Rightarrow> (bytes \<times> nat) option" where
  "write8 buf off v = (if off < length buf then Some (buf[off := v], off + 1) else None)"

definition write16 :: "bytes \<Rightarrow> nat \<Rightarrow> u16 \<Rightarrow> (bytes \<times> nat) option" where
  "write16 buf off v = do {
     (buf, off) \<leftarrow> write8 buf off (ucast (drop_bit 8 v));
     write8 buf off (ucast v) }"

definition write32 :: "bytes \<Rightarrow> nat \<Rightarrow> u32 \<Rightarrow> (bytes \<times> nat) option" where
  "write32 buf off v = do {
     (buf, off) \<leftarrow> write8 buf off (ucast (drop_bit 24 v));
     (buf, off) \<leftarrow> write8 buf off (ucast (drop_bit 16 v));
     (buf, off) \<leftarrow> write8 buf off (ucast (drop_bit 8 v));
     write8 buf off (ucast v) }"

definition write64 :: "bytes \<Rightarrow> nat \<Rightarrow> u64 \<Rightarrow> (bytes \<times> nat) option" where
  "write64 buf off v = do {
     (buf, off) \<leftarrow> write32 buf off (ucast (drop_bit 32 v));
     write32 buf off (ucast v) }"

text \<open>
  \<open>std::memcpy(buf.data() + off, src.data(), src.size())\<close> and the construction of a
  string or vector from \<open>len\<close> bytes at \<open>data + off\<close>.
\<close>

definition memcpy :: "bytes \<Rightarrow> nat \<Rightarrow> bytes \<Rightarrow> bytes option" where
  "memcpy buf off src =
     (if off + length src \<le> length buf
      then Some (take off buf @ src @ drop (off + length src) buf) else None)"

definition subspan :: "bytes \<Rightarrow> nat \<Rightarrow> nat \<Rightarrow> bytes option" where
  "subspan data off len =
     (if off + len \<le> length data then Some (take len (drop off data)) else None)"

section \<open>Big-endian images\<close>

definition be16 :: "u16 \<Rightarrow> bytes" where
  "be16 v = [ucast (drop_bit 8 v), ucast v]"

definition be32 :: "u32 \<Rightarrow> bytes" where
  "be32 v = [ucast (drop_bit 24 v), ucast (drop_bit 16 v), ucast (drop_bit 8 v), ucast v]"

definition be64 :: "u64 \<Rightarrow> bytes" where
  "be64 v = be32 (ucast (drop_bit 32 v)) @ be32 (ucast v)"

lemma length_be [simp]: "length (be16 v) = 2" "length (be32 w) = 4" "length (be64 x) = 8"
  by (simp_all add: be16_def be32_def be64_def)

text \<open>
  A byte taken out of a word and shifted back keeps the eight bits it came from; the joins
  of the reads reassemble the word the images were taken of.
\<close>

lemma bit_byte_slice:
  fixes v :: "'a::len word"
  shows "bit (push_bit k (ucast (ucast (drop_bit k v) :: u8)) :: 'a word) n \<longleftrightarrow>
    k \<le> n \<and> n < k + 8 \<and> bit v n"
  by (cases "k \<le> n") (auto simp: bit_simps dest: bit_imp_le_length)

lemma bit_low_byte:
  fixes v :: "'a::len word"
  shows "bit (ucast (ucast v :: u8) :: 'a word) n \<longleftrightarrow> n < 8 \<and> bit v n"
  by (auto simp: bit_simps dest: bit_imp_le_length)

lemma join16: "push_bit 8 (ucast (ucast (drop_bit 8 v) :: u8)) OR ucast (ucast v :: u8) = (v :: u16)"
  by (rule bit_word_eqI) (auto simp: bit_or_iff bit_byte_slice bit_low_byte)

lemma join32:
  "push_bit 24 (ucast (ucast (drop_bit 24 v) :: u8)) OR
   push_bit 16 (ucast (ucast (drop_bit 16 v) :: u8)) OR
   push_bit 8 (ucast (ucast (drop_bit 8 v) :: u8)) OR ucast (ucast v :: u8) = (v :: u32)"
  by (rule bit_word_eqI) (auto simp: bit_or_iff bit_byte_slice bit_low_byte)

lemma join64:
  "push_bit 32 (ucast (ucast (drop_bit 32 v) :: u32)) OR ucast (ucast v :: u32) = (v :: u64)"
  by (rule bit_word_eqI) (auto simp: bit_simps)

text \<open>The other direction: the image of a join is the list of the joined bytes.\<close>

lemma bit_byte_high: "8 \<le> n \<Longrightarrow> \<not> bit (b :: u8) n"
  by (auto dest: bit_imp_le_length)

lemma be16_join [simp]: "be16 (push_bit 8 (ucast b0) OR ucast b1) = [b0, b1]"
  unfolding be16_def
  by (auto intro!: bit_word_eqI simp: bit_simps bit_byte_high)

lemma be32_join [simp]:
  "be32 (push_bit 24 (ucast b0) OR push_bit 16 (ucast b1) OR push_bit 8 (ucast b2) OR ucast b3) =
    [b0, b1, b2, b3]"
  unfolding be32_def
  by (auto intro!: bit_word_eqI simp: bit_simps bit_byte_high)

lemma be64_join [simp]: "be64 (push_bit 32 (ucast hi) OR ucast lo) = be32 hi @ be32 (lo :: u32)"
proof -
  have "ucast (drop_bit 32 (push_bit 32 (ucast hi) OR ucast lo :: u64)) = hi"
    by (rule bit_word_eqI) (auto simp: bit_simps dest: bit_imp_le_length)
  moreover have "ucast (push_bit 32 (ucast hi) OR ucast lo :: u64) = lo"
    by (rule bit_word_eqI) (auto simp: bit_simps dest: bit_imp_le_length)
  ultimately show ?thesis by (simp add: be64_def)
qed

section \<open>Reads against the images\<close>

lemma read8_iff:
  "read8 data off = Some (v, off') \<longleftrightarrow> off' = off + 1 \<and> take 1 (drop off data) = [v]"
  by (cases "off < length data") (auto simp: read8_def take_Suc hd_drop_conv_nth)

lemma read16_iff:
  "read16 data off = Some (v, off') \<longleftrightarrow> off' = off + 2 \<and> take 2 (drop off data) = be16 v"
proof (cases "off + 2 \<le> length data")
  case True
  then show ?thesis
    by (auto simp: read16_def take_drop_nth2) (auto simp: be16_def join16)
next
  case False
  then have "length (take 2 (drop off data)) < length (be16 v)" by simp
  with False show ?thesis by (auto simp: read16_def simp del: length_take length_drop)
qed

lemma read32_iff:
  "read32 data off = Some (v, off') \<longleftrightarrow> off' = off + 4 \<and> take 4 (drop off data) = be32 v"
proof (cases "off + 4 \<le> length data")
  case True
  then show ?thesis
    by (auto simp: read32_def take_drop_nth4) (auto simp: be32_def join32)
next
  case False
  then have "length (take 4 (drop off data)) < length (be32 v)" by simp
  with False show ?thesis by (auto simp: read32_def simp del: length_take length_drop)
qed

lemma read64_iff:
  "read64 data off = Some (v, off') \<longleftrightarrow> off' = off + 8 \<and> take 8 (drop off data) = be64 v"
proof
  assume "read64 data off = Some (v, off')"
  then obtain hi lo where "take 4 (drop off data) = be32 hi"
    and "take 4 (drop (off + 4) data) = be32 lo"
    and "v = push_bit 32 (ucast hi) OR ucast lo" and "off' = off + 8"
    by (auto simp: read64_def read32_iff elim!: bind_eq_SomeE)
  moreover have "take 8 (drop off data) = take 4 (drop off data) @ take 4 (drop (off + 4) data)"
    using take_add [of 4 4 "drop off data"] by (simp add: add.commute)
  ultimately show "off' = off + 8 \<and> take 8 (drop off data) = be64 v"
    by simp
next
  assume a: "off' = off + 8 \<and> take 8 (drop off data) = be64 v"
  then have halves: "take 4 (take 8 (drop off data)) = take 4 (be64 v)"
    "drop 4 (take 8 (drop off data)) = drop 4 (be64 v)"
    by simp_all
  from halves(1) have "take 4 (drop off data) = be32 (ucast (drop_bit 32 v))"
    by (simp add: be64_def min_def)
  moreover from halves(2) have "take 4 (drop (off + 4) data) = be32 (ucast v)"
    by (simp add: be64_def drop_take add.commute)
  ultimately show "read64 data off = Some (v, off')"
    using a by (simp add: read64_def read32_iff [THEN iffD2] join64)
qed

lemma read_slice [wire_simps]:
  "take 1 (drop off data) = [b] \<Longrightarrow> read8 data off = Some (b, off + 1)"
  "take 2 (drop off data) = be16 v \<Longrightarrow> read16 data off = Some (v, off + 2)"
  "take 4 (drop off data) = be32 w \<Longrightarrow> read32 data off = Some (w, off + 4)"
  "take 8 (drop off data) = be64 x \<Longrightarrow> read64 data off = Some (x, off + 8)"
  by (simp_all add: read8_iff read16_iff read32_iff read64_iff)

lemma read_total:
  "off + 1 \<le> length data \<Longrightarrow> \<exists>v. read8 data off = Some (v, off + 1)"
  "off + 2 \<le> length data \<Longrightarrow> \<exists>v. read16 data off = Some (v, off + 2)"
  "off + 4 \<le> length data \<Longrightarrow> \<exists>v. read32 data off = Some (v, off + 4)"
  "off + 8 \<le> length data \<Longrightarrow> \<exists>v. read64 data off = Some (v, off + 8)"
  by (simp_all add: read8_def read16_def read32_def read64_def add.assoc)

lemma subspan_slice [wire_simps]:
  "off + len \<le> length data \<Longrightarrow> subspan data off len = Some (take len (drop off data))"
  by (simp add: subspan_def)

lemma be16_inject [simp]: "be16 v = be16 v' \<longleftrightarrow> v = v'"
  using read16_iff [of "be16 v" 0 v 2] read16_iff [of "be16 v" 0 v' 2] by auto

lemma be32_inject [simp]: "be32 v = be32 v' \<longleftrightarrow> v = v'"
  using read32_iff [of "be32 v" 0 v 4] read32_iff [of "be32 v" 0 v' 4] by auto

lemma be64_inject [simp]: "be64 v = be64 v' \<longleftrightarrow> v = v'"
  using read64_iff [of "be64 v" 0 v 8] read64_iff [of "be64 v" 0 v' 8] by auto

section \<open>Writes against the images\<close>

text \<open>
  A serializer allocates a zeroed vector and fills it from the front: its buffer is always the
  bytes written so far followed by zeros, \<open>wbuf d k\<close>.
\<close>

definition wbuf :: "bytes \<Rightarrow> nat \<Rightarrow> bytes" where
  "wbuf d k = d @ replicate k 0"

lemma wbuf_start: "replicate n 0 = wbuf [] n"
  by (simp add: wbuf_def)

lemma wbuf_full [simp]: "wbuf d 0 = d"
  by (simp add: wbuf_def)

lemma length_wbuf [simp]: "length (wbuf d k) = length d + k"
  by (simp add: wbuf_def)

lemma write8_wbuf [wire_simps]:
  "off = length d \<Longrightarrow> 1 \<le> k \<Longrightarrow> write8 (wbuf d k) off v = Some (wbuf (d @ [v]) (k - 1), off + 1)"
  by (cases k) (auto simp: wbuf_def write8_def list_update_append)

lemma write16_wbuf [wire_simps]:
  "off = length d \<Longrightarrow> 2 \<le> k \<Longrightarrow>
    write16 (wbuf d k) off v = Some (wbuf (d @ be16 v) (k - 2), off + 2)"
  by (simp add: write16_def be16_def write8_wbuf numeral_2_eq_2)

lemma write32_wbuf [wire_simps]:
  "off = length d \<Longrightarrow> 4 \<le> k \<Longrightarrow>
    write32 (wbuf d k) off v = Some (wbuf (d @ be32 v) (k - 4), off + 4)"
  by (simp add: write32_def be32_def write8_wbuf numeral_eq_Suc)

lemma write64_wbuf [wire_simps]:
  "off = length d \<Longrightarrow> 8 \<le> k \<Longrightarrow>
    write64 (wbuf d k) off v = Some (wbuf (d @ be64 v) (k - 8), off + 8)"
  by (simp add: write64_def be64_def write32_wbuf)

lemma memcpy_wbuf [wire_simps]:
  "off = length d \<Longrightarrow> length src \<le> k \<Longrightarrow>
    memcpy (wbuf d k) off src = Some (wbuf (d @ src) (k - length src))"
  by (simp add: wbuf_def memcpy_def)

lemma write_overflow:
  "length buf \<le> off \<Longrightarrow> write8 buf off v8 = None"
  "length buf \<le> off \<Longrightarrow> write16 buf off v16 = None"
  by (simp_all add: write8_def write16_def)

end
