(* ===== verification/Codec.thy ===== *)
theory Codec
  imports Bytes
begin

text \<open>
  The contract between a serializer and its parser. Every wire structure of the program is a
  pair of functions: a serializer that fills a buffer and a parser that answers with a
  \<open>result\<close>. \<open>codec\<close> is what their users rely on; \<open>prefix_codec\<close> adds that
  the parser ignores what follows the image, which is what a frame inside a longer buffer
  needs.
\<close>

locale codec =
  fixes enc :: "'a \<Rightarrow> bytes option"
    and dec :: "bytes \<Rightarrow> 'a result option"
    and valid :: "'a \<Rightarrow> bool"
  assumes dec_total: "\<exists>r. dec bs = Some r"
    and enc_total: "valid x \<Longrightarrow> \<exists>bs. enc x = Some bs"
    and dec_enc: "valid x \<Longrightarrow> enc x = Some bs \<Longrightarrow> dec bs = Some (success x)"
begin

lemma enc_inject:
  assumes "valid x" and "valid y" and "enc x = enc y"
  shows "x = y"
proof -
  obtain bs where bs: "enc x = Some bs" using enc_total [OF assms(1)] by blast
  with assms(3) have "enc y = Some bs" by simp
  from dec_enc [OF assms(1) bs] dec_enc [OF assms(2) this] show ?thesis by simp
qed

lemma roundtrip: "valid x \<Longrightarrow> Option.bind (enc x) dec = Some (success x)"
  using enc_total [of x] dec_enc [of x] by auto

lemma enc_list_total: "list_all valid xs \<Longrightarrow> \<exists>bss. those (map enc xs) = Some bss"
  by (induction xs) (auto dest!: enc_total)

lemma dec_enc_list:
  "list_all valid xs \<Longrightarrow> those (map enc xs) = Some bss \<Longrightarrow> map dec bss = map (\<lambda>x. Some (success x)) xs"
proof (induction xs arbitrary: bss)
  case Nil
  then show ?case by simp
next
  case (Cons x xs)
  then show ?case by (auto split: option.splits intro: dec_enc)
qed

end

locale prefix_codec = codec +
  assumes dec_prefix: "valid x \<Longrightarrow> enc x = Some bs \<Longrightarrow> dec (bs @ rest) = Some (success x)"
begin

lemma enc_prefix_free:
  assumes "valid x" and "valid y" and "enc x = Some bs" and "enc y = Some (bs @ rest)"
  shows "x = y"
  using dec_prefix [OF assms(1,3), of rest] dec_enc [OF assms(2,4)] by simp

end

text \<open>
  The usual way to discharge the two contracts: an image function that the serializer
  computes and the parser inverts.
\<close>

lemma prefix_codecI:
  assumes "\<And>bs. \<exists>r. dec bs = Some r"
    and "\<And>x. valid x \<Longrightarrow> enc x = Some (img x)"
    and "\<And>x rest. valid x \<Longrightarrow> dec (img x @ rest) = Some (success x)"
  shows "prefix_codec enc dec valid"
proof
  fix x bs rest
  assume x: "valid x" "enc x = Some bs"
  then have bs: "bs = img x" using assms(2) by simp
  show "dec (bs @ rest) = Some (success x)" using assms(3) [OF x(1), of rest] bs by simp
  show "dec bs = Some (success x)" using assms(3) [OF x(1), of "[]"] bs by simp
qed (use assms in auto)

lemma codecI:
  assumes "\<And>bs. \<exists>r. dec bs = Some r"
    and "\<And>x. valid x \<Longrightarrow> enc x = Some (img x)"
    and "\<And>x. valid x \<Longrightarrow> dec (img x) = Some (success x)"
  shows "codec enc dec valid"
  using assms by unfold_locales auto

end
