(* ===== verification/Draw_Operation.thy ===== *)
theory Draw_Operation
  imports Codec
begin

text \<open>
  \<open>common/canvas/draw_operation.{h,cpp}\<close>: the drawing operation, its wire image and its
  validation.
\<close>

section \<open>Data\<close>

text \<open>
  \<open>enum class tool_type : uint8_t\<close> has a fixed underlying type, so a cast from any byte
  gives a value of the enumeration, named or not: the type is the byte, the enumerators are
  constants.
\<close>

type_synonym tool_type = u8

abbreviation (input) tool_freehand :: tool_type where "tool_freehand \<equiv> 0x00"
abbreviation (input) tool_line :: tool_type where "tool_line \<equiv> 0x01"
abbreviation (input) tool_rect :: tool_type where "tool_rect \<equiv> 0x02"
abbreviation (input) tool_ellipse :: tool_type where "tool_ellipse \<equiv> 0x03"
abbreviation (input) tool_eraser :: tool_type where "tool_eraser \<equiv> 0x04"
abbreviation (input) tool_clear :: tool_type where "tool_clear \<equiv> 0x05"
abbreviation (input) tool_filled_rect :: tool_type where "tool_filled_rect \<equiv> 0x06"
abbreviation (input) tool_filled_ellipse :: tool_type where "tool_filled_ellipse \<equiv> 0x07"
abbreviation (input) tool_bucket_fill :: tool_type where "tool_bucket_fill \<equiv> 0x08"
abbreviation (input) tool_brush :: tool_type where "tool_brush \<equiv> 0x09"

record canvas_point =
  pt_x :: u16
  pt_y :: u16

record draw_operation =
  operation_id :: u64
  seq :: u32
  member_id :: u32
  tool :: tool_type
  color :: u32
  thickness :: u8
  points :: "canvas_point list"

definition default_draw_operation :: draw_operation where
  "default_draw_operation =
     \<lparr>operation_id = 0, seq = 0, member_id = 0, tool = tool_freehand, color = 0xFFFFFFFF,
      thickness = 1, points = []\<rparr>"

abbreviation (input) DRAW_OP_FIXED_SIZE :: nat where "DRAW_OP_FIXED_SIZE \<equiv> 24"

section \<open>Operations\<close>

fun write_points :: "bytes \<Rightarrow> nat \<Rightarrow> canvas_point list \<Rightarrow> (bytes \<times> nat) option" where
  "write_points buf off [] = Some (buf, off)"
| "write_points buf off (p # ps) = do {
     (buf, off) \<leftarrow> write16 buf off (pt_x p);
     (buf, off) \<leftarrow> write16 buf off (pt_y p);
     write_points buf off ps }"

definition serializeDrawOperation :: "draw_operation \<Rightarrow> bytes option" where
  "serializeDrawOperation op =
     (let point_count = (word_of_nat (length (points op)) :: u16);
          buf = replicate (DRAW_OP_FIXED_SIZE + unat point_count * 4) 0
      in do {
        (buf, off) \<leftarrow> write64 buf 0 (operation_id op);
        (buf, off) \<leftarrow> write32 buf off (seq op);
        (buf, off) \<leftarrow> write32 buf off (member_id op);
        (buf, off) \<leftarrow> write8 buf off (tool op);
        (buf, off) \<leftarrow> write32 buf off (color op);
        (buf, off) \<leftarrow> write8 buf off (thickness op);
        (buf, off) \<leftarrow> write16 buf off point_count;
        (buf, off) \<leftarrow> write_points buf off (points op);
        Some buf })"

fun read_points :: "nat \<Rightarrow> bytes \<Rightarrow> nat \<Rightarrow> (canvas_point list \<times> nat) option" where
  "read_points 0 data off = Some ([], off)"
| "read_points (Suc n) data off = do {
     (x, off) \<leftarrow> read16 data off;
     (y, off) \<leftarrow> read16 data off;
     (ps, off) \<leftarrow> read_points n data off;
     Some (\<lparr>pt_x = x, pt_y = y\<rparr> # ps, off) }"

definition parseDrawOperation :: "bytes \<Rightarrow> draw_operation result option" where
  "parseDrawOperation data =
     (if length data < DRAW_OP_FIXED_SIZE
      then Some (failure default_draw_operation malformed ''draw_operation too short'')
      else do {
        (oid, off) \<leftarrow> read64 data 0;
        (sq, off) \<leftarrow> read32 data off;
        (mid, off) \<leftarrow> read32 data off;
        (tl, off) \<leftarrow> read8 data off;
        (col, off) \<leftarrow> read32 data off;
        (thick, off) \<leftarrow> read8 data off;
        (point_count, off) \<leftarrow> read16 data off;
        if length data < DRAW_OP_FIXED_SIZE + unat point_count * 4
        then Some (failure default_draw_operation malformed ''points truncated'')
        else do {
          (ps, off) \<leftarrow> read_points (unat point_count) data off;
          Some (success \<lparr>operation_id = oid, seq = sq, member_id = mid, tool = tl, color = col,
            thickness = thick, points = ps\<rparr>) } })"

definition validateDrawOperation :: "draw_operation \<Rightarrow> bool \<Rightarrow> bool result" where
  "validateDrawOperation op require_sequence =
     (let max_points = 65535; max_thickness = 64;
          n = length (points op);
          reject = failure False malformed
      in
      if operation_id op = 0 then reject ''operation ID is missing''
      else if (if require_sequence then seq op = 0 else seq op \<noteq> 0)
        then reject (if require_sequence then ''committed operation has no sequence''
                     else ''uncommitted operation has a sequence'')
      else if member_id op = 0 then reject ''member ID is missing''
      else if tool op > tool_brush then reject ''unknown drawing tool''
      else if thickness op = 0 \<or> thickness op > max_thickness
        then reject ''invalid stroke thickness''
      else if n > max_points then reject ''too many points''
      else if tool op = tool_clear then
        (if points op \<noteq> [] then reject ''clear operation has points'' else success True)
      else if (tool op = tool_line \<or> tool op = tool_rect \<or> tool op = tool_ellipse \<or>
               tool op = tool_filled_rect \<or> tool op = tool_filled_ellipse) \<and> n \<noteq> 2
        then reject ''shape requires two points''
      else if (tool op = tool_freehand \<or> tool op = tool_eraser \<or> tool op = tool_brush) \<and>
              points op = []
        then reject ''stroke has no points''
      else if tool op = tool_bucket_fill \<and> points op = []
        then reject ''bucket fill has no point''
      else success True)"

section \<open>The wire image\<close>

definition point_image :: "canvas_point \<Rightarrow> bytes" where
  "point_image p = be16 (pt_x p) @ be16 (pt_y p)"

definition points_image :: "canvas_point list \<Rightarrow> bytes" where
  "points_image ps = concat (map point_image ps)"

definition draw_image :: "draw_operation \<Rightarrow> bytes" where
  "draw_image op =
     be64 (operation_id op) @ be32 (seq op) @ be32 (member_id op) @ [tool op] @
     be32 (color op) @ [thickness op] @ be16 (word_of_nat (length (points op))) @
     points_image (points op)"

definition points_fit :: "draw_operation \<Rightarrow> bool" where
  "points_fit op \<longleftrightarrow> length (points op) \<le> 65535"

lemma length_point_image [simp]: "length (point_image p) = 4"
  by (simp add: point_image_def)

lemma points_image_simps [simp]:
  "points_image [] = []"
  "points_image (p # ps) = be16 (pt_x p) @ be16 (pt_y p) @ points_image ps"
  by (simp_all add: points_image_def point_image_def)

lemma length_points_image [simp]: "length (points_image ps) = length ps * 4"
  by (induction ps) simp_all

lemma points_image_eq_Nil [simp]: "points_image ps = [] \<longleftrightarrow> ps = []"
  by (cases ps) (simp_all add: be16_def)

lemma length_draw_image [simp]: "length (draw_image op) = 24 + length (points op) * 4"
  by (simp add: draw_image_def)

lemma unat_u16_of_nat: "n \<le> 65535 \<Longrightarrow> unat (word_of_nat n :: u16) = n"
  by (simp add: unat_of_nat)

subsection \<open>Serialization\<close>

lemma write_points_wbuf:
  "off = length d \<Longrightarrow> length ps * 4 \<le> k \<Longrightarrow>
    write_points (wbuf d k) off ps =
      Some (wbuf (d @ points_image ps) (k - length ps * 4), off + length ps * 4)"
proof (induction ps arbitrary: d k off)
  case Nil
  then show ?case by simp
next
  case (Cons p ps)
  then show ?case
    using Cons.IH [of "4 + length d" "d @ be16 (pt_x p) @ be16 (pt_y p)" "k - 4"]
    by (simp add: wire_simps ac_simps)
qed

lemma write_points_overflow:
  "off = length d \<Longrightarrow> m < length ps \<Longrightarrow> write_points (wbuf d (m * 4)) off ps = None"
proof (induction ps arbitrary: d m off)
  case Nil
  then show ?case by simp
next
  case (Cons p ps)
  show ?case
  proof (cases m)
    case 0
    with Cons.prems show ?thesis by (simp add: write16_def write8_def)
  next
    case (Suc m')
    with Cons.prems show ?thesis
      using Cons.IH [of "4 + length d" "d @ be16 (pt_x p) @ be16 (pt_y p)" m']
      by (simp add: wire_simps)
  qed
qed

lemma serializeDrawOperation_fixed:
  "serializeDrawOperation op =
     Option.bind
       (write_points
         (wbuf (be64 (operation_id op) @ be32 (seq op) @ be32 (member_id op) @ [tool op] @
            be32 (color op) @ [thickness op] @ be16 (word_of_nat (length (points op))))
          (unat (word_of_nat (length (points op)) :: u16) * 4)) 24 (points op))
       (\<lambda>(buf, off). Some buf)"
  unfolding serializeDrawOperation_def Let_def wbuf_start by (simp add: wire_simps)

lemma serializeDrawOperation_image:
  "points_fit op \<Longrightarrow> serializeDrawOperation op = Some (draw_image op)"
  by (simp add: serializeDrawOperation_fixed write_points_wbuf unat_u16_of_nat points_fit_def
      draw_image_def)

lemma serializeDrawOperation_overflow:
  assumes "\<not> points_fit op"
  shows "serializeDrawOperation op = None"
proof -
  have "unat (word_of_nat (length (points op)) :: u16) < 2 ^ LENGTH(16)"
    by (rule unsigned_less)
  then have "unat (word_of_nat (length (points op)) :: u16) < length (points op)"
    using assms by (simp add: points_fit_def)
  then show ?thesis by (simp add: serializeDrawOperation_fixed write_points_overflow)
qed

subsection \<open>Parsing\<close>

lemma read_points_total:
  "off + n * 4 \<le> length data \<Longrightarrow>
    \<exists>ps. read_points n data off = Some (ps, off + n * 4) \<and> length ps = n \<and>
      points_image ps = take (n * 4) (drop off data)"
proof (induction n arbitrary: off)
  case 0
  then show ?case by simp
next
  case (Suc n)
  obtain x where x: "read16 data off = Some (x, off + 2)"
    using read_total(2) [of off data] Suc.prems by auto
  obtain y where y: "read16 data (off + 2) = Some (y, off + 4)"
    using read_total(2) [of "off + 2" data] Suc.prems by auto
  obtain ps where ps: "read_points n data (off + 4) = Some (ps, off + 4 + n * 4)"
      "length ps = n" "points_image ps = take (n * 4) (drop (off + 4) data)"
    using Suc.IH [of "off + 4"] Suc.prems by auto
  have "take (2 + (2 + n * 4)) (drop off data) =
      take 2 (drop off data) @ take 2 (drop (off + 2) data) @ take (n * 4) (drop (off + 4) data)"
    by (simp only: take_add drop_drop) (simp add: add.commute)
  with x y ps have "points_image (\<lparr>pt_x = x, pt_y = y\<rparr> # ps) = take (Suc n * 4) (drop off data)"
    by (simp add: read16_iff)
  moreover have "read_points (Suc n) data off =
      Some (\<lparr>pt_x = x, pt_y = y\<rparr> # ps, off + Suc n * 4)"
    using x y ps(1) by simp
  ultimately show ?case using ps(2) by (intro exI) auto
qed

lemma read_points_image:
  "read_points (length ps) (d @ points_image ps @ rest) (length d) =
    Some (ps, length d + length ps * 4)"
proof (induction ps arbitrary: d)
  case Nil
  then show ?case by simp
next
  case (Cons p ps)
  from Cons.IH [of "d @ be16 (pt_x p) @ be16 (pt_y p)"] show ?case
    by (simp add: wire_simps add.assoc)
qed

lemma read_points_slice [wire_simps]:
  assumes "n = length ps" and "take (n * 4) (drop off data) = points_image ps"
  shows "read_points n data off = Some (ps, off + n * 4)"
proof -
  show ?thesis
  proof (cases "n = 0")
    case False
    have "off \<le> length data"
    proof (rule ccontr)
      assume "\<not> off \<le> length data"
      with assms(2) have "points_image ps = []" by simp
      with False assms(1) show False by simp
    qed
    moreover have "data = take off data @ points_image ps @ drop (n * 4) (drop off data)"
      using assms(2) by (metis append_take_drop_id)
    ultimately show ?thesis
      using read_points_image [of ps "take off data" "drop (n * 4) (drop off data)"] assms(1)
      by simp
  qed (use assms in simp)
qed

lemma parseDrawOperation_image:
  assumes "points_fit op"
  shows "parseDrawOperation (draw_image op @ rest) = Some (success op)"
  using assms
  by (simp add: parseDrawOperation_def draw_image_def points_fit_def unat_u16_of_nat wire_simps)

text \<open>
  Every input is answered: the length checks keep each read inside the span. A successful parse
  fixes the bytes it read, so the parser accepts exactly the images (followed by anything).
\<close>

lemma parseDrawOperation_total: "\<exists>r. parseDrawOperation data = Some r"
proof (cases "length data < 24")
  case True
  then show ?thesis by (simp add: parseDrawOperation_def)
next
  case False
  define n where "n = unat (push_bit 8 (ucast (data ! 22)) OR ucast (data ! 23) :: u16)"
  show ?thesis
  proof (cases "length data < 24 + n * 4")
    case True
    with False show ?thesis
      by (simp add: parseDrawOperation_def read64_def read32_def read8_def read16_def n_def)
  next
    case fits: False
    then obtain ps where "read_points n data 24 = Some (ps, 24 + n * 4)"
      using read_points_total [of 24 n data] by auto
    with False fits show ?thesis
      by (simp add: parseDrawOperation_def read64_def read32_def read8_def read16_def
          flip: n_def)
  qed
qed

lemma parseDrawOperation_ok_image:
  assumes "parseDrawOperation data = Some r" and "ok r"
  shows "points_fit (val r) \<and> data = draw_image (val r) @ drop (24 + length (points (val r)) * 4) data"
proof -
  have len: "\<not> length data < 24"
    using assms by (auto simp: parseDrawOperation_def)
  from assms obtain oid sq mid tl col thick cnt ps off where
    reads: "read64 data 0 = Some (oid, 8)" "read32 data 8 = Some (sq, 12)"
      "read32 data 12 = Some (mid, 16)" "read8 data 16 = Some (tl, 17)"
      "read32 data 17 = Some (col, 21)" "read8 data 21 = Some (thick, 22)"
      "read16 data 22 = Some (cnt, 24)" "read_points (unat cnt) data 24 = Some (ps, off)"
    and long: "24 + unat cnt * 4 \<le> length data"
    and r: "r = success \<lparr>operation_id = oid, seq = sq, member_id = mid, tool = tl, color = col,
              thickness = thick, points = ps\<rparr>"
    using len
    by (auto simp: parseDrawOperation_def read64_iff read32_iff read8_iff read16_iff
        split: if_splits elim!: bind_eq_SomeE)
  from read_points_total [OF long] reads(8) have ps: "length ps = unat cnt"
      "points_image ps = take (unat cnt * 4) (drop 24 data)"
    by auto
  have "take (8 + (4 + (4 + (1 + (4 + (1 + (2 + unat cnt * 4))))))) data =
      be64 oid @ be32 sq @ be32 mid @ [tl] @ be32 col @ [thick] @ be16 cnt @ points_image ps"
    using reads(1-7) ps(2)
    by (simp only: take_add drop_drop) (simp add: read64_iff read32_iff read8_iff read16_iff)
  then have "take (24 + length ps * 4) data = draw_image (val r)"
    using ps(1) by (simp add: r draw_image_def)
  moreover have "points_fit (val r)"
    using ps(1) unsigned_less [of cnt, where ?'a = nat] by (simp add: r points_fit_def)
  ultimately show ?thesis
    by (simp add: r) (metis append_take_drop_id)
qed

interpretation draw: prefix_codec serializeDrawOperation parseDrawOperation points_fit
  by (rule prefix_codecI [where img = draw_image])
    (simp_all add: parseDrawOperation_total serializeDrawOperation_image parseDrawOperation_image)

lemma parsed_points_fit: "parseDrawOperation data = Some r \<Longrightarrow> ok r \<Longrightarrow> points_fit (val r)"
  by (simp add: parseDrawOperation_ok_image)

section \<open>Validation\<close>

text \<open>The shape an operation must have, by tool: what the cascade of checks amounts to.\<close>

definition points_match_tool :: "draw_operation \<Rightarrow> bool" where
  "points_match_tool op \<longleftrightarrow>
     (tool op = tool_clear \<longrightarrow> points op = []) \<and>
     (tool op \<in> {tool_line, tool_rect, tool_ellipse, tool_filled_rect, tool_filled_ellipse} \<longrightarrow>
        length (points op) = 2) \<and>
     (tool op \<in> {tool_freehand, tool_eraser, tool_bucket_fill, tool_brush} \<longrightarrow> points op \<noteq> [])"

definition valid_operation :: "bool \<Rightarrow> draw_operation \<Rightarrow> bool" where
  "valid_operation committed op \<longleftrightarrow>
     operation_id op \<noteq> 0 \<and> (committed \<longleftrightarrow> seq op \<noteq> 0) \<and> member_id op \<noteq> 0 \<and>
     tool op \<le> tool_brush \<and> thickness op \<noteq> 0 \<and> thickness op \<le> 64 \<and> points_fit op \<and> points_match_tool op"

lemma validate_ok_iff: "ok (validateDrawOperation op req) \<longleftrightarrow> valid_operation req op"
proof -
  have "valid_operation req op \<longleftrightarrow>
     operation_id op \<noteq> 0 \<and> (if req then seq op \<noteq> 0 else seq op = 0) \<and> member_id op \<noteq> 0 \<and>
     \<not> tool op > tool_brush \<and> thickness op \<noteq> 0 \<and> \<not> thickness op > 64 \<and>
     \<not> length (points op) > 65535 \<and> points_match_tool op"
    by (auto simp: valid_operation_def points_fit_def not_less)
  then show ?thesis
    by (auto simp: validateDrawOperation_def points_match_tool_def Let_def)
qed

lemma validate_result:
  "err (validateDrawOperation op req) \<in> {none, malformed}"
  "val (validateDrawOperation op req) \<longleftrightarrow> ok (validateDrawOperation op req)"
  by (auto simp: validateDrawOperation_def Let_def)

section \<open>Length-prefixed records\<close>

text \<open>
  A canvas state message and a drawing file both hold operations as records: the length of the
  image in four bytes, then the image.
\<close>

definition record_image :: "draw_operation \<Rightarrow> bytes" where
  "record_image op = be32 (word_of_nat (length (draw_image op))) @ draw_image op"

definition records_image :: "draw_operation list \<Rightarrow> bytes" where
  "records_image ops = concat (map record_image ops)"

lemma records_image_simps [simp]:
  "records_image [] = []"
  "records_image (op # ops) =
     be32 (word_of_nat (length (draw_image op))) @ draw_image op @ records_image ops"
  by (simp_all add: records_image_def record_image_def)

lemma records_image_append [simp]: "records_image (xs @ ys) = records_image xs @ records_image ys"
  by (simp add: records_image_def)

lemma unat_image_length:
  "points_fit op \<Longrightarrow> unat (word_of_nat (length (draw_image op)) :: u32) = length (draw_image op)"
  by (subst unat_of_nat) (simp add: points_fit_def)

end
