(* ===== verification/Message.thy ===== *)
theory Message
  imports Draw_Operation
begin

text \<open>
  \<open>common/protocol/message.{h,cpp}\<close>: the frame header and the payloads of the
  session protocol, each with its serializer and parser.
\<close>

section \<open>Codes\<close>

abbreviation (input) OP_CREATE :: u8 where "OP_CREATE \<equiv> 0x00"
abbreviation (input) OP_JOIN :: u8 where "OP_JOIN \<equiv> 0x01"
abbreviation (input) OP_LEAVE :: u8 where "OP_LEAVE \<equiv> 0x02"
abbreviation (input) OP_ACK :: u8 where "OP_ACK \<equiv> 0x03"
abbreviation (input) OP_ERROR_MSG :: u8 where "OP_ERROR_MSG \<equiv> 0x04"
abbreviation (input) OP_NOTIFICATION :: u8 where "OP_NOTIFICATION \<equiv> 0x05"
abbreviation (input) OP_DRAW :: u8 where "OP_DRAW \<equiv> 0x06"
abbreviation (input) OP_CANVAS_STATE :: u8 where "OP_CANVAS_STATE \<equiv> 0x07"
abbreviation (input) OP_CANVAS_STATE_REQUEST :: u8 where "OP_CANVAS_STATE_REQUEST \<equiv> 0x08"
abbreviation (input) OP_CLOSE_SESSION :: u8 where "OP_CLOSE_SESSION \<equiv> 0x09"
abbreviation (input) OP_CANVAS_CLEAR :: u8 where "OP_CANVAS_CLEAR \<equiv> 0x0A"

abbreviation (input) ACK_OK :: u8 where "ACK_OK \<equiv> 0x00"
abbreviation (input) ACK_LEFT :: u8 where "ACK_LEFT \<equiv> 0x01"
abbreviation (input) ACK_CREATE_OK :: u8 where "ACK_CREATE_OK \<equiv> 0x02"
abbreviation (input) ACK_JOIN_OK :: u8 where "ACK_JOIN_OK \<equiv> 0x03"

abbreviation (input) ERR_UNKNOWN :: u8 where "ERR_UNKNOWN \<equiv> 0x00"
abbreviation (input) ERR_CREATE_FAILED :: u8 where "ERR_CREATE_FAILED \<equiv> 0x01"
abbreviation (input) ERR_JOIN_FAILED :: u8 where "ERR_JOIN_FAILED \<equiv> 0x02"
abbreviation (input) ERR_LEAVE_FAILED :: u8 where "ERR_LEAVE_FAILED \<equiv> 0x03"

abbreviation (input) NOTIF_MEMBER_JOINED :: u8 where "NOTIF_MEMBER_JOINED \<equiv> 0x00"
abbreviation (input) NOTIF_MEMBER_LEFT :: u8 where "NOTIF_MEMBER_LEFT \<equiv> 0x01"
abbreviation (input) NOTIF_SESSION_CLOSED :: u8 where "NOTIF_SESSION_CLOSED \<equiv> 0x02"

section \<open>Structures\<close>

record Header =
  opcode :: u8
  flags :: u8
  hdr_length :: u32

record Message =
  header :: Header
  payload :: bytes

record CreateMessage =
  cm_name :: string

record JoinMessage =
  jm_session_id :: u32
  jm_name :: string

record CreateAckMessage =
  ca_ack_code :: u8
  ca_session_id :: u32
  ca_member_id :: u32

record JoinAckMessage =
  ja_ack_code :: u8
  ja_member_id :: u32

record AckMessage =
  ack_code :: u8
  ack_message :: string

record ErrorMessage =
  err_code :: u8
  err_message :: string

record MemberJoinedNotification =
  mj_notif_code :: u8
  mj_member_id :: u32
  mj_name :: string

record MemberLeftNotification =
  ml_notif_code :: u8
  ml_member_id :: u32
  ml_name :: string

record SessionClosedNotification =
  sc_notif_code :: u8

record CanvasStateMessage =
  cs_operations :: "draw_operation list"

abbreviation (input) HEADER_SIZE :: nat where "HEADER_SIZE \<equiv> 6"

abbreviation (input) not_enough_data :: string where "not_enough_data \<equiv> ''not enough data''"
abbreviation (input) declared_too_long :: string where
  "declared_too_long \<equiv> ''declared length exceeds available data''"

section \<open>Frames\<close>

definition parseHeader :: "bytes \<Rightarrow> Header result option" where
  "parseHeader data =
     (if length data < HEADER_SIZE
      then Some (failure \<lparr>opcode = 0, flags = 0, hdr_length = 0\<rparr> malformed
             ''not enough data for header'')
      else do {
        (oc, off) \<leftarrow> read8 data 0;
        (fl, off) \<leftarrow> read8 data off;
        (len, off) \<leftarrow> read32 data off;
        Some (success \<lparr>opcode = oc, flags = fl, hdr_length = len\<rparr>) })"

definition getSize :: "Message \<Rightarrow> nat" where
  "getSize m = HEADER_SIZE + length (payload m)"

definition serializeMessage :: "Message \<Rightarrow> bytes option" where
  "serializeMessage m = do {
     (buf, off) \<leftarrow> write8 (replicate (getSize m) 0) 0 (opcode (header m));
     (buf, off) \<leftarrow> write8 buf off (flags (header m));
     (buf, off) \<leftarrow> write32 buf off (hdr_length (header m));
     if payload m \<noteq> [] then memcpy buf off (payload m) else Some buf }"

section \<open>Requests\<close>

definition parseCreateMessage :: "bytes \<Rightarrow> string result option" where
  "parseCreateMessage data =
     (if data = [] then Some (failure [] malformed not_enough_data)
      else do {
        (len, off) \<leftarrow> read8 data 0;
        if length data < 1 + unat len then Some (failure [] malformed declared_too_long)
        else do {
          name \<leftarrow> subspan data off (unat len);
          Some (success (bytes_str name)) } })"

definition serializeCreateMessage :: "CreateMessage \<Rightarrow> bytes option" where
  "serializeCreateMessage msg = do {
     (buf, off) \<leftarrow> write8 (replicate (1 + length (cm_name msg)) 0) 0 (word_of_nat (length (cm_name msg)));
     memcpy buf off (str_bytes (cm_name msg)) }"

definition parseJoinMessage :: "bytes \<Rightarrow> JoinMessage result option" where
  "parseJoinMessage data =
     (if length data < 4 + 1
      then Some (failure \<lparr>jm_session_id = 0, jm_name = []\<rparr> malformed not_enough_data)
      else do {
        (sid, off) \<leftarrow> read32 data 0;
        (len, off) \<leftarrow> read8 data off;
        if length data < 4 + 1 + unat len
        then Some (failure \<lparr>jm_session_id = 0, jm_name = []\<rparr> malformed declared_too_long)
        else do {
          name \<leftarrow> subspan data off (unat len);
          Some (success \<lparr>jm_session_id = sid, jm_name = bytes_str name\<rparr>) } })"

definition serializeJoinMessage :: "JoinMessage \<Rightarrow> bytes option" where
  "serializeJoinMessage msg = do {
     (buf, off) \<leftarrow> write32 (replicate (4 + 1 + length (jm_name msg)) 0) 0 (jm_session_id msg);
     (buf, off) \<leftarrow> write8 buf off (word_of_nat (length (jm_name msg)));
     memcpy buf off (str_bytes (jm_name msg)) }"

section \<open>Acknowledgements and errors\<close>

definition parseAckMessage :: "bytes \<Rightarrow> AckMessage result option" where
  "parseAckMessage data =
     (if data = [] then Some (failure \<lparr>ack_code = 0, ack_message = []\<rparr> malformed not_enough_data)
      else do {
        (ac, off) \<leftarrow> read8 data 0;
        text \<leftarrow> subspan data off (length data - off);
        Some (success \<lparr>ack_code = ac, ack_message = bytes_str text\<rparr>) })"

definition serializeAckMessage :: "AckMessage \<Rightarrow> bytes option" where
  "serializeAckMessage msg = do {
     (buf, off) \<leftarrow> write8 (replicate (1 + length (ack_message msg)) 0) 0 (ack_code msg);
     if ack_message msg \<noteq> [] then memcpy buf off (str_bytes (ack_message msg)) else Some buf }"

definition parseErrorMessage :: "bytes \<Rightarrow> ErrorMessage result option" where
  "parseErrorMessage data =
     (if data = [] then Some (failure \<lparr>err_code = 0, err_message = []\<rparr> malformed not_enough_data)
      else do {
        (ec, off) \<leftarrow> read8 data 0;
        text \<leftarrow> subspan data off (length data - off);
        Some (success \<lparr>err_code = ec, err_message = bytes_str text\<rparr>) })"

definition serializeErrorMessage :: "ErrorMessage \<Rightarrow> bytes option" where
  "serializeErrorMessage msg = do {
     (buf, off) \<leftarrow> write8 (replicate (1 + length (err_message msg)) 0) 0 (err_code msg);
     memcpy buf off (str_bytes (err_message msg)) }"

definition serializeCreateAckMessage :: "CreateAckMessage \<Rightarrow> bytes option" where
  "serializeCreateAckMessage msg = do {
     (buf, off) \<leftarrow> write8 (replicate (1 + 4 * 2) 0) 0 (ca_ack_code msg);
     (buf, off) \<leftarrow> write32 buf off (ca_session_id msg);
     (buf, off) \<leftarrow> write32 buf off (ca_member_id msg);
     Some buf }"

definition parseCreateAckMessage :: "bytes \<Rightarrow> CreateAckMessage result option" where
  "parseCreateAckMessage data =
     (if length data < 1 + 4 * 2
      then Some (failure \<lparr>ca_ack_code = 0, ca_session_id = 0, ca_member_id = 0\<rparr> malformed not_enough_data)
      else do {
        (ac, off) \<leftarrow> read8 data 0;
        (sid, off) \<leftarrow> read32 data off;
        (mid, off) \<leftarrow> read32 data off;
        Some (success \<lparr>ca_ack_code = ac, ca_session_id = sid, ca_member_id = mid\<rparr>) })"

definition serializeJoinAckMessage :: "JoinAckMessage \<Rightarrow> bytes option" where
  "serializeJoinAckMessage msg = do {
     (buf, off) \<leftarrow> write8 (replicate (1 + 4) 0) 0 (ja_ack_code msg);
     (buf, off) \<leftarrow> write32 buf off (ja_member_id msg);
     Some buf }"

definition parseJoinAckMessage :: "bytes \<Rightarrow> JoinAckMessage result option" where
  "parseJoinAckMessage data =
     (if length data < 1 + 4
      then Some (failure \<lparr>ja_ack_code = 0, ja_member_id = 0\<rparr> malformed not_enough_data)
      else do {
        (ac, off) \<leftarrow> read8 data 0;
        (mid, off) \<leftarrow> read32 data off;
        Some (success \<lparr>ja_ack_code = ac, ja_member_id = mid\<rparr>) })"

section \<open>Notifications\<close>

definition serializeMemberJoinedNotification :: "MemberJoinedNotification \<Rightarrow> bytes option" where
  "serializeMemberJoinedNotification notif = do {
     (buf, off) \<leftarrow> write8 (replicate (1 + 4 + 1 + length (mj_name notif)) 0) 0 (mj_notif_code notif);
     (buf, off) \<leftarrow> write32 buf off (mj_member_id notif);
     (buf, off) \<leftarrow> write8 buf off (word_of_nat (length (mj_name notif)));
     memcpy buf off (str_bytes (mj_name notif)) }"

definition parseMemberJoinedNotification :: "bytes \<Rightarrow> MemberJoinedNotification result option" where
  "parseMemberJoinedNotification data =
     (let dflt = \<lparr>mj_notif_code = 0, mj_member_id = 0, mj_name = []\<rparr> in
      if length data < 1 + 4 + 1 then Some (failure dflt malformed not_enough_data)
      else do {
        (nc, off) \<leftarrow> read8 data 0;
        (mid, off) \<leftarrow> read32 data off;
        (len, off) \<leftarrow> read8 data off;
        if length data < off + unat len then Some (failure dflt malformed ''name truncated'')
        else do {
          name \<leftarrow> subspan data off (unat len);
          Some (success \<lparr>mj_notif_code = nc, mj_member_id = mid, mj_name = bytes_str name\<rparr>) } })"

definition serializeMemberLeftNotification :: "MemberLeftNotification \<Rightarrow> bytes option" where
  "serializeMemberLeftNotification notif = do {
     (buf, off) \<leftarrow> write8 (replicate (1 + 4 + 1 + length (ml_name notif)) 0) 0 (ml_notif_code notif);
     (buf, off) \<leftarrow> write32 buf off (ml_member_id notif);
     (buf, off) \<leftarrow> write8 buf off (word_of_nat (length (ml_name notif)));
     memcpy buf off (str_bytes (ml_name notif)) }"

definition parseMemberLeftNotification :: "bytes \<Rightarrow> MemberLeftNotification result option" where
  "parseMemberLeftNotification data =
     (let dflt = \<lparr>ml_notif_code = 0, ml_member_id = 0, ml_name = []\<rparr> in
      if length data < 1 + 4 + 1 then Some (failure dflt malformed not_enough_data)
      else do {
        (nc, off) \<leftarrow> read8 data 0;
        (mid, off) \<leftarrow> read32 data off;
        (len, off) \<leftarrow> read8 data off;
        if length data < off + unat len then Some (failure dflt malformed ''name truncated'')
        else do {
          name \<leftarrow> subspan data off (unat len);
          Some (success \<lparr>ml_notif_code = nc, ml_member_id = mid, ml_name = bytes_str name\<rparr>) } })"

definition serializeSessionClosedNotification :: "SessionClosedNotification \<Rightarrow> bytes option" where
  "serializeSessionClosedNotification notif = do {
     (buf, off) \<leftarrow> write8 (replicate 1 0) 0 (sc_notif_code notif);
     Some buf }"

definition parseSessionClosedNotification :: "bytes \<Rightarrow> SessionClosedNotification result option" where
  "parseSessionClosedNotification data =
     (if data = [] then Some (failure \<lparr>sc_notif_code = 0\<rparr> malformed not_enough_data)
      else do {
        (nc, off) \<leftarrow> read8 data 0;
        Some (success \<lparr>sc_notif_code = nc\<rparr>) })"

section \<open>Canvas state\<close>

fun serialize_operations :: "draw_operation list \<Rightarrow> bytes list option" where
  "serialize_operations [] = Some []"
| "serialize_operations (op # ops) = do {
     s \<leftarrow> serializeDrawOperation op;
     ss \<leftarrow> serialize_operations ops;
     Some (s # ss) }"

fun append_records :: "bytes \<Rightarrow> bytes list \<Rightarrow> bytes option" where
  "append_records buf [] = Some buf"
| "append_records buf (s # ss) = do {
     let pos = length buf;
     (buf, len_off) \<leftarrow> write32 (buf @ replicate (4 + length s) 0) pos (word_of_nat (length s));
     buf \<leftarrow> memcpy buf (pos + 4) s;
     append_records buf ss }"

definition serializeCanvasStateMessage :: "CanvasStateMessage \<Rightarrow> bytes option" where
  "serializeCanvasStateMessage msg = do {
     serialized \<leftarrow> serialize_operations (cs_operations msg);
     (buf, hdr_off) \<leftarrow> write32 (replicate 4 0) 0 (word_of_nat (length (cs_operations msg)));
     append_records buf serialized }"

fun parse_operations ::
  "nat \<Rightarrow> bytes \<Rightarrow> nat \<Rightarrow> draw_operation list \<Rightarrow> CanvasStateMessage result option"
where
  "parse_operations 0 data off acc = Some (success \<lparr>cs_operations = acc\<rparr>)"
| "parse_operations (Suc n) data off acc =
     (let dflt = \<lparr>cs_operations = []\<rparr> in
      if off + 4 > length data then Some (failure dflt malformed ''canvas state truncated'')
      else do {
        (len, off) \<leftarrow> read32 data off;
        if off + unat len > length data
        then Some (failure dflt malformed ''operation data truncated'')
        else do {
          body \<leftarrow> subspan data off (unat len);
          op_res \<leftarrow> parseDrawOperation body;
          if \<not> ok op_res then Some (failure dflt (err op_res) (message op_res))
          else parse_operations n data (off + unat len) (acc @ [val op_res]) } })"

definition parseCanvasStateMessage :: "bytes \<Rightarrow> CanvasStateMessage result option" where
  "parseCanvasStateMessage data =
     (if length data < 4
      then Some (failure \<lparr>cs_operations = []\<rparr> malformed ''canvas state too short'')
      else do {
        (count, off) \<leftarrow> read32 data 0;
        parse_operations (unat count) data off [] })"

section \<open>Every parser answers on every input\<close>

lemma parse_total:
  "\<exists>r. parseHeader data = Some r"
  "\<exists>r. parseCreateMessage data = Some r"
  "\<exists>r. parseJoinMessage data = Some r"
  "\<exists>r. parseAckMessage data = Some r"
  "\<exists>r. parseErrorMessage data = Some r"
  "\<exists>r. parseCreateAckMessage data = Some r"
  "\<exists>r. parseJoinAckMessage data = Some r"
  "\<exists>r. parseMemberJoinedNotification data = Some r"
  "\<exists>r. parseMemberLeftNotification data = Some r"
  "\<exists>r. parseSessionClosedNotification data = Some r"
  by (auto simp: parseHeader_def parseCreateMessage_def parseJoinMessage_def parseAckMessage_def
      parseErrorMessage_def parseCreateAckMessage_def parseJoinAckMessage_def
      parseMemberJoinedNotification_def parseMemberLeftNotification_def
      parseSessionClosedNotification_def read8_def read32_def subspan_def Let_def)

lemma parse_operations_total: "\<exists>r. parse_operations n data off acc = Some r"
proof (induction n arbitrary: off acc)
  case 0
  then show ?case by simp
next
  case (Suc n)
  show ?case
  proof (cases "off + 4 > length data")
    case True
    then show ?thesis by simp
  next
    case False
    then obtain len where len: "read32 data off = Some (len, off + 4)"
      using read_total(3) [of off data] by auto
    show ?thesis
    proof (cases "off + 4 + unat len > length data")
      case True
      with False len show ?thesis by simp
    next
      case fits: False
      obtain r where "parseDrawOperation (take (unat len) (drop (off + 4) data)) = Some r"
        using parseDrawOperation_total by blast
      with False fits len Suc.IH show ?thesis by (simp add: subspan_slice Let_def)
    qed
  qed
qed

lemma parseCanvasState_total: "\<exists>r. parseCanvasStateMessage data = Some r"
  using read_total(3) [of 0 data] parse_operations_total
  by (auto simp: parseCanvasStateMessage_def)

section \<open>Images and round trips\<close>

definition header_image :: "Header \<Rightarrow> bytes" where
  "header_image h = [opcode h, flags h] @ be32 (hdr_length h)"

definition frame_image :: "Message \<Rightarrow> bytes" where
  "frame_image m = header_image (header m) @ payload m"

definition name_image :: "string \<Rightarrow> bytes" where
  "name_image s = word_of_nat (length s) # str_bytes s"

abbreviation (input) name_fits :: "string \<Rightarrow> bool" where "name_fits s \<equiv> length s \<le> 255"

lemma length_header_image [simp]: "length (header_image h) = 6"
  by (simp add: header_image_def)

lemma unat_u8_of_nat: "n \<le> 255 \<Longrightarrow> unat (word_of_nat n :: u8) = n"
  by (simp add: unat_of_nat)

lemma serializeMessage_image: "serializeMessage m = Some (frame_image m)"
  unfolding serializeMessage_def getSize_def wbuf_start
  by (simp add: wire_simps frame_image_def header_image_def)

lemma parseHeader_image: "parseHeader (header_image h @ rest) = Some (success h)"
  by (cases h) (simp add: parseHeader_def header_image_def wire_simps take_Cons')

lemma serialize_named:
  "serializeCreateMessage cm = Some (name_image (cm_name cm))"
  "serializeJoinMessage jm = Some (be32 (jm_session_id jm) @ name_image (jm_name jm))"
  "serializeMemberJoinedNotification mj =
     Some ([mj_notif_code mj] @ be32 (mj_member_id mj) @ name_image (mj_name mj))"
  "serializeMemberLeftNotification ml =
     Some ([ml_notif_code ml] @ be32 (ml_member_id ml) @ name_image (ml_name ml))"
  unfolding serializeCreateMessage_def serializeJoinMessage_def
    serializeMemberJoinedNotification_def serializeMemberLeftNotification_def wbuf_start
  by (simp_all add: wire_simps name_image_def)

lemma serialize_plain:
  "serializeAckMessage am = Some (ack_code am # str_bytes (ack_message am))"
  "serializeErrorMessage em = Some (err_code em # str_bytes (err_message em))"
  "serializeCreateAckMessage ca =
     Some ([ca_ack_code ca] @ be32 (ca_session_id ca) @ be32 (ca_member_id ca))"
  "serializeJoinAckMessage ja = Some ([ja_ack_code ja] @ be32 (ja_member_id ja))"
  "serializeSessionClosedNotification sc = Some [sc_notif_code sc]"
  unfolding serializeAckMessage_def serializeErrorMessage_def serializeCreateAckMessage_def
    serializeJoinAckMessage_def serializeSessionClosedNotification_def wbuf_start
  by (simp_all add: wire_simps)

lemma parse_named_image:
  "name_fits n \<Longrightarrow> parseCreateMessage (name_image n @ rest) = Some (success n)"
  "name_fits (jm_name jm) \<Longrightarrow>
    parseJoinMessage ((be32 (jm_session_id jm) @ name_image (jm_name jm)) @ rest) = Some (success jm)"
  "name_fits (mj_name mj) \<Longrightarrow>
    parseMemberJoinedNotification
      (([mj_notif_code mj] @ be32 (mj_member_id mj) @ name_image (mj_name mj)) @ rest) =
      Some (success mj)"
  "name_fits (ml_name ml) \<Longrightarrow>
    parseMemberLeftNotification
      (([ml_notif_code ml] @ be32 (ml_member_id ml) @ name_image (ml_name ml)) @ rest) =
      Some (success ml)"
  by (simp_all add: parseCreateMessage_def parseJoinMessage_def parseMemberJoinedNotification_def
      parseMemberLeftNotification_def name_image_def unat_u8_of_nat wire_simps Let_def)

lemma parse_plain_image:
  "parseAckMessage (ack_code am # str_bytes (ack_message am)) = Some (success am)"
  "parseErrorMessage (err_code em # str_bytes (err_message em)) = Some (success em)"
  "parseCreateAckMessage
     (([ca_ack_code ca] @ be32 (ca_session_id ca) @ be32 (ca_member_id ca)) @ rest) =
     Some (success ca)"
  "parseJoinAckMessage (([ja_ack_code ja] @ be32 (ja_member_id ja)) @ rest) = Some (success ja)"
  "parseSessionClosedNotification ([sc_notif_code sc] @ rest) = Some (success sc)"
  by (simp_all add: parseAckMessage_def parseErrorMessage_def parseCreateAckMessage_def
      parseJoinAckMessage_def parseSessionClosedNotification_def wire_simps)

interpretation create_msg: prefix_codec
  "\<lambda>n. serializeCreateMessage \<lparr>cm_name = n\<rparr>" parseCreateMessage "\<lambda>n. name_fits n"
  by (rule prefix_codecI [where img = name_image])
    (simp_all add: parse_total serialize_named parse_named_image)

interpretation join_msg: prefix_codec
  serializeJoinMessage parseJoinMessage "\<lambda>m. name_fits (jm_name m)"
  by (rule prefix_codecI [OF parse_total(3) serialize_named(2) parse_named_image(2)])

interpretation member_joined_msg: prefix_codec
  serializeMemberJoinedNotification parseMemberJoinedNotification "\<lambda>m. name_fits (mj_name m)"
  by (rule prefix_codecI [OF parse_total(8) serialize_named(3) parse_named_image(3)])

interpretation member_left_msg: prefix_codec
  serializeMemberLeftNotification parseMemberLeftNotification "\<lambda>m. name_fits (ml_name m)"
  by (rule prefix_codecI [OF parse_total(9) serialize_named(4) parse_named_image(4)])

interpretation session_closed_msg: prefix_codec
  serializeSessionClosedNotification parseSessionClosedNotification "\<lambda>_. True"
  by (rule prefix_codecI [OF parse_total(10) serialize_plain(5) parse_plain_image(5)])

interpretation create_ack_msg: prefix_codec
  serializeCreateAckMessage parseCreateAckMessage "\<lambda>_. True"
  by (rule prefix_codecI [OF parse_total(6) serialize_plain(3) parse_plain_image(3)])

interpretation join_ack_msg: prefix_codec
  serializeJoinAckMessage parseJoinAckMessage "\<lambda>_. True"
  by (rule prefix_codecI [OF parse_total(7) serialize_plain(4) parse_plain_image(4)])

interpretation ack_msg: codec serializeAckMessage parseAckMessage "\<lambda>_. True"
  by (rule codecI [OF parse_total(4) serialize_plain(1) parse_plain_image(1)])

interpretation error_msg: codec serializeErrorMessage parseErrorMessage "\<lambda>_. True"
  by (rule codecI [OF parse_total(5) serialize_plain(2) parse_plain_image(2)])

subsection \<open>Names longer than their length byte\<close>

text \<open>
  The length of a name is cast to one byte, while the buffer and the copy use the whole name. A
  name of 256 characters or more is therefore cut to its length modulo 256 at the receiver.
\<close>

lemma parseCreate_long:
  "parseCreateMessage (name_image n) = Some (success (take (length n mod 256) n))"
proof -
  have "length n mod 256 \<le> length n" by simp
  then show ?thesis
    by (simp add: parseCreateMessage_def name_image_def wire_simps unat_of_nat take_map)
qed

subsection \<open>Canvas state\<close>

definition canvas_state_image :: "draw_operation list \<Rightarrow> bytes" where
  "canvas_state_image ops = be32 (word_of_nat (length ops)) @ records_image ops"

definition canvas_state_fits :: "CanvasStateMessage \<Rightarrow> bool" where
  "canvas_state_fits msg \<longleftrightarrow>
     list_all points_fit (cs_operations msg) \<and> length (cs_operations msg) < 2 ^ 32"

lemma serialize_operations_image:
  "list_all points_fit ops \<Longrightarrow> serialize_operations ops = Some (map draw_image ops)"
  by (induction ops) (simp_all add: serializeDrawOperation_image)

lemma append_records_image:
  "append_records buf (map draw_image ops) = Some (buf @ records_image ops)"
proof (induction ops arbitrary: buf)
  case Nil
  then show ?case by simp
next
  case (Cons op ops)
  then show ?case
    by (simp add: wbuf_def [symmetric] wire_simps Let_def del: length_draw_image)
qed

lemma serializeCanvasState_image:
  "list_all points_fit (cs_operations msg) \<Longrightarrow>
    serializeCanvasStateMessage msg = Some (canvas_state_image (cs_operations msg))"
  unfolding serializeCanvasStateMessage_def wbuf_start
  by (simp add: serialize_operations_image append_records_image wire_simps canvas_state_image_def)

lemma parse_operations_image:
  "list_all points_fit ops \<Longrightarrow> off = length d \<Longrightarrow>
    parse_operations (length ops) (d @ records_image ops @ rest) off acc =
      Some (success \<lparr>cs_operations = acc @ ops\<rparr>)"
proof (induction ops arbitrary: d off acc)
  case Nil
  then show ?case by simp
next
  case (Cons op ops)
  let ?len = "word_of_nat (length (draw_image op)) :: u32"
  have fit: "points_fit op" "list_all points_fit ops" using Cons.prems by simp_all
  have "parseDrawOperation (draw_image op) = Some (success op)"
    using parseDrawOperation_image [OF fit(1), of "[]"] by simp
  with fit Cons.prems(2) Cons.IH [of _ "d @ be32 ?len @ draw_image op" "acc @ [op]"]
  show ?case
    by (simp add: wire_simps unat_image_length Let_def add.assoc del: length_draw_image)
qed

lemma parseCanvasState_image:
  assumes "canvas_state_fits msg"
  shows "parseCanvasStateMessage (canvas_state_image (cs_operations msg) @ rest) = Some (success msg)"
proof -
  let ?ops = "cs_operations msg"
  have "unat (word_of_nat (length ?ops) :: u32) = length ?ops"
    using assms by (simp add: canvas_state_fits_def unat_of_nat)
  then show ?thesis
    using assms parse_operations_image [of ?ops 4 "be32 (word_of_nat (length ?ops))" rest "[]"]
    by (simp add: parseCanvasStateMessage_def canvas_state_image_def canvas_state_fits_def wire_simps)
qed

interpretation canvas_state_msg: prefix_codec
  serializeCanvasStateMessage parseCanvasStateMessage canvas_state_fits
  by (rule prefix_codecI [where img = "\<lambda>m. canvas_state_image (cs_operations m)"])
    (simp_all add: parseCanvasState_total serializeCanvasState_image parseCanvasState_image
      canvas_state_fits_def)

end
