(* ===== verification/Wire_Properties.thy ===== *)
theory Wire_Properties
  imports Message
begin

text \<open>
  What the wire formats promise, stated on the serializers and parsers of
  \<open>common/canvas\<close> and \<open>common/protocol\<close>.
\<close>

section \<open>Sample values\<close>

definition sample_stroke :: draw_operation where
  "sample_stroke =
     \<lparr>operation_id = 0x100000002, seq = 7, member_id = 3, tool = tool_freehand,
      color = 0xFF00FF80, thickness = 4,
      points = [\<lparr>pt_x = 10, pt_y = 300\<rparr>, \<lparr>pt_x = 11, pt_y = 301\<rparr>]\<rparr>"

lemma sample_stroke_fits [simp]: "points_fit sample_stroke"
  by (simp add: points_fit_def sample_stroke_def)

section \<open>Drawing operations\<close>

text \<open>C16: a drawing operation of at most 65535 points survives the wire: the parser of any buffer
  that starts with its serialization returns it, field for field.\<close>

theorem draw_operation_roundtrip:
  assumes "points_fit op" and "serializeDrawOperation op = Some buf"
  shows "parseDrawOperation (buf @ rest) = Some (success op)"
  using assms by (rule draw.dec_prefix)

lemma draw_operation_roundtrip_witness:
  "\<exists>buf. serializeDrawOperation sample_stroke = Some buf \<and>
     parseDrawOperation (buf @ [1, 2, 3]) = Some (success sample_stroke)"
proof -
  have *: "serializeDrawOperation sample_stroke = Some (draw_image sample_stroke)"
    by (simp add: serializeDrawOperation_image)
  from draw_operation_roundtrip [OF _ this, of "[1, 2, 3]"] * show ?thesis by simp
qed

text \<open>the parser accepts nothing but serializations: if it succeeds, the operation it returns
  serializes to exactly the first 24 + 4n bytes it was given.\<close>

theorem parse_draw_canonical:
  assumes "parseDrawOperation data = Some r" and "ok r"
  shows "serializeDrawOperation (val r) = Some (take (24 + length (points (val r)) * 4) data)"
proof -
  note image = parseDrawOperation_ok_image [OF assms]
  then have "take (24 + length (points (val r)) * 4) data = draw_image (val r)"
    by (metis append_eq_conv_conj length_draw_image)
  with image show ?thesis by (simp add: serializeDrawOperation_image)
qed

lemma parse_draw_canonical_witness:
  "serializeDrawOperation sample_stroke =
     Some (take (24 + length (points sample_stroke) * 4) (draw_image sample_stroke @ [9, 9]))"
proof -
  have "parseDrawOperation (draw_image sample_stroke @ [9, 9]) = Some (success sample_stroke)"
    by (simp add: parseDrawOperation_image)
  from parse_draw_canonical [OF this] show ?thesis by simp
qed

text \<open>C40: serializing a drawing operation is defined exactly when it has at most 65535 points:
  beyond that the buffer is sized by the truncated 16-bit count and the writes leave it.\<close>

theorem serialize_draw_defined_iff:
  "(\<exists>buf. serializeDrawOperation op = Some buf) \<longleftrightarrow> length (points op) \<le> 65535"
  using serializeDrawOperation_image [of op] serializeDrawOperation_overflow [of op]
  unfolding points_fit_def by (cases "length (points op) \<le> 65535") simp_all

text \<open>validation accepts an operation exactly when it has an id, a member, a known tool, a
  thickness from 1 to 64, a sequence number if and only if one is required, at most 65535 points
  and the number of points its tool needs; every rejection is \<open>malformed\<close>.\<close>

theorem validate_draw_operation_correct:
  "(ok (validateDrawOperation op req) \<longleftrightarrow> valid_operation req op) \<and>
   (\<not> valid_operation req op \<longrightarrow>
     (\<exists>text. validateDrawOperation op req = failure False malformed text))"
proof -
  have "validateDrawOperation op req =
      failure False malformed (message (validateDrawOperation op req))"
    if "\<not> ok (validateDrawOperation op req)"
    using validate_result [of op req] that by (simp add: failure_def ok_def)
  with validate_ok_iff [of op req] show ?thesis by blast
qed

lemma validate_draw_operation_correct_witness:
  "ok (validateDrawOperation sample_stroke True) \<and>
   (\<exists>text. validateDrawOperation (sample_stroke\<lparr>points := []\<rparr>) True = failure False malformed text)"
  using validate_draw_operation_correct [of sample_stroke True]
    validate_draw_operation_correct [of "sample_stroke\<lparr>points := []\<rparr>" True]
  by (simp add: valid_operation_def points_match_tool_def points_fit_def sample_stroke_def)

section \<open>Messages\<close>

text \<open>C17: no input, however short or damaged, makes a message parser read outside its buffer:
  each of them answers on every byte string.\<close>

theorem parsers_memory_safe:
  "parseHeader data \<noteq> None \<and> parseCreateMessage data \<noteq> None \<and> parseJoinMessage data \<noteq> None \<and>
   parseAckMessage data \<noteq> None \<and> parseErrorMessage data \<noteq> None \<and>
   parseCreateAckMessage data \<noteq> None \<and> parseJoinAckMessage data \<noteq> None \<and>
   parseMemberJoinedNotification data \<noteq> None \<and> parseMemberLeftNotification data \<noteq> None \<and>
   parseSessionClosedNotification data \<noteq> None \<and> parseDrawOperation data \<noteq> None \<and>
   parseCanvasStateMessage data \<noteq> None"
  using parse_total [of data] parseDrawOperation_total [of data] parseCanvasState_total [of data]
  by auto

text \<open>a canvas state of fewer than 2^32 operations, each of at most 65535 points, is
  received as it was sent: every operation, in order.\<close>

theorem canvas_state_roundtrip:
  assumes "list_all points_fit ops" and "length ops < 2 ^ 32"
    and "serializeCanvasStateMessage \<lparr>cs_operations = ops\<rparr> = Some buf"
  shows "parseCanvasStateMessage buf = Some (success \<lparr>cs_operations = ops\<rparr>)"
  using assms canvas_state_msg.dec_enc [of "\<lparr>cs_operations = ops\<rparr>" buf]
  by (simp add: canvas_state_fits_def)

lemma canvas_state_roundtrip_witness:
  "\<exists>buf. serializeCanvasStateMessage \<lparr>cs_operations = [sample_stroke, sample_stroke\<lparr>seq := 8\<rparr>]\<rparr> = Some buf \<and>
     parseCanvasStateMessage buf =
       Some (success \<lparr>cs_operations = [sample_stroke, sample_stroke\<lparr>seq := 8\<rparr>]\<rparr>)"
proof -
  let ?ops = "[sample_stroke, sample_stroke\<lparr>seq := 8\<rparr>]"
  have fit: "list_all points_fit ?ops" by (simp add: points_fit_def sample_stroke_def)
  then have *: "serializeCanvasStateMessage \<lparr>cs_operations = ?ops\<rparr> = Some (canvas_state_image ?ops)"
    by (simp add: serializeCanvasState_image)
  show ?thesis using canvas_state_roundtrip [OF fit _ *] * by simp
qed

text \<open>a join request carries its session id and a name of up to 255 characters unchanged, and
  the notification of a new member its id and name.\<close>

theorem join_messages_roundtrip:
  assumes "length name \<le> 255"
  shows "Option.bind (serializeJoinMessage \<lparr>jm_session_id = sid, jm_name = name\<rparr>) parseJoinMessage =
      Some (success \<lparr>jm_session_id = sid, jm_name = name\<rparr>) \<and>
    Option.bind (serializeMemberJoinedNotification
        \<lparr>mj_notif_code = code, mj_member_id = mid, mj_name = name\<rparr>) parseMemberJoinedNotification =
      Some (success \<lparr>mj_notif_code = code, mj_member_id = mid, mj_name = name\<rparr>)"
  using join_msg.roundtrip [of "\<lparr>jm_session_id = sid, jm_name = name\<rparr>"]
    member_joined_msg.roundtrip [of "\<lparr>mj_notif_code = code, mj_member_id = mid, mj_name = name\<rparr>"]
    assms
  by simp

lemma join_messages_roundtrip_witness:
  "Option.bind (serializeJoinMessage \<lparr>jm_session_id = 5, jm_name = ''ada''\<rparr>) parseJoinMessage =
     Some (success \<lparr>jm_session_id = 5, jm_name = ''ada''\<rparr>)"
  using join_messages_roundtrip [of "''ada''" 5] by simp

text \<open>a name is sent with a one-byte length, so the receiver of a create request gets its
  first (length mod 256) characters: names of 256 characters or more are cut.\<close>

theorem create_name_wraps:
  "Option.bind (serializeCreateMessage \<lparr>cm_name = name\<rparr>) parseCreateMessage =
     Some (success (take (length name mod 256) name))"
  using parseCreate_long [of name] by (simp add: serialize_named)

end
