(* ===== verification/Floats.thy ===== *)
theory Floats
  imports Complex_Main Prelude
begin

text \<open>
  The floating-point arithmetic of \<open>engine/canvas/canvas.cpp\<close>: IEEE 754 binary32
  (\<open>float\<close>) and binary64 (\<open>double\<close>) as rational numbers. Each operation is the
  exact one followed by rounding to nearest, ties to even, with the format's precision and its
  smallest exponent, so that gradual underflow is included. Overflow to infinity, NaN and the
  sign of zero are not modelled: the numbers of the program are coordinates, colours and their
  products, far below \<open>2 ^ 127\<close>, every divisor is positive, and a square root is taken of
  a number that is not negative; the canvas lemmas bound them.
\<close>

section \<open>Rounding\<close>

function bit_length :: "int \<Rightarrow> int" where
  "bit_length n = (if n \<le> 0 then 0 else bit_length (n div 2) + 1)"
  by pat_completeness auto
termination by (relation "measure nat") auto

declare bit_length.simps [simp del]

text \<open>The exponent of a positive number: \<open>2 powi log2_floor x \<le> x < 2 powi (log2_floor x + 1)\<close>.\<close>

definition log2_floor :: "rat \<Rightarrow> int" where
  "log2_floor x =
     (let (a, b) = quotient_of x; k = bit_length a - bit_length b
      in if 2 powi k \<le> x then k else k - 1)"

definition round_half_even :: "rat \<Rightarrow> int" where
  "round_half_even x =
     (let f = \<lfloor>x\<rfloor>; d = x - of_int f in
      if d < 1 / 2 then f else if d > 1 / 2 then f + 1 else if even f then f else f + 1)"

text \<open>The distance of two neighbours in the format with \<open>p\<close> digits, around \<open>x\<close>.\<close>

definition ulp :: "nat \<Rightarrow> int \<Rightarrow> rat \<Rightarrow> rat" where
  "ulp p emin x = 2 powi (max (log2_floor \<bar>x\<bar> - (int p - 1)) emin)"

definition round_to :: "nat \<Rightarrow> int \<Rightarrow> rat \<Rightarrow> rat" where
  "round_to p emin x =
     (if x = 0 then 0 else of_int (round_half_even (x / ulp p emin x)) * ulp p emin x)"

definition fl32 :: "rat \<Rightarrow> rat" where "fl32 x = round_to 24 (- 149) x"

definition fl64 :: "rat \<Rightarrow> rat" where "fl64 x = round_to 53 (- 1074) x"

text \<open>The integer square root, one binary digit pair at a time, and the rounded one.\<close>

function isqrt :: "int \<Rightarrow> int" where
  "isqrt n =
     (if n \<le> 0 then 0
      else let r = 2 * isqrt (n div 4) in if (r + 1) * (r + 1) \<le> n then r + 1 else r)"
  by pat_completeness auto
termination by (relation "measure nat") auto

declare isqrt.simps [simp del]

definition sqrt_to :: "nat \<Rightarrow> rat \<Rightarrow> rat" where
  "sqrt_to p x =
     (if x \<le> 0 then 0
      else let u = 2 powi (log2_floor x div 2 - (int p - 1)); y = x / (u * u);
               m = isqrt \<lfloor>y\<rfloor>; h = of_int m + 1 / 2
           in (if y < h * h \<or> (y = h * h \<and> even m) then of_int m else of_int (m + 1)) * u)"

definition sqrt32 :: "rat \<Rightarrow> rat" where "sqrt32 x = sqrt_to 24 x"

definition sqrt64 :: "rat \<Rightarrow> rat" where "sqrt64 x = sqrt_to 53 x"

text \<open>
  Casts to integers truncate towards zero; a value outside the range of the target type is
  undefined behaviour.
\<close>

definition trunc :: "rat \<Rightarrow> int" where
  "trunc x = (if x < 0 then \<lceil>x\<rceil> else \<lfloor>x\<rfloor>)"

definition float_to_int :: "rat \<Rightarrow> int option" where
  "float_to_int x = i32 (trunc x)"

definition float_to_u8 :: "rat \<Rightarrow> u8 option" where
  "float_to_u8 x = (let z = trunc x in if 0 \<le> z \<and> z < 256 then Some (word_of_int z) else None)"

definition clamp :: "rat \<Rightarrow> rat \<Rightarrow> rat \<Rightarrow> rat" where
  "clamp x lo hi = (if x < lo then lo else if hi < x then hi else x)"

section \<open>Bounds of the exponent\<close>

lemma bit_length_bounds:
  "0 < n \<Longrightarrow> 1 \<le> bit_length n \<and> 2 ^ nat (bit_length n - 1) \<le> n \<and> n < 2 ^ nat (bit_length n)"
proof (induction n rule: bit_length.induct)
  case (1 n)
  show ?case
  proof (cases "n div 2 = 0")
    case True
    with 1 have "n = 1" by simp
    then show ?thesis by (simp add: bit_length.simps)
  next
    case False
    with 1 have IH: "1 \<le> bit_length (n div 2)" "2 ^ nat (bit_length (n div 2) - 1) \<le> n div 2"
        "n div 2 < 2 ^ nat (bit_length (n div 2))" by simp_all
    obtain k where k: "bit_length (n div 2) = int k + 1" using IH(1)
      by (metis add.commute zle_iff_zadd)
    have "bit_length n = int k + 2" using 1(2) k by (subst bit_length.simps) simp
    moreover have "nat (int k + 2) = Suc (Suc k)" "nat (1 + int k) = Suc k" "nat (int k + 1) = Suc k"
      by simp_all
    ultimately show ?thesis using IH k by auto
  qed
qed

lemma powi_le: "(m :: int) \<le> n \<Longrightarrow> (2 :: rat) powi m \<le> 2 powi n"
  by (simp add: power_int_increasing)

lemma powi_double: "(2 :: rat) powi (n + 1) = 2 * 2 powi n"
  by (simp add: power_int_add)

lemma log2_floor_bounds:
  assumes "0 < x"
  shows "2 powi (log2_floor x) \<le> x" and "x < 2 powi (log2_floor x + 1)"
proof -
  obtain a b where ab: "quotient_of x = (a, b)" by (cases "quotient_of x")
  have b: "0 < b" by (rule quotient_of_denom_pos [OF ab])
  have x: "x = of_int a / of_int b" by (rule quotient_of_div [OF ab])
  have a: "0 < a" using assms b x by (simp add: zero_less_divide_iff)
  define la lb where "la = bit_length a" and "lb = bit_length b"
  define k where "k = la - lb"
  have rat: "1 \<le> bit_length n \<and> (2 :: rat) powi (bit_length n - 1) \<le> of_int n \<and>
      of_int n < (2 :: rat) powi bit_length n" if "0 < n" for n
  proof -
    note * = bit_length_bounds [OF that]
    have "(of_int (2 ^ nat (bit_length n - 1)) :: rat) \<le> of_int n"
      "(of_int n :: rat) < of_int (2 ^ nat (bit_length n))"
      using * by (simp_all only: of_int_le_iff of_int_less_iff)
    with * show ?thesis by (simp add: power_int_def)
  qed
  have a_rat: "(2 :: rat) powi (la - 1) \<le> of_int a" "of_int a < (2 :: rat) powi la"
    and b_rat: "(2 :: rat) powi (lb - 1) \<le> of_int b" "of_int b < (2 :: rat) powi lb"
    using rat [OF a] rat [OF b] by (simp_all add: la_def lb_def)
  have upper: "x < 2 powi (k + 1)"
  proof -
    have "x < 2 powi la / of_int b" using x a_rat(2) b by (simp add: divide_strict_right_mono)
    also have "\<dots> \<le> 2 powi la / 2 powi (lb - 1)"
      using b_rat(1) by (intro divide_left_mono) (use b in auto)
    also have "\<dots> = 2 powi (k + 1)" by (simp add: k_def power_int_diff power_int_add)
    finally show ?thesis .
  qed
  have lower: "2 powi (k - 1) \<le> x"
  proof -
    have "(2 :: rat) powi (k - 1) = 2 powi (la - 1) / 2 powi lb"
      by (simp add: k_def power_int_diff)
    also have "\<dots> \<le> of_int a / 2 powi lb" using a_rat(1) by (simp add: divide_right_mono)
    also have "\<dots> \<le> of_int a / of_int b"
      using b_rat(2) a b by (intro divide_left_mono) (auto intro: less_imp_le)
    finally show ?thesis using x by simp
  qed
  have l: "log2_floor x = (if 2 powi k \<le> x then k else k - 1)"
    by (simp add: log2_floor_def ab la_def lb_def k_def Let_def)
  show "2 powi (log2_floor x) \<le> x" "x < 2 powi (log2_floor x + 1)"
    using l lower upper by (auto split: if_splits)
qed

section \<open>Rounding errors\<close>

lemma round_half_even_of_int [simp]: "round_half_even (of_int k) = k"
  by (simp add: round_half_even_def)

lemma round_half_even_error: "\<bar>of_int (round_half_even x) - x\<bar> \<le> 1 / 2"
proof -
  define f where "f = \<lfloor>x\<rfloor>"
  have "of_int f \<le> x" "x < of_int f + 1" unfolding f_def by linarith+
  then show ?thesis
    unfolding round_half_even_def Let_def f_def [symmetric]
    by (auto simp: abs_if field_simps split: if_splits)
qed

lemma ulp_pos [simp]: "0 < ulp p emin x"
  by (simp add: ulp_def)

lemma ulp_bound:
  assumes "x \<noteq> 0"
  shows "ulp p emin x \<le> 2 powi (1 - int p) * \<bar>x\<bar> + 2 powi emin"
proof -
  have "(2 :: rat) powi (log2_floor \<bar>x\<bar> + (1 - int p)) =
      2 powi (log2_floor \<bar>x\<bar>) * 2 powi (1 - int p)"
    by (rule power_int_add) simp
  also have "\<dots> \<le> \<bar>x\<bar> * 2 powi (1 - int p)"
    using log2_floor_bounds(1) [of "\<bar>x\<bar>"] assms by simp
  finally have *: "2 powi (log2_floor \<bar>x\<bar> - (int p - 1)) \<le> 2 powi (1 - int p) * \<bar>x\<bar>"
    by (simp add: mult.commute algebra_simps)
  have "0 \<le> (2 :: rat) powi (1 - int p) * \<bar>x\<bar>" "(0 :: rat) < 2 powi emin" by simp_all
  with * show ?thesis unfolding ulp_def max_def by (auto intro: order_trans)
qed

lemma round_to_error: "\<bar>round_to p emin x - x\<bar> \<le> ulp p emin x / 2"
proof (cases "x = 0")
  case True
  then show ?thesis by (simp add: round_to_def less_imp_le)
next
  case False
  let ?u = "ulp p emin x"
  have "round_to p emin x - x = (of_int (round_half_even (x / ?u)) - x / ?u) * ?u"
    using False less_imp_neq [OF ulp_pos [of p emin x]] by (simp add: round_to_def left_diff_distrib)
  then have "\<bar>round_to p emin x - x\<bar> = \<bar>of_int (round_half_even (x / ?u)) - x / ?u\<bar> * ?u"
    by (simp add: abs_mult less_imp_le)
  also have "\<dots> \<le> 1 / 2 * ?u"
    by (intro mult_right_mono round_half_even_error less_imp_le ulp_pos)
  finally show ?thesis by simp
qed

lemma round_to_bound:
  assumes "4 \<le> p" and "emin \<le> 0"
  shows "\<bar>round_to p emin x\<bar> \<le> 17 / 16 * \<bar>x\<bar> + 1"
proof (cases "x = 0")
  case True
  then show ?thesis by (simp add: round_to_def)
next
  case False
  have "(2 :: rat) powi (1 - int p) \<le> 2 powi (- 3)" "(2 :: rat) powi emin \<le> 1"
    using powi_le [of "1 - int p" "- 3"] powi_le [of emin 0] assms by simp_all
  then have "ulp p emin x \<le> 1 / 8 * \<bar>x\<bar> + 1"
    using ulp_bound [OF False, of p emin] mult_right_mono [of "2 powi (1 - int p)" "1 / 8" "\<bar>x\<bar>"]
    by (simp add: power_int_minus)
  with round_to_error [of p emin x] show ?thesis by linarith
qed

text \<open>Integers of up to \<open>p\<close> digits are exact.\<close>

lemma powi_nonneg_int: "0 \<le> n \<Longrightarrow> \<exists>k :: int. (2 :: rat) powi n = of_int k"
  by (rule exI [of _ "2 ^ nat n"]) (simp add: power_int_def)

lemma round_to_of_int:
  assumes "\<bar>k\<bar> < 2 ^ p" and "emin \<le> 0"
  shows "round_to p emin (of_int k) = of_int k"
proof (cases "k = 0")
  case True
  then show ?thesis by (simp add: round_to_def)
next
  case False
  let ?x = "of_int k :: rat"
  have "(2 :: rat) powi (log2_floor \<bar>?x\<bar>) \<le> \<bar>?x\<bar>"
    using log2_floor_bounds(1) [of "\<bar>?x\<bar>"] False by simp
  also have "\<bar>?x\<bar> < 2 powi int p"
    using assms(1) by (metis of_int_abs of_int_less_iff of_int_numeral of_int_power power_int_of_nat)
  finally have "log2_floor \<bar>?x\<bar> < int p"
    using powi_le [of "int p" "log2_floor \<bar>?x\<bar>"] by (meson leD not_le)
  then have e: "max (log2_floor \<bar>?x\<bar> - (int p - 1)) emin \<le> 0" using assms(2) by simp
  define e where "e = max (log2_floor \<bar>?x\<bar> - (int p - 1)) emin"
  obtain j :: int where "(2 :: rat) powi (- e) = of_int j"
    using powi_nonneg_int [of "- e"] e e_def by auto
  then have quot: "?x / 2 powi e = of_int (k * j)"
    by (simp add: power_int_minus field_simps)
  have "ulp p emin ?x = 2 powi e" by (simp add: ulp_def e_def)
  then have "round_to p emin ?x = of_int (round_half_even (?x / 2 powi e)) * 2 powi e"
    using False by (simp add: round_to_def)
  also have "\<dots> = ?x / 2 powi e * 2 powi e" unfolding quot round_half_even_of_int ..
  also have "\<dots> = ?x" by simp
  finally show ?thesis .
qed

lemma fl_of_int:
  "\<bar>k\<bar> < 2 ^ 24 \<Longrightarrow> fl32 (of_int k) = of_int k"
  "\<bar>k\<bar> < 2 ^ 53 \<Longrightarrow> fl64 (of_int k) = of_int k"
  by (simp_all add: fl32_def fl64_def round_to_of_int)

lemma fl_bound: "\<bar>fl32 x\<bar> \<le> 17 / 16 * \<bar>x\<bar> + 1" "\<bar>fl64 x\<bar> \<le> 17 / 16 * \<bar>x\<bar> + 1"
  unfolding fl32_def fl64_def by (rule round_to_bound; simp)+

lemma fl_le:
  "\<bar>x\<bar> \<le> b \<Longrightarrow> 17 / 16 * b + 1 \<le> b' \<Longrightarrow> \<bar>fl32 x\<bar> \<le> b'"
  "\<bar>x\<bar> \<le> b \<Longrightarrow> 17 / 16 * b + 1 \<le> b' \<Longrightarrow> \<bar>fl64 x\<bar> \<le> b'"
  using fl_bound [of x] by linarith+

lemma fl_consts [simp]: "fl32 0 = 0" "fl32 1 = 1" "fl32 255 = 255" "fl64 0 = 0" "fl64 1 = 1"
  using fl_of_int(1) [of 0] fl_of_int(1) [of 1] fl_of_int(1) [of 255] fl_of_int(2) [of 0]
    fl_of_int(2) [of 1]
  by simp_all

section \<open>Square roots\<close>

lemma isqrt_bounds: "0 \<le> n \<Longrightarrow> 0 \<le> isqrt n \<and> isqrt n * isqrt n \<le> n \<and> n < (isqrt n + 1) * (isqrt n + 1)"
proof (induction n rule: isqrt.induct)
  case (1 n)
  show ?case
  proof (cases "n = 0")
    case True
    then show ?thesis by (simp add: isqrt.simps)
  next
    case False
    define r where "r = isqrt (n div 4)"
    have IH: "0 \<le> r" "r * r \<le> n div 4" "n div 4 < (r + 1) * (r + 1)"
      using 1 False by (simp_all add: r_def)
    have "4 * (r * r) \<le> n" "n < 4 * ((r + 1) * (r + 1))" using IH by linarith+
    moreover have "isqrt n = (if (2 * r + 1) * (2 * r + 1) \<le> n then 2 * r + 1 else 2 * r)"
      using False 1(2) by (subst isqrt.simps) (simp add: r_def Let_def)
    ultimately show ?thesis using IH(1) by (auto simp: algebra_simps)
  qed
qed

lemma isqrt_nonneg [simp]: "0 \<le> isqrt n"
  using isqrt_bounds [of n] by (cases "0 \<le> n") (simp_all add: isqrt.simps)

lemma sqrt_to_nonneg: "0 \<le> sqrt_to p x"
  by (auto simp: sqrt_to_def Let_def)

lemma sqrt_to_bound:
  assumes "1 \<le> p" and "0 < x"
  shows "sqrt_to p x * sqrt_to p x \<le> 4 * x"
proof -
  define u :: rat where "u = 2 powi (log2_floor x div 2 - (int p - 1))"
  define y where "y = x / (u * u)"
  define m where "m = isqrt \<lfloor>y\<rfloor>"
  have u: "0 < u" by (simp add: u_def)
  have uu: "u * u = 2 powi (2 * (log2_floor x div 2) - 2 * (int p - 1))"
    using power_int_add [of "2 :: rat" "log2_floor x div 2 - (int p - 1)"
        "log2_floor x div 2 - (int p - 1)"] by (simp add: u_def algebra_simps)
  also have "\<dots> \<le> 2 powi (log2_floor x)"
    using assms(1) by (intro powi_le) simp
  also have "\<dots> \<le> x" by (rule log2_floor_bounds(1) [OF assms(2)])
  finally have "1 \<le> y" using u by (simp add: y_def)
  then have floor: "1 \<le> \<lfloor>y\<rfloor>" by (simp add: le_floor_iff)
  have m: "1 \<le> m" "m * m \<le> \<lfloor>y\<rfloor>"
    using isqrt_bounds [of "\<lfloor>y\<rfloor>"] floor unfolding m_def
    by (cases "isqrt \<lfloor>y\<rfloor> = 0"; simp; linarith)+
  have mm: "of_int m * of_int m \<le> y"
    using m(2) by (metis le_floor_iff of_int_mult)
  define s where "s = sqrt_to p x"
  have "s \<le> of_int (m + 1) * u" and s0: "0 \<le> s"
    using assms(2) u sqrt_to_nonneg [of p x]
    by (auto simp: s_def sqrt_to_def Let_def u_def [symmetric] y_def [symmetric] m_def [symmetric])
  moreover have "of_int (m + 1) * u \<le> (2 * of_int m) * u"
    using m(1) u by (intro mult_right_mono) auto
  ultimately have "s \<le> 2 * of_int m * u" by simp
  then have "s * s \<le> (2 * of_int m * u) * (2 * of_int m * u)"
    using s0 order_trans [OF s0] by (intro mult_mono) auto
  also have "\<dots> = 4 * ((of_int m * of_int m) * (u * u))" by simp
  also have "\<dots> \<le> 4 * (y * (u * u))" using mm u by (intro mult_left_mono mult_right_mono) auto
  also have "\<dots> = 4 * x" using u by (simp add: y_def)
  finally show ?thesis by (simp add: s_def)
qed

lemma sqrt_bound:
  assumes "0 \<le> x" and "x \<le> b * b" and "0 \<le> b"
  shows "sqrt32 x \<le> 2 * b" and "sqrt64 x \<le> 2 * b"
proof -
  have *: "sqrt_to p x \<le> 2 * b" if "1 \<le> p" for p
  proof (cases "x = 0")
    case True
    then show ?thesis using assms(3) by (simp add: sqrt_to_def)
  next
    case False
    have "sqrt_to p x * sqrt_to p x \<le> (2 * b) * (2 * b)"
      using sqrt_to_bound [OF that, of x] False assms by simp
    then show ?thesis using assms(3) by (metis abs_le_square_iff abs_of_nonneg mult_nonneg_nonneg
      power2_eq_square sqrt_to_nonneg zero_le_numeral)
  qed
  then show "sqrt32 x \<le> 2 * b" "sqrt64 x \<le> 2 * b" by (simp_all add: sqrt32_def sqrt64_def)
qed

lemma sqrt_nonneg [simp]: "0 \<le> sqrt32 x" "0 \<le> sqrt64 x"
  by (simp_all add: sqrt32_def sqrt64_def sqrt_to_nonneg)

section \<open>Casts\<close>

lemma trunc_of_int [simp]: "trunc (of_int k) = k"
  by (simp add: trunc_def)

lemma trunc_abs: "of_int \<bar>trunc x\<bar> \<le> \<bar>x\<bar>"
proof (cases "x < 0")
  case True
  then have "x \<le> of_int \<lceil>x\<rceil>" "\<lceil>x\<rceil> \<le> 0" by (simp_all add: ceiling_le_iff)
  with True show ?thesis by (simp add: trunc_def)
next
  case False
  then have "of_int \<lfloor>x\<rfloor> \<le> x" "0 \<le> \<lfloor>x\<rfloor>" by simp_all
  with False show ?thesis by (simp add: trunc_def)
qed

lemma float_to_int_defined:
  assumes "\<bar>x\<bar> < 2 ^ 31"
  shows "float_to_int x = Some (trunc x)"
proof -
  have "of_int \<bar>trunc x\<bar> < (2 ^ 31 :: rat)" using trunc_abs assms by (rule le_less_trans)
  then have "\<bar>trunc x\<bar> < 2 ^ 31" by (metis of_int_less_iff of_int_numeral of_int_power)
  then show ?thesis by (auto simp: float_to_int_def)
qed

lemma float_to_u8_clamp: "\<exists>b. float_to_u8 (clamp x 0 255) = Some b"
proof -
  have "0 \<le> clamp x 0 255" "clamp x 0 255 \<le> 255" by (simp_all add: clamp_def)
  then have "0 \<le> trunc (clamp x 0 255)" "trunc (clamp x 0 255) \<le> 255"
    by (simp_all add: trunc_def floor_le_iff)
  then show ?thesis by (simp add: float_to_u8_def Let_def)
qed

lemma float_to_u8_of_nat: "n < 256 \<Longrightarrow> float_to_u8 (of_nat n) = Some (word_of_nat n)"
  using trunc_of_int [of "int n"] by (simp add: float_to_u8_def Let_def)

end
