(* ===== verification/Raster.thy ===== *)
theory Raster
  imports Floats Draw_Operation "HOL-Library.Signed_Division"
begin

text \<open>
  The rasterizer of \<open>engine/canvas/canvas.cpp\<close>: blending, the brush, the shapes and the
  bucket fill, down to the pixel. \<open>float\<close> and \<open>double\<close> are the rounded rationals
  of \<open>Floats\<close>; \<open>int\<close> and \<open>long long\<close> are integers whose overflow is
  \<open>None\<close>, like an index outside the pixel vector or a cast of a float that is out of
  range.
\<close>

section \<open>State\<close>

text \<open>
  The part of \<open>struct canvas\<close> that \<open>rasterize\<close> reads and writes; \<open>Canvas\<close>
  adds the history.
\<close>

record raster =
  width :: u32
  height :: u32
  background :: u32
  pixels :: "u32 list"

section \<open>Auxiliary loops and integers\<close>

text \<open>A loop over a list of values whose body may be undefined.\<close>

fun each :: "('a \<Rightarrow> 's \<Rightarrow> 's option) \<Rightarrow> 'a list \<Rightarrow> 's \<Rightarrow> 's option" where
  "each f [] s = Some s"
| "each f (x # xs) s = do { s \<leftarrow> f x s; each f xs s }"

definition i64 :: "int \<Rightarrow> int option" where
  "i64 z = (if - (2 ^ 63) \<le> z \<and> z < 2 ^ 63 then Some z else None)"

text \<open>\<open>static_cast<int>\<close> of a wider integer keeps the low 32 bits.\<close>

definition int_cast :: "int \<Rightarrow> int" where
  "int_cast z = sint (word_of_int z :: 32 word)"

definition to_float :: "int \<Rightarrow> rat" where "to_float z = fl32 (of_int z)"

definition to_double :: "int \<Rightarrow> rat" where "to_double z = fl64 (of_int z)"

section \<open>Blending\<close>

definition blend_channel :: "u8 \<Rightarrow> u8 \<Rightarrow> rat \<Rightarrow> u8 option" where
  "blend_channel dst src src_alpha =
     float_to_u8 (clamp
       (fl32 (fl32 (to_float (uint src) * src_alpha) +
              fl32 (to_float (uint dst) * fl32 (1 - src_alpha)))) 0 255)"

definition alpha_blend_over :: "u32 \<Rightarrow> u32 \<Rightarrow> rat \<Rightarrow> u32 option" where
  "alpha_blend_over dst_rgba src_rgba coverage =
     (let src_a = (ucast (drop_bit 24 src_rgba AND 0xFF) :: u8) in
      if src_a = 0 \<or> coverage \<le> 0 then Some dst_rgba
      else
        (let src_alpha = fl32 (fl32 (to_float (uint src_a) / 255) * clamp coverage 0 1);
             dst_r = (ucast (dst_rgba AND 0xFF) :: u8);
             dst_g = (ucast (drop_bit 8 dst_rgba AND 0xFF) :: u8);
             dst_b = (ucast (drop_bit 16 dst_rgba AND 0xFF) :: u8);
             dst_a = (ucast (drop_bit 24 dst_rgba AND 0xFF) :: u8);
             src_r = (ucast (src_rgba AND 0xFF) :: u8);
             src_g = (ucast (drop_bit 8 src_rgba AND 0xFF) :: u8);
             src_b = (ucast (drop_bit 16 src_rgba AND 0xFF) :: u8);
             dst_alpha = fl32 (to_float (uint dst_a) / 255);
             out_alpha = fl32 (src_alpha + fl32 (dst_alpha * fl32 (1 - src_alpha)))
         in do {
           out_r \<leftarrow> blend_channel dst_r src_r src_alpha;
           out_g \<leftarrow> blend_channel dst_g src_g src_alpha;
           out_b \<leftarrow> blend_channel dst_b src_b src_alpha;
           out_a \<leftarrow> float_to_u8 (clamp (fl32 (out_alpha * 255)) 0 255);
           Some (push_bit 24 (ucast out_a) OR push_bit 16 (ucast out_b) OR
                 push_bit 8 (ucast out_g) OR ucast out_r) }))"

definition blend_pixel :: "int \<Rightarrow> int \<Rightarrow> u32 \<Rightarrow> rat \<Rightarrow> raster \<Rightarrow> raster option" where
  "blend_pixel x y col coverage c =
     (if x < 0 \<or> y < 0 \<or> uint (width c) \<le> x \<or> uint (height c) \<le> y then Some c
      else
        (let i = nat y * unat (width c) + nat x in
         if i < length (pixels c) then do {
           v \<leftarrow> alpha_blend_over (pixels c ! i) col coverage;
           Some (c\<lparr>pixels := (pixels c)[i := v]\<rparr>) }
         else None))"

section \<open>The brush and lines\<close>

text \<open>The coverage of pixel \<open>(x, y)\<close> by a square or a round tip at \<open>(cx, cy)\<close>.\<close>

definition square_coverage :: "rat \<Rightarrow> rat \<Rightarrow> rat \<Rightarrow> int \<Rightarrow> int \<Rightarrow> rat" where
  "square_coverage radius cx cy x y =
     (let edge_x = fl32 (fl32 (radius + 1 / 2) - \<bar>fl32 (fl32 (to_float x + 1 / 2) - cx)\<bar>);
          edge_y = fl32 (fl32 (radius + 1 / 2) - \<bar>fl32 (fl32 (to_float y + 1 / 2) - cy)\<bar>)
      in clamp (min edge_x edge_y) 0 1)"

definition round_coverage :: "rat \<Rightarrow> rat \<Rightarrow> rat \<Rightarrow> int \<Rightarrow> int \<Rightarrow> rat" where
  "round_coverage radius cx cy x y =
     (let dx = fl32 (fl32 (to_float x + 1 / 2) - cx);
          dy = fl32 (fl32 (to_float y + 1 / 2) - cy);
          dist = sqrt32 (fl32 (fl32 (dx * dx) + fl32 (dy * dy)))
      in clamp (fl32 (fl32 (radius + 1 / 2) - dist)) 0 1)"

definition put :: "draw_operation \<Rightarrow> rat \<Rightarrow> rat \<Rightarrow> raster \<Rightarrow> raster option" where
  "put op cx cy c =
     (let radius = max (1 / 2) (fl32 (to_float (uint (thickness op)) * (1 / 2)));
          col = (if tool op = tool_eraser then background c else color op);
          square_tip = (tool op = tool_brush)
      in do {
        min_x \<leftarrow> float_to_int (of_int \<lfloor>fl32 (fl32 (cx - radius) - 1)\<rfloor>);
        max_x \<leftarrow> float_to_int (of_int \<lceil>fl32 (fl32 (cx + radius) + 1)\<rceil>);
        min_y \<leftarrow> float_to_int (of_int \<lfloor>fl32 (fl32 (cy - radius) - 1)\<rfloor>);
        max_y \<leftarrow> float_to_int (of_int \<lceil>fl32 (fl32 (cy + radius) + 1)\<rceil>);
        each (\<lambda>y. each (\<lambda>x c.
            let coverage = (if square_tip then square_coverage radius cx cy x y
                            else round_coverage radius cx cy x y)
            in if coverage > 0 then blend_pixel x y col coverage c else Some c)
          [min_x..max_x]) [min_y..max_y] c })"

definition line :: "draw_operation \<Rightarrow> rat \<Rightarrow> rat \<Rightarrow> rat \<Rightarrow> rat \<Rightarrow> raster \<Rightarrow> raster option" where
  "line op ax ay bx by c =
     (let dx = fl32 (bx - ax); dy = fl32 (by - ay);
          distance = sqrt32 (fl32 (fl32 (dx * dx) + fl32 (dy * dy)))
      in do {
        n \<leftarrow> float_to_int (of_int \<lceil>fl32 (distance * 2)\<rceil>);
        let steps = max 1 n;
        each (\<lambda>i. let t = fl32 (to_float i / to_float steps)
                  in put op (fl32 (ax + fl32 (dx * t))) (fl32 (ay + fl32 (dy * t))))
          [0..steps] c })"

text \<open>A canvas point in pixels; the cast of the quotient to \<open>int\<close> is modular.\<close>

definition scale :: "u16 \<Rightarrow> u32 \<Rightarrow> int" where
  "scale p extent =
     int_cast (uint ((ucast p * ucast (extent - 1) :: u64) div 65535))"

definition point :: "raster \<Rightarrow> canvas_point \<Rightarrow> int \<times> int" where
  "point c p = (scale (pt_x p) (width c), scale (pt_y p) (height c))"

fun segments :: "draw_operation \<Rightarrow> int \<Rightarrow> int \<Rightarrow> canvas_point list \<Rightarrow> raster \<Rightarrow> raster option" where
  "segments op x0 y0 [] c = Some c"
| "segments op x0 y0 (p # ps) c =
     (let (x, y) = point c p in do {
        c \<leftarrow> line op (to_float x0) (to_float y0) (to_float x) (to_float y) c;
        segments op x y ps c })"

section \<open>Shapes\<close>

definition filled_rect :: "draw_operation \<Rightarrow> int \<Rightarrow> int \<Rightarrow> int \<Rightarrow> int \<Rightarrow> raster \<Rightarrow> raster option" where
  "filled_rect op x0 y0 x1 y1 c =
     each (\<lambda>y. each (\<lambda>x. put op (to_float x) (to_float y)) [min x0 x1..max x0 x1])
       [min y0 y1..max y0 y1] c"

definition outline_rect :: "draw_operation \<Rightarrow> int \<Rightarrow> int \<Rightarrow> int \<Rightarrow> int \<Rightarrow> raster \<Rightarrow> raster option" where
  "outline_rect op x0 y0 x1 y1 c = do {
     c \<leftarrow> line op (to_float x0) (to_float y0) (to_float x1) (to_float y0) c;
     c \<leftarrow> line op (to_float x1) (to_float y0) (to_float x1) (to_float y1) c;
     c \<leftarrow> line op (to_float x1) (to_float y1) (to_float x0) (to_float y1) c;
     line op (to_float x0) (to_float y1) (to_float x0) (to_float y0) c }"

definition filled_ellipse :: "draw_operation \<Rightarrow> int \<Rightarrow> int \<Rightarrow> int \<Rightarrow> int \<Rightarrow> raster \<Rightarrow> raster option" where
  "filled_ellipse op cx cy rx ry c =
     each (\<lambda>y c. do {
         span \<leftarrow> float_to_int (fl64 (to_double rx * sqrt64 (max 0
           (fl64 (1 - fl64 (fl64 (to_double y * to_double y) / fl64 (to_double ry * to_double ry)))))));
         each (\<lambda>x c. do {
             px \<leftarrow> i32 (cx + x);
             py \<leftarrow> i32 (cy + y);
             put op (to_float px) (to_float py) c })
           [- span..span] c })
       [- ry..ry] c"

text \<open>The four points of the outline that a point of the first quadrant stands for.\<close>

definition put4 :: "draw_operation \<Rightarrow> int \<Rightarrow> int \<Rightarrow> int \<Rightarrow> int \<Rightarrow> raster \<Rightarrow> raster option" where
  "put4 op cx cy x y c = do {
     right \<leftarrow> i32 (cx + int_cast x);
     left \<leftarrow> i32 (cx - int_cast x);
     down \<leftarrow> i32 (cy + int_cast y);
     up \<leftarrow> i32 (cy - int_cast y);
     c \<leftarrow> put op (to_float right) (to_float down) c;
     c \<leftarrow> put op (to_float left) (to_float down) c;
     c \<leftarrow> put op (to_float left) (to_float up) c;
     put op (to_float right) (to_float up) c }"

text \<open>
  The midpoint algorithm: \<open>while (px < py)\<close>, then \<open>while (y >= 0)\<close>. The first loop has
  no measure of its own (it needs \<open>ry2 > 0\<close>), so it is a partial function: not returning
  is \<open>None\<close> too.
\<close>

partial_function (option) ellipse_upper ::
  "draw_operation \<Rightarrow> int \<Rightarrow> int \<Rightarrow> int \<Rightarrow> int \<Rightarrow> int \<Rightarrow> int \<Rightarrow> int \<Rightarrow> int \<Rightarrow> rat \<Rightarrow> raster \<Rightarrow>
    (int \<times> int \<times> int \<times> int \<times> raster) option"
where
  "ellipse_upper op cx cy rx2 ry2 x y px py decision c =
     (if px < py then do {
        c \<leftarrow> put4 op cx cy x y c;
        px \<leftarrow> i64 (px + 2 * ry2);
        if decision < 0 then do {
          d \<leftarrow> i64 (ry2 + px);
          ellipse_upper op cx cy rx2 ry2 (x + 1) y px py (fl64 (decision + to_double d)) c }
        else do {
          py \<leftarrow> i64 (py - 2 * rx2);
          d \<leftarrow> i64 (ry2 + px - py);
          ellipse_upper op cx cy rx2 ry2 (x + 1) (y - 1) px py (fl64 (decision + to_double d)) c } }
      else Some (x, y, px, py, c))"

function ellipse_lower ::
  "draw_operation \<Rightarrow> int \<Rightarrow> int \<Rightarrow> int \<Rightarrow> int \<Rightarrow> int \<Rightarrow> int \<Rightarrow> int \<Rightarrow> int \<Rightarrow> rat \<Rightarrow> raster \<Rightarrow> raster option"
where
  "ellipse_lower op cx cy rx2 ry2 x y px py decision c =
     (if 0 \<le> y then do {
        c \<leftarrow> put4 op cx cy x y c;
        py \<leftarrow> i64 (py - 2 * rx2);
        if decision > 0 then do {
          d \<leftarrow> i64 (rx2 - py);
          ellipse_lower op cx cy rx2 ry2 x (y - 1) px py (fl64 (decision + to_double d)) c }
        else do {
          px \<leftarrow> i64 (px + 2 * ry2);
          d \<leftarrow> i64 (rx2 - py + px);
          ellipse_lower op cx cy rx2 ry2 (x + 1) (y - 1) px py (fl64 (decision + to_double d)) c } }
      else Some c)"
  by pat_completeness auto
termination
  by (relation "measure (\<lambda>(op, cx, cy, rx2, ry2, x, y, px, py, decision, c). nat (y + 1))") auto

declare ellipse_lower.simps [simp del] ellipse_upper.simps [code]

definition outline_ellipse :: "draw_operation \<Rightarrow> int \<Rightarrow> int \<Rightarrow> int \<Rightarrow> int \<Rightarrow> raster \<Rightarrow> raster option" where
  "outline_ellipse op cx cy rx ry c = do {
     rx2 \<leftarrow> i64 (rx * rx);
     ry2 \<leftarrow> i64 (ry * ry);
     py \<leftarrow> i64 (2 * rx2 * ry);
     d0 \<leftarrow> i64 (ry2 - rx2 * ry);
     (x, y, px, py, c) \<leftarrow>
       ellipse_upper op cx cy rx2 ry2 0 ry 0 py (fl64 (to_double d0 + fl64 (1 / 4 * to_double rx2))) c;
     square \<leftarrow> i64 ((y - 1) * (y - 1));
     area \<leftarrow> i64 (rx2 * ry2);
     let half = fl64 (to_double x + 1 / 2);
     let decision = fl64 (fl64 (fl64 (fl64 (to_double ry2 * half) * half) +
         fl64 (to_double rx2 * to_double square)) - to_double area);
     ellipse_lower op cx cy rx2 ry2 x y px py decision c }"

definition ellipse :: "draw_operation \<Rightarrow> int \<Rightarrow> int \<Rightarrow> int \<Rightarrow> int \<Rightarrow> raster \<Rightarrow> raster option" where
  "ellipse op x0 y0 x1 y1 c =
     (let left = min x0 x1; right = max x0 x1; top = min y0 y1; bottom = max y0 y1 in do {
        sum_x \<leftarrow> i32 (left + right);
        sum_y \<leftarrow> i32 (top + bottom);
        span_x \<leftarrow> i32 (right - left);
        span_y \<leftarrow> i32 (bottom - top);
        let cx = sum_x sdiv 2;
        let cy = sum_y sdiv 2;
        let rx = max 1 (span_x sdiv 2);
        let ry = max 1 (span_y sdiv 2);
        if tool op = tool_filled_ellipse then filled_ellipse op cx cy rx ry c
        else outline_ellipse op cx cy rx ry c })"

section \<open>Bucket fill\<close>

definition pixel_index :: "raster \<Rightarrow> int \<Rightarrow> int \<Rightarrow> nat" where
  "pixel_index c x y = nat (((y mod 2 ^ 64) * uint (width c) + x) mod 2 ^ 64)"

definition try_fill ::
  "u32 \<Rightarrow> u32 \<Rightarrow> int \<Rightarrow> int \<Rightarrow> raster \<times> (int \<times> int) list \<Rightarrow> (raster \<times> (int \<times> int) list) option"
where
  "try_fill target col nx ny = (\<lambda>(c, q).
     if 0 \<le> nx \<and> 0 \<le> ny \<and> nx < uint (width c) \<and> ny < uint (height c) then
       (let i = pixel_index c nx ny in
        if i < length (pixels c) then
          (if pixels c ! i = target then Some (c\<lparr>pixels := (pixels c)[i := col]\<rparr>, q @ [(nx, ny)])
           else Some (c, q))
        else None)
     else Some (c, q))"

partial_function (option) fill_loop ::
  "u32 \<Rightarrow> u32 \<Rightarrow> raster \<times> (int \<times> int) list \<Rightarrow> raster option"
where
  "fill_loop target col cq =
     (case cq of
        (c, []) \<Rightarrow> Some c
      | (c, (x, y) # q) \<Rightarrow> do {
          right \<leftarrow> i32 (x + 1);
          cq \<leftarrow> try_fill target col right y (c, q);
          left \<leftarrow> i32 (x - 1);
          cq \<leftarrow> try_fill target col left y cq;
          down \<leftarrow> i32 (y + 1);
          cq \<leftarrow> try_fill target col x down cq;
          up \<leftarrow> i32 (y - 1);
          cq \<leftarrow> try_fill target col x up cq;
          fill_loop target col cq })"

declare fill_loop.simps [code]

definition bucket_fill :: "draw_operation \<Rightarrow> int \<Rightarrow> int \<Rightarrow> raster \<Rightarrow> raster option" where
  "bucket_fill op fx fy c =
     (if uint (width c) \<le> fx mod 2 ^ 32 \<or> uint (height c) \<le> fy mod 2 ^ 32 then Some c
      else
        (let i = pixel_index c fx fy in
         if i < length (pixels c) then
           (let target = pixels c ! i in
            if target = color op then Some c
            else fill_loop target (color op)
              (c\<lparr>pixels := (pixels c)[i := color op]\<rparr>, [(fx, fy)]))
         else None))"

section \<open>Rasterizing an operation\<close>

definition rasterize :: "draw_operation \<Rightarrow> raster \<Rightarrow> raster option" where
  "rasterize op c =
     (if tool op = tool_clear then
        Some (c\<lparr>pixels := replicate (length (pixels c)) (background c)\<rparr>)
      else if width c = 0 \<or> height c = 0 \<or> points op = [] then Some c
      else
        (let (x0, y0) = point c (hd (points op)); (x1, y1) = point c (last (points op)) in
         if tool op \<in> {tool_freehand, tool_eraser, tool_brush, tool_line} then
           segments op x0 y0
             (drop (if tool op = tool_line then length (points op) - 1 else 1) (points op)) c
         else if tool op = tool_filled_rect then filled_rect op x0 y0 x1 y1 c
         else if tool op = tool_rect then outline_rect op x0 y0 x1 y1 c
         else if (tool op = tool_ellipse \<or> tool op = tool_filled_ellipse) \<and> length (points op) > 1
         then ellipse op x0 y0 x1 y1 c
         else if tool op = tool_bucket_fill then bucket_fill op x0 y0 c
         else Some c))"

end
