(* ===== verification/Raster_Lemmas.thy ===== *)
theory Raster_Lemmas
  imports Raster
begin

text \<open>
  The rasterizer never leaves its buffers: on a canvas whose pixel vector has the size of its
  extents, of at most 65536 by 65536 pixels, every tool returns, touches only the pixels and keeps
  their number. And the exact results that do not depend on rounding: opaque colours.
\<close>

section \<open>Frames of a drawing step\<close>

definition framed :: "raster \<Rightarrow> raster \<Rightarrow> bool" where
  "framed c c' \<longleftrightarrow> (\<exists>ps. c' = c\<lparr>pixels := ps\<rparr> \<and> length ps = length (pixels c))"

definition raster_ok :: "raster \<Rightarrow> bool" where
  "raster_ok c \<longleftrightarrow> length (pixels c) = unat (width c) * unat (height c) \<and>
     unat (width c) \<le> 65536 \<and> unat (height c) \<le> 65536"

definition drawn :: "raster \<Rightarrow> raster option \<Rightarrow> bool" where
  "drawn c r \<longleftrightarrow> (\<exists>c'. r = Some c' \<and> framed c c')"

named_theorems drawn_intros \<open>drawing steps are framed\<close>

lemma framed_refl [simp]: "framed c c"
  by (auto simp: framed_def intro: exI [of _ "pixels c"])

lemma framed_trans: "framed c c' \<Longrightarrow> framed c' c'' \<Longrightarrow> framed c c''"
  by (auto simp: framed_def)

lemma framed_update [simp]: "length ps = length (pixels c) \<Longrightarrow> framed c (c\<lparr>pixels := ps\<rparr>)"
  by (auto simp: framed_def)

lemma framed_sel:
  assumes "framed c c'"
  shows "width c' = width c" "height c' = height c" "background c' = background c"
    "length (pixels c') = length (pixels c)"
  using assms by (auto simp: framed_def)

lemma framed_raster_ok: "framed c c' \<Longrightarrow> raster_ok c \<Longrightarrow> raster_ok c'"
  by (simp add: raster_ok_def framed_sel)

lemma drawn_Some [simp]: "drawn c (Some c') \<longleftrightarrow> framed c c'"
  by (simp add: drawn_def)

lemma drawn_bind:
  assumes "drawn c r" and "\<And>c'. framed c c' \<Longrightarrow> drawn c' (f c')"
  shows "drawn c (Option.bind r f)"
  using assms framed_trans unfolding drawn_def by fastforce

lemma drawn_each:
  assumes "\<And>x c'. x \<in> set xs \<Longrightarrow> framed c c' \<Longrightarrow> drawn c' (f x c')"
  shows "drawn c (each f xs c)"
  using assms
proof (induction xs arbitrary: c)
  case Nil
  then show ?case by simp
next
  case (Cons x xs)
  show ?case
    unfolding each.simps
  proof (rule drawn_bind)
    show "drawn c (f x c)" using Cons.prems by simp
    fix c'
    assume c': "framed c c'"
    show "drawn c' (each f xs c')"
      by (rule Cons.IH) (use Cons.prems c' in \<open>auto intro: framed_trans\<close>)
  qed
qed

section \<open>Blending\<close>

lemma blend_channel_total: "\<exists>b. blend_channel dst src a = Some b"
  by (simp add: blend_channel_def float_to_u8_clamp)

lemma alpha_blend_total: "\<exists>v. alpha_blend_over dst src cov = Some v"
proof (cases "(ucast (drop_bit 24 src AND 0xFF) :: u8) = 0 \<or> cov \<le> 0")
  case True
  then show ?thesis by (simp add: alpha_blend_over_def)
next
  case False
  then show ?thesis
    unfolding alpha_blend_over_def Let_def if_not_P [OF False]
    by (intro bind_totalI blend_channel_total float_to_u8_clamp) simp
qed

lemma blend_pixel_drawn:
  assumes "raster_ok c"
  shows "drawn c (blend_pixel x y col cov c)"
proof (cases "x < 0 \<or> y < 0 \<or> uint (width c) \<le> x \<or> uint (height c) \<le> y")
  case True
  then show ?thesis by (simp add: blend_pixel_def)
next
  case False
  have "nat y * unat (width c) + nat x < unat (width c) * unat (height c)"
  proof -
    have "nat x < unat (width c)" "nat y < unat (height c)"
      using False nat_less_eq_zless [of x "uint (width c)"] nat_less_eq_zless [of y "uint (height c)"]
      by auto
    then have "nat y * unat (width c) + nat x < (nat y + 1) * unat (width c)" by simp
    also have "\<dots> \<le> unat (height c) * unat (width c)"
      using \<open>nat y < unat (height c)\<close> by (intro mult_le_mono1) simp
    finally show ?thesis by (simp add: mult.commute)
  qed
  moreover obtain v where "alpha_blend_over (pixels c ! (nat y * unat (width c) + nat x)) col cov = Some v"
    using alpha_blend_total by blast
  ultimately show ?thesis
    using False assms by (simp add: blend_pixel_def raster_ok_def Let_def)
qed

section \<open>The brush\<close>

lemma to_float_bound: "\<bar>to_float z\<bar> \<le> 17 / 16 * of_int \<bar>z\<bar> + 1"
  using fl_bound(1) [of "of_int z"] by (simp add: to_float_def)

lemma to_float_small: "\<bar>z\<bar> < 2 ^ 24 \<Longrightarrow> to_float z = of_int z"
  by (simp add: to_float_def fl_of_int)

lemma float_to_int_floor:
  fixes v :: rat
  assumes "\<bar>v\<bar> < 2 ^ 31 - 1"
  shows "float_to_int (of_int \<lfloor>v\<rfloor>) = Some \<lfloor>v\<rfloor>" and "float_to_int (of_int \<lceil>v\<rceil>) = Some \<lceil>v\<rceil>"
proof -
  have "v - 1 < of_int \<lfloor>v\<rfloor>" "of_int \<lfloor>v\<rfloor> \<le> v" "v \<le> of_int \<lceil>v\<rceil>" "of_int \<lceil>v\<rceil> < v + 1"
    by linarith+
  moreover have "- 2147483647 < v" "v < 2147483647" using assms by auto
  ultimately have "\<bar>of_int \<lfloor>v\<rfloor> :: rat\<bar> < 2147483648" "\<bar>of_int \<lceil>v\<rceil> :: rat\<bar> < 2147483648"
    by linarith+
  then show "float_to_int (of_int \<lfloor>v\<rfloor>) = Some \<lfloor>v\<rfloor>" "float_to_int (of_int \<lceil>v\<rceil>) = Some \<lceil>v\<rceil>"
    by (simp_all add: float_to_int_defined)
qed

definition on_screen :: "rat \<Rightarrow> bool" where
  "on_screen v \<longleftrightarrow> \<bar>v\<bar> \<le> 1342177280"

lemma brush_radius:
  fixes t :: u8
  defines "radius \<equiv> max (1 / 2) (fl32 (to_float (uint t) * (1 / 2)))"
  shows "0 < radius" and "radius \<le> 256"
proof -
  have "uint t < 256" using uint_lt2p [of t] by simp
  then have "of_int \<bar>uint t\<bar> \<le> (of_int 255 :: rat)" unfolding of_int_le_iff by simp
  then have "\<bar>to_float (uint t) * (1 / 2)\<bar> \<le> 180" using to_float_bound [of "uint t"] by linarith
  then have "\<bar>fl32 (to_float (uint t) * (1 / 2))\<bar> \<le> 256" by (rule fl_le) simp
  then show "0 < radius" "radius \<le> 256" unfolding radius_def by (simp_all add: abs_le_iff)
qed

lemma brush_box:
  assumes "on_screen v" and "\<bar>r\<bar> \<le> 256" and "\<bar>s\<bar> = 1"
  shows "\<bar>fl32 (fl32 (v + r) + s)\<bar> < 2 ^ 31 - 1"
proof -
  have "\<bar>v + r\<bar> \<le> 1342177536" using assms unfolding on_screen_def by linarith
  then have "\<bar>fl32 (v + r)\<bar> \<le> 1426063634" by (rule fl_le) simp
  then have "\<bar>fl32 (v + r) + s\<bar> \<le> 1426063635" using assms(3) by linarith
  then have "\<bar>fl32 (fl32 (v + r) + s)\<bar> \<le> 1515192614" by (rule fl_le) simp
  then show ?thesis by simp
qed

lemma put_drawn [drawn_intros]:
  assumes "raster_ok c" and "on_screen cx" and "on_screen cy"
  shows "drawn c (put op cx cy c)"
proof -
  define radius where "radius = max (1 / 2) (fl32 (to_float (uint (thickness op)) * (1 / 2)))"
  have r: "\<bar>radius\<bar> \<le> 256" "\<bar>- radius\<bar> \<le> 256"
    using brush_radius [of "thickness op"] by (simp_all add: radius_def)
  note x = brush_box [OF assms(2) r(2), of "-1"] brush_box [OF assms(2) r(1), of 1]
  note y = brush_box [OF assms(3) r(2), of "-1"] brush_box [OF assms(3) r(1), of 1]
  have *: "drawn c' (if 0 < cov then blend_pixel x y col cov c' else Some c')"
    if "framed c c'" for cov x y col c'
    using blend_pixel_drawn [OF framed_raster_ok [OF that assms(1)]] by simp
  show ?thesis
    unfolding put_def Let_def radius_def [symmetric]
    using x y by (simp only: diff_conv_add_uminus float_to_int_floor Option.bind_eq_Some_conv Option.bind.bind_lunit)
      (intro drawn_each * , blast intro: framed_trans)
qed

section \<open>Lines\<close>

lemma line_drawn [drawn_intros]:
  assumes c: "raster_ok c"
    and "\<bar>ax\<bar> \<le> 131072" "\<bar>ay\<bar> \<le> 131072" "\<bar>bx\<bar> \<le> 131072" "\<bar>by\<bar> \<le> 131072"
  shows "drawn c (line op ax ay bx by c)"
proof -
  define dx dy where "dx = fl32 (bx - ax)" and "dy = fl32 (by - ay)"
  have d: "\<bar>dx\<bar> \<le> 300000" "\<bar>dy\<bar> \<le> 300000"
  proof -
    have "\<bar>bx - ax\<bar> \<le> 262144" "\<bar>by - ay\<bar> \<le> 262144" using assms(2-5) by linarith+
    then show "\<bar>dx\<bar> \<le> 300000" "\<bar>dy\<bar> \<le> 300000" unfolding dx_def dy_def by (auto intro: fl_le)
  qed
  have sq: "0 \<le> dx * dx" "0 \<le> dy * dy" "dx * dx \<le> 300000 * 300000" "dy * dy \<le> 300000 * 300000"
    using mult_mono [of "\<bar>dx\<bar>" 300000 "\<bar>dx\<bar>" 300000] mult_mono [of "\<bar>dy\<bar>" 300000 "\<bar>dy\<bar>" 300000] d
    by simp_all
  define s where "s = fl32 (fl32 (dx * dx) + fl32 (dy * dy))"
  have "\<bar>fl32 (dx * dx)\<bar> \<le> 96000000000" "\<bar>fl32 (dy * dy)\<bar> \<le> 96000000000"
    using fl_bound(1) [of "dx * dx"] fl_bound(1) [of "dy * dy"] sq by linarith+
  then have "\<bar>fl32 (dx * dx) + fl32 (dy * dy)\<bar> \<le> 192000000000" by linarith
  then have s: "\<bar>s\<bar> \<le> 204000000001" unfolding s_def by (rule fl_le) simp
  have dist: "0 \<le> sqrt32 s" "sqrt32 s \<le> 2000000"
  proof -
    show "sqrt32 s \<le> 2000000"
    proof (cases "0 \<le> s")
      case True
      with s sqrt_bound(1) [of s 1000000] show ?thesis by simp
    next
      case False
      then show ?thesis by (simp add: sqrt32_def sqrt_to_def)
    qed
  qed simp
  then have "\<bar>fl32 (sqrt32 s * 2)\<bar> \<le> 4250001" using fl_bound(1) [of "sqrt32 s * 2"] by linarith
  then have cast: "float_to_int (of_int \<lceil>fl32 (sqrt32 s * 2)\<rceil>) = Some \<lceil>fl32 (sqrt32 s * 2)\<rceil>"
    by (intro float_to_int_floor) simp
  define steps where "steps = max 1 \<lceil>fl32 (sqrt32 s * 2)\<rceil>"
  have steps: "1 \<le> steps" "steps < 2 ^ 24"
    using \<open>\<bar>fl32 (sqrt32 s * 2)\<bar> \<le> 4250001\<close> unfolding steps_def by (simp_all add: ceiling_less_iff)
  have put: "on_screen (fl32 (a + fl32 (e * fl32 (to_float i / to_float steps))))"
    if "i \<in> set [0..steps]" "\<bar>a\<bar> \<le> 131072" "\<bar>e\<bar> \<le> 300000" for i a e
  proof -
    have "to_float i = of_int i" "to_float steps = of_int steps"
      using that(1) steps by (auto intro!: to_float_small)
    moreover have "\<bar>of_int i / of_int steps :: rat\<bar> \<le> 1"
      using that(1) steps by (simp add: divide_le_eq)
    ultimately have "\<bar>fl32 (to_float i / to_float steps)\<bar> \<le> 3"
      using fl_bound(1) [of "to_float i / to_float steps"] by simp
    then have "\<bar>e * fl32 (to_float i / to_float steps)\<bar> \<le> 300000 * 3"
      unfolding abs_mult using that(3) by (intro mult_mono) auto
    then have "\<bar>fl32 (e * fl32 (to_float i / to_float steps))\<bar> \<le> 960000"
      using fl_bound(1) [of "e * fl32 (to_float i / to_float steps)"] by linarith
    then have "\<bar>a + fl32 (e * fl32 (to_float i / to_float steps))\<bar> \<le> 2000000"
      using that(2) by linarith
    then show ?thesis unfolding on_screen_def by (rule fl_le) simp
  qed
  have "drawn c (each (\<lambda>i. put op (fl32 (ax + fl32 (dx * fl32 (to_float i / to_float steps))))
      (fl32 (ay + fl32 (dy * fl32 (to_float i / to_float steps))))) [0..steps] c)"
    by (intro drawn_each put_drawn put framed_raster_ok [OF _ c]) (use assms d in auto)
  then show ?thesis
    unfolding line_def Let_def dx_def [symmetric] dy_def [symmetric] s_def [symmetric]
    by (simp add: cast steps_def)
qed

section \<open>Coordinates\<close>

definition coord :: "int \<Rightarrow> bool" where
  "coord v \<longleftrightarrow> 0 \<le> v \<and> v \<le> 65535"

lemma int_cast_small: "- (2 ^ 31) \<le> z \<Longrightarrow> z < 2 ^ 31 \<Longrightarrow> int_cast z = z"
  by (simp add: int_cast_def signed_of_int signed_take_bit_int_eq_self)

lemma scale_eq:
  assumes "w \<noteq> 0" and "unat w \<le> 65536"
  shows "scale p w = uint p * (uint w - 1) div 65535"
    and "0 \<le> scale p w" and "scale p w < uint w"
proof -
  have w: "0 < uint w" "uint w \<le> 65536"
    using assms uint_nat [of w] unat_eq_zero [of w] by linarith+
  have p: "0 \<le> uint p" "uint p \<le> 65535" using uint_lt2p [of p] by simp_all
  have w1: "uint (w - 1) = uint w - 1"
    using w(1) uint_sub_lem [of 1 w] by simp
  have le: "uint p * (uint w - 1) \<le> 65535 * 65535" using p w by (intro mult_mono) auto
  have "uint ((ucast p * ucast (w - 1) :: u64) div 65535) = uint p * (uint w - 1) div 65535"
  proof -
    have "uint (ucast p :: u64) = uint p" "uint (ucast (w - 1) :: u64) = uint w - 1"
      using w1 by (simp_all add: uint_up_ucast is_up)
    then have "uint (ucast p * ucast (w - 1) :: u64) = uint p * (uint w - 1)"
      using le p w by (simp add: uint_word_ariths)
    then show ?thesis by (simp add: uint_div)
  qed
  moreover have "uint p * (uint w - 1) div 65535 \<le> uint w - 1"
  proof -
    have "uint p * (uint w - 1) \<le> 65535 * (uint w - 1)" using p w by (intro mult_right_mono) auto
    from zdiv_mono1 [OF this, of 65535] show ?thesis by simp
  qed
  moreover have "0 \<le> uint p * (uint w - 1) div 65535"
    using p w by (simp add: pos_imp_zdiv_nonneg_iff)
  ultimately show "scale p w = uint p * (uint w - 1) div 65535" "0 \<le> scale p w" "scale p w < uint w"
    using w by (simp_all add: scale_def int_cast_small)
qed

lemma point_coord:
  assumes "raster_ok c" and "width c \<noteq> 0" and "height c \<noteq> 0" and "point c p = (x, y)"
  shows "coord x" and "coord y" and "x < uint (width c)" and "y < uint (height c)"
proof -
  have unat: "unat (width c) \<le> 65536" "unat (height c) \<le> 65536"
    using assms(1) by (simp_all add: raster_ok_def)
  have le: "uint (width c) \<le> 65536" "uint (height c) \<le> 65536"
    using unat uint_nat [of "width c"] uint_nat [of "height c"] by linarith+
  have xy: "x = scale (pt_x p) (width c)" "y = scale (pt_y p) (height c)"
    using assms(4) by (simp_all add: point_def)
  note sx = scale_eq(2,3) [OF assms(2) unat(1), of "pt_x p", folded xy(1)]
    and sy = scale_eq(2,3) [OF assms(3) unat(2), of "pt_y p", folded xy(2)]
  show "x < uint (width c)" by (rule sx(2))
  show "y < uint (height c)" by (rule sy(2))
  show "coord x" using sx le unfolding coord_def by linarith
  show "coord y" using sy le unfolding coord_def by linarith
qed

lemma coord_float:
  assumes "coord v"
  shows "\<bar>to_float v\<bar> \<le> 131072" and "on_screen (to_float v)"
  using assms by (simp_all add: coord_def to_float_small on_screen_def)

lemma on_screen_int:
  assumes "\<bar>z\<bar> \<le> 1074790400"
  shows "on_screen (to_float z)"
proof -
  have "(of_int \<bar>z\<bar> :: rat) \<le> of_int 1074790400" using assms unfolding of_int_le_iff .
  then have "\<bar>of_int z\<bar> \<le> (1074790400 :: rat)" by simp
  then show ?thesis unfolding on_screen_def to_float_def by (rule fl_le) simp
qed

section \<open>Strokes and shapes\<close>

lemma segments_drawn [drawn_intros]:
  assumes "raster_ok c" and "width c \<noteq> 0" and "height c \<noteq> 0" and "coord x0" and "coord y0"
  shows "drawn c (segments op x0 y0 ps c)"
  using assms
proof (induction ps arbitrary: x0 y0 c)
  case Nil
  then show ?case by simp
next
  case (Cons p ps)
  obtain x y where xy: "point c p = (x, y)" by (cases "point c p")
  note coords = point_coord [OF Cons.prems(1-3) xy]
  show ?case
    unfolding segments.simps xy Let_def prod.case
  proof (rule drawn_bind)
    show "drawn c (line op (to_float x0) (to_float y0) (to_float x) (to_float y) c)"
      using Cons.prems coords by (intro line_drawn coord_float)
    fix c'
    assume "framed c c'"
    then show "drawn c' (segments op x y ps c')"
      using Cons.prems coords by (intro Cons.IH) (simp_all add: framed_raster_ok framed_sel)
  qed
qed

lemma filled_rect_drawn:
  assumes "raster_ok c" and "coord x0" and "coord y0" and "coord x1" and "coord y1"
  shows "drawn c (filled_rect op x0 y0 x1 y1 c)"
  unfolding filled_rect_def
  by (intro drawn_each put_drawn coord_float framed_raster_ok [OF _ assms(1)])
    (use assms in \<open>auto simp: coord_def intro: framed_trans\<close>)

lemma outline_rect_drawn:
  assumes "raster_ok c" and "coord x0" and "coord y0" and "coord x1" and "coord y1"
  shows "drawn c (outline_rect op x0 y0 x1 y1 c)"
  unfolding outline_rect_def
  by (intro drawn_bind line_drawn coord_float)
    (use assms in \<open>auto intro: framed_raster_ok framed_trans\<close>)

lemma put4_drawn:
  assumes "raster_ok c" and "coord cx" and "coord cy" and "0 \<le> x" "x \<le> 1073774593"
    and "0 \<le> y" "y \<le> 65536"
  shows "drawn c (put4 op cx cy x y c)"
proof -
  have i32: "i32 (cx + int_cast x) = Some (cx + x)" "i32 (cx - int_cast x) = Some (cx - x)"
    "i32 (cy + int_cast y) = Some (cy + y)" "i32 (cy - int_cast y) = Some (cy - y)"
    using assms by (simp_all add: int_cast_small i32_def coord_def)
  show ?thesis
    unfolding put4_def i32 Option.bind.bind_lunit
    by (intro drawn_bind put_drawn on_screen_int)
      (use assms in \<open>auto simp: coord_def intro: framed_raster_ok framed_trans\<close>)
qed

lemma filled_ellipse_drawn:
  assumes c: "raster_ok c" and "coord cx" and "coord cy" and rx: "1 \<le> rx" "rx \<le> 32768"
    and ry: "1 \<le> ry" "ry \<le> 32768"
  shows "drawn c (filled_ellipse op cx cy rx ry c)"
  unfolding filled_ellipse_def
proof (rule drawn_each)
  fix y c'
  assume y: "y \<in> set [- ry..ry]" and c': "framed c c'"
  define q where "q = fl64 (fl64 (to_double y * to_double y) / fl64 (to_double ry * to_double ry))"
  define v where "v = to_double rx * sqrt64 (max 0 (fl64 (1 - q)))"
  have ab: "\<bar>y\<bar> \<le> ry" using y by auto
  have sq: "\<bar>y * y\<bar> < 2 ^ 53" "\<bar>ry * ry\<bar> < 2 ^ 53" "y * y \<le> ry * ry" "0 < ry * ry"
  proof -
    have "\<bar>y\<bar> * \<bar>y\<bar> \<le> ry * ry" "ry * ry \<le> 32768 * 32768" using ab ry by (intro mult_mono; simp)+
    then show "\<bar>y * y\<bar> < 2 ^ 53" "\<bar>ry * ry\<bar> < 2 ^ 53" "y * y \<le> ry * ry" "0 < ry * ry"
      using ry by (simp_all add: abs_mult)
  qed
  have doubles: "to_double y = of_int y" "to_double ry = of_int ry" "to_double rx = of_int rx"
    using ab ry rx by (simp_all add: to_double_def fl_of_int(2))
  have "fl64 (to_double y * to_double y) = of_int (y * y)" "fl64 (to_double ry * to_double ry) = of_int (ry * ry)"
    using fl_of_int(2) [OF sq(1)] fl_of_int(2) [OF sq(2)] doubles by simp_all
  moreover have "of_int (y * y) / of_int (ry * ry) \<le> (1 :: rat)"
    using sq(3,4) by (simp only: divide_le_eq of_int_0_less_iff if_True mult_1 of_int_le_iff)
  moreover have "(0 :: rat) \<le> of_int (y * y) / of_int (ry * ry)" using sq(4) by simp
  ultimately have "\<bar>fl64 (to_double y * to_double y) / fl64 (to_double ry * to_double ry)\<bar> \<le> 1" by simp
  then have "\<bar>q\<bar> \<le> 3" unfolding q_def by (rule fl_le) simp
  then have "\<bar>1 - q\<bar> \<le> 4" by linarith
  then have "\<bar>fl64 (1 - q)\<bar> \<le> 6" by (rule fl_le) simp
  then have "sqrt64 (max 0 (fl64 (1 - q))) \<le> 6"
    using sqrt_bound(2) [of "max 0 (fl64 (1 - q))" 3] by simp
  moreover have "0 \<le> sqrt64 (max 0 (fl64 (1 - q)))" by simp
  moreover have "(of_int rx :: rat) \<le> of_int 32768" using rx unfolding of_int_le_iff by simp
  ultimately have "of_int rx * sqrt64 (max 0 (fl64 (1 - q))) \<le> 32768 * 6"
    using rx by (intro mult_mono) simp_all
  moreover have "0 \<le> of_int rx * sqrt64 (max 0 (fl64 (1 - q)))"
    using rx by (intro mult_nonneg_nonneg) simp_all
  ultimately have "of_int rx * sqrt64 (max 0 (fl64 (1 - q))) \<le> 32768 * 6"
    "0 \<le> of_int rx * sqrt64 (max 0 (fl64 (1 - q)))" .
  then have "\<bar>v\<bar> \<le> 196608" by (simp add: v_def doubles)
  then have v: "\<bar>fl64 v\<bar> \<le> 300000" by (rule fl_le) simp
  then have cast: "float_to_int (fl64 v) = Some (trunc (fl64 v))" by (intro float_to_int_defined) simp
  have "(of_int \<bar>trunc (fl64 v)\<bar> :: rat) \<le> of_int 300000" using trunc_abs [of "fl64 v"] v by simp
  then have span: "\<bar>trunc (fl64 v)\<bar> \<le> 300000" unfolding of_int_le_iff .
  have "drawn c' (each (\<lambda>x c. do { px \<leftarrow> i32 (cx + x); py \<leftarrow> i32 (cy + y); put op (to_float px) (to_float py) c })
      [- trunc (fl64 v)..trunc (fl64 v)] c')"
  proof (rule drawn_each)
    fix x c''
    assume x: "x \<in> set [- trunc (fl64 v)..trunc (fl64 v)]" and c'': "framed c' c''"
    then have "\<bar>x\<bar> \<le> 300000" using span by auto
    then have "\<bar>cx + x\<bar> \<le> 1074790400" "\<bar>cy + y\<bar> \<le> 1074790400"
      using assms(2,3) ab ry unfolding coord_def by linarith+
    then show "drawn c'' (do { px \<leftarrow> i32 (cx + x); py \<leftarrow> i32 (cy + y); put op (to_float px) (to_float py) c'' })"
      using framed_raster_ok [OF framed_trans [OF c' c''] c]
      by (simp add: i32_def put_drawn on_screen_int abs_le_iff)
  qed
  with cast show "drawn c' (do {
      span \<leftarrow> float_to_int (fl64 (to_double rx * sqrt64 (max 0
        (fl64 (1 - fl64 (fl64 (to_double y * to_double y) / fl64 (to_double ry * to_double ry)))))));
      each (\<lambda>x c. do { px \<leftarrow> i32 (cx + x); py \<leftarrow> i32 (cy + y); put op (to_float px) (to_float py) c })
        [- span..span] c' })"
    by (simp add: q_def [symmetric] v_def [symmetric])
qed

section \<open>The midpoint loops\<close>

text \<open>Half axes of at most 32768 pixels and the coefficients made of them.\<close>

definition half_axes :: "int \<Rightarrow> int \<Rightarrow> bool" where
  "half_axes rx ry \<longleftrightarrow> 1 \<le> rx \<and> rx \<le> 32768 \<and> 1 \<le> ry \<and> ry \<le> 32768"

lemma half_axes_squares:
  assumes "half_axes rx ry"
  shows "1 \<le> rx * rx" "rx * rx \<le> 1073741824" "1 \<le> ry * ry" "ry * ry \<le> 1073741824"
proof -
  have "1 * 1 \<le> rx * rx" "rx * rx \<le> 32768 * 32768" "1 * 1 \<le> ry * ry" "ry * ry \<le> 32768 * 32768"
    using assms unfolding half_axes_def by (intro mult_mono; simp)+
  then show "1 \<le> rx * rx" "rx * rx \<le> 1073741824" "1 \<le> ry * ry" "ry * ry \<le> 1073741824"
    by simp_all
qed

lemma i64_small: "\<bar>z\<bar> \<le> 4611686018427387904 \<Longrightarrow> i64 z = Some z"
  by (simp add: i64_def abs_le_iff)

lemma ellipse_upper_step:
  assumes "half_axes rx ry" and "0 \<le> y" "y \<le> ry" "0 \<le> x"
    and "2 * (ry * ry) * x < 2 * (rx * rx) * y"
  shows "x + 1 \<le> rx * rx" "1 \<le> y"
proof -
  show "1 \<le> y"
  proof (rule ccontr)
    assume "\<not> 1 \<le> y"
    then have "y = 0" using assms by simp
    with assms(5) have "(ry * ry) * x < 0" by simp
    moreover have "0 \<le> (ry * ry) * x" using assms(4) by simp
    ultimately show False by simp
  qed
  have "ry * (ry * x) < ry * (rx * rx)"
  proof -
    have "(rx * rx) * y \<le> (rx * rx) * ry" using assms(3) by (intro mult_left_mono) auto
    with assms(5) show ?thesis by (simp add: ac_simps)
  qed
  then have "ry * x < rx * rx" using assms(1) by (simp add: half_axes_def mult_less_cancel_left)
  moreover have "1 * x \<le> ry * x" using assms by (intro mult_right_mono) (auto simp: half_axes_def)
  ultimately show "x + 1 \<le> rx * rx" by simp
qed

lemma prod_bound: "\<bar>a\<bar> \<le> b \<Longrightarrow> \<bar>c\<bar> \<le> d \<Longrightarrow> \<bar>a * c\<bar> \<le> b * (d :: int)"
  unfolding abs_mult by (rule mult_mono) auto

lemma ellipse_upper_drawn:
  assumes c: "raster_ok c" and "coord cx" and "coord cy" and axes: "half_axes rx ry"
    and "0 \<le> x" "x \<le> rx * rx" "0 \<le> y" "y \<le> ry"
    and "px = 2 * (ry * ry) * x" "py = 2 * (rx * rx) * y"
  shows "\<exists>x' y' c'. ellipse_upper op cx cy (rx * rx) (ry * ry) x y px py decision c =
      Some (x', y', 2 * (ry * ry) * x', 2 * (rx * rx) * y', c') \<and>
    framed c c' \<and> 0 \<le> x' \<and> x' \<le> rx * rx \<and> 0 \<le> y' \<and> y' \<le> ry"
  using assms(1,5-)
proof (induction "nat (py - px)" arbitrary: x y px py decision c rule: less_induct)
  case less
  note sq = half_axes_squares [OF axes]
  show ?case
  proof (cases "px < py")
    case False
    with less.prems show ?thesis by (subst ellipse_upper.simps) auto
  next
    case True
    with less.prems have step: "x + 1 \<le> rx * rx" "1 \<le> y"
      using ellipse_upper_step [OF axes, of y x] by auto
    have y: "y \<le> 32768" using less.prems axes by (simp add: half_axes_def)
    obtain c1 where c1: "put4 op cx cy x y c = Some c1" "framed c c1"
      using put4_drawn [OF less.prems(1) assms(2,3), of x y op] less.prems sq y
      unfolding drawn_def by auto
    have ok: "raster_ok c1" by (rule framed_raster_ok [OF c1(2) less.prems(1)])
    have px: "px + 2 * (ry * ry) = 2 * (ry * ry) * (x + 1)"
      and py: "py - 2 * (rx * rx) = 2 * (rx * rx) * (y - 1)"
      using less.prems by (simp_all add: algebra_simps)
    have b: "\<bar>2 * (ry * ry) * (x + 1)\<bar> \<le> 2147483648 * 1073741824"
        "\<bar>2 * (rx * rx) * (y - 1)\<bar> \<le> 2147483648 * 32768"
      using prod_bound [of "2 * (ry * ry)" 2147483648 "x + 1" 1073741824]
        prod_bound [of "2 * (rx * rx)" 2147483648 "y - 1" 32768] sq step y less.prems by auto
    have i64s: "i64 (2 * (ry * ry) * (x + 1)) = Some (2 * (ry * ry) * (x + 1))"
      "i64 (ry * ry + 2 * (ry * ry) * (x + 1)) = Some (ry * ry + 2 * (ry * ry) * (x + 1))"
      "i64 (2 * (rx * rx) * (y - 1)) = Some (2 * (rx * rx) * (y - 1))"
      "i64 (ry * ry + 2 * (ry * ry) * (x + 1) - 2 * (rx * rx) * (y - 1)) =
        Some (ry * ry + 2 * (ry * ry) * (x + 1) - 2 * (rx * rx) * (y - 1))"
      using b sq by (intro i64_small, linarith)+
    have smaller: "nat (py - 2 * (ry * ry) * (x + 1)) < nat (py - px)"
      "nat (2 * (rx * rx) * (y - 1) - 2 * (ry * ry) * (x + 1)) < nat (py - px)"
      using True sq unfolding px [symmetric] py [symmetric] by simp_all
    let ?rec = "\<lambda>y py d. ellipse_upper op cx cy (rx * rx) (ry * ry) (x + 1) y (2 * (ry * ry) * (x + 1)) py d c1"
    have IH: "\<exists>x' y' c'. ?rec y py d = Some (x', y', 2 * (ry * ry) * x', 2 * (rx * rx) * y', c') \<and>
          framed c1 c' \<and> 0 \<le> x' \<and> x' \<le> rx * rx \<and> 0 \<le> y' \<and> y' \<le> ry"
        "\<exists>x' y' c'. ?rec (y - 1) (2 * (rx * rx) * (y - 1)) d =
            Some (x', y', 2 * (ry * ry) * x', 2 * (rx * rx) * y', c') \<and>
          framed c1 c' \<and> 0 \<le> x' \<and> x' \<le> rx * rx \<and> 0 \<le> y' \<and> y' \<le> ry" for d
      using less.prems step
      by (intro less.hyps smaller ok; simp)+
    show ?thesis
    proof (cases "decision < 0")
      case neg: True
      let ?d = "fl64 (decision + to_double (ry * ry + 2 * (ry * ry) * (x + 1)))"
      have "ellipse_upper op cx cy (rx * rx) (ry * ry) x y px py decision c = ?rec y py ?d"
        using c1(1) True neg by (subst ellipse_upper.simps) (simp only: px i64s if_True Option.bind.bind_lunit)
      with IH(1) [of ?d] framed_trans [OF c1(2)] show ?thesis by auto
    next
      case pos: False
      let ?d = "fl64 (decision + to_double (ry * ry + 2 * (ry * ry) * (x + 1) - 2 * (rx * rx) * (y - 1)))"
      have "ellipse_upper op cx cy (rx * rx) (ry * ry) x y px py decision c =
          ?rec (y - 1) (2 * (rx * rx) * (y - 1)) ?d"
        using c1(1) True pos
        by (subst ellipse_upper.simps) (simp only: px py i64s if_True if_False Option.bind.bind_lunit)
      with IH(2) [of ?d] framed_trans [OF c1(2)] show ?thesis by auto
    qed
  qed
qed

lemma ellipse_lower_drawn:
  assumes c: "raster_ok c" and "coord cx" and "coord cy" and axes: "half_axes rx ry"
    and "0 \<le> x" "x \<le> rx * rx + ry - y" "y \<le> ry" "- 1 \<le> y"
    and "px = 2 * (ry * ry) * x" "py = 2 * (rx * rx) * y"
  shows "drawn c (ellipse_lower op cx cy (rx * rx) (ry * ry) x y px py decision c)"
  using assms(1,5-)
proof (induction "nat (y + 1)" arbitrary: x y px py decision c rule: less_induct)
  case less
  note sq = half_axes_squares [OF axes]
  show ?case
  proof (cases "0 \<le> y")
    case False
    then show ?thesis by (subst ellipse_lower.simps) simp
  next
    case True
    have ry: "ry \<le> 32768" using axes by (simp add: half_axes_def)
    have x: "x \<le> 1073774592" using less.prems sq ry True by linarith
    have px: "px + 2 * (ry * ry) = 2 * (ry * ry) * (x + 1)"
      and py: "py - 2 * (rx * rx) = 2 * (rx * rx) * (y - 1)"
      using less.prems by (simp_all add: algebra_simps)
    have b: "\<bar>2 * (ry * ry) * (x + 1)\<bar> \<le> 2147483648 * 1073774593"
        "\<bar>2 * (rx * rx) * (y - 1)\<bar> \<le> 2147483648 * 32768"
      using prod_bound [of "2 * (ry * ry)" 2147483648 "x + 1" 1073774593]
        prod_bound [of "2 * (rx * rx)" 2147483648 "y - 1" 32768] sq x ry True less.prems by auto
    have i64s: "i64 (2 * (ry * ry) * (x + 1)) = Some (2 * (ry * ry) * (x + 1))"
      "i64 (2 * (rx * rx) * (y - 1)) = Some (2 * (rx * rx) * (y - 1))"
      "i64 (rx * rx - 2 * (rx * rx) * (y - 1)) = Some (rx * rx - 2 * (rx * rx) * (y - 1))"
      "i64 (rx * rx - 2 * (rx * rx) * (y - 1) + 2 * (ry * ry) * (x + 1)) =
        Some (rx * rx - 2 * (rx * rx) * (y - 1) + 2 * (ry * ry) * (x + 1))"
      using b sq by (intro i64_small, linarith)+
    have put: "drawn c (put4 op cx cy x y c)"
      using put4_drawn [OF less.prems(1) assms(2,3)] less.prems x ry True by auto
    have IH: "drawn c' (ellipse_lower op cx cy (rx * rx) (ry * ry) x (y - 1) px
          (2 * (rx * rx) * (y - 1)) d c')"
        "drawn c' (ellipse_lower op cx cy (rx * rx) (ry * ry) (x + 1) (y - 1)
          (2 * (ry * ry) * (x + 1)) (2 * (rx * rx) * (y - 1)) d c')" if "framed c c'" for c' d
      using less.prems True framed_raster_ok [OF that less.prems(1)]
      by (intro less.hyps; simp)+
    show ?thesis
    proof (cases "decision > 0")
      case True
      with \<open>0 \<le> y\<close> show ?thesis
        by (subst ellipse_lower.simps) (auto simp: py i64s intro!: drawn_bind put IH)
    next
      case False
      with \<open>0 \<le> y\<close> show ?thesis
        by (subst ellipse_lower.simps) (auto simp: px py i64s intro!: drawn_bind put IH)
    qed
  qed
qed

end
