(* ===== verification/Bucket_Fill.thy ===== *)
theory Bucket_Fill
  imports Raster_Lemmas
begin

text \<open>
  The bucket fill of \<open>canvas::rasterize\<close> against its specification: it returns, and it
  recolours exactly the pixels that the start reaches over horizontal and vertical steps through
  pixels of the start's colour.
\<close>

section \<open>The region to fill\<close>

fun inside :: "raster \<Rightarrow> int \<times> int \<Rightarrow> bool" where
  "inside c (x, y) \<longleftrightarrow> 0 \<le> x \<and> x < uint (width c) \<and> 0 \<le> y \<and> y < uint (height c)"

fun pixel :: "raster \<Rightarrow> int \<times> int \<Rightarrow> u32" where
  "pixel c (x, y) = pixels c ! nat (y * uint (width c) + x)"

fun neighbours :: "int \<times> int \<Rightarrow> (int \<times> int) set" where
  "neighbours (x, y) = {(x + 1, y), (x - 1, y), (x, y + 1), (x, y - 1)}"

declare inside.simps [simp del] pixel.simps [simp del]

inductive_set fill_region :: "raster \<Rightarrow> int \<times> int \<Rightarrow> (int \<times> int) set"
  for c :: raster and start :: "int \<times> int"
where
  start: "start \<in> fill_region c start"
| spread: "p \<in> fill_region c start \<Longrightarrow> n \<in> neighbours p \<Longrightarrow> inside c n \<Longrightarrow>
    pixel c n = pixel c start \<Longrightarrow> n \<in> fill_region c start"

definition same_colour :: "raster \<Rightarrow> u32 \<Rightarrow> (int \<times> int) set" where
  "same_colour c v = {p. inside c p \<and> pixel c p = v}"

lemma fill_region_colour:
  "inside c start \<Longrightarrow> fill_region c start \<subseteq> same_colour c (pixel c start)"
proof
  fix p
  assume inside: "inside c start" and "p \<in> fill_region c start"
  from this(2) show "p \<in> same_colour c (pixel c start)"
    by induction (use inside in \<open>simp_all add: same_colour_def\<close>)
qed

section \<open>Indices\<close>

lemma index_bounds:
  assumes "0 \<le> x" "x < w" "0 \<le> y" "y < h"
  shows "0 \<le> y * w + x" and "y * w + x < h * (w :: int)"
proof -
  have "0 \<le> y * w" using assms by simp
  then show "0 \<le> y * w + x" using assms by simp
  have "y * w + x < (y + 1) * w" using assms by (simp add: algebra_simps)
  also have "\<dots> \<le> h * w" using assms by (intro mult_right_mono) auto
  finally show "y * w + x < h * w" .
qed

lemma index_inject:
  assumes "0 \<le> x" "x < (w :: int)" "0 \<le> x'" "x' < w" and "y * w + x = y' * w + x'"
  shows "x = x' \<and> y = y'"
proof -
  have "(y * w + x) mod w = x" "(y' * w + x') mod w = x'"
    using assms(1-4) by (simp_all only: mod_mult_self3 mod_pos_pos_trivial)
  with assms(5) have "x = x'" by simp
  with assms show ?thesis by simp
qed

lemma raster_area:
  assumes "raster_ok c"
  shows "int (length (pixels c)) = uint (height c) * uint (width c)"
    and "uint (width c) \<le> 65536" and "uint (height c) \<le> 65536"
  using assms uint_nat [of "width c"] uint_nat [of "height c"] unfolding raster_ok_def
  by (simp_all only: of_nat_mult mult.commute) linarith+

lemma pixel_index_inside:
  assumes "raster_ok c" and "inside c (x, y)"
  shows "pixel_index c x y = nat (y * uint (width c) + x)"
    and "nat (y * uint (width c) + x) < length (pixels c)"
proof -
  note area = raster_area [OF assms(1)]
  have xy: "0 \<le> x" "x < uint (width c)" "0 \<le> y" "y < uint (height c)"
    using assms(2) by (simp_all add: inside.simps)
  note bounds = index_bounds [OF xy]
  have "uint (height c) * uint (width c) \<le> 65536 * 65536"
    using area(2,3) by (intro mult_mono) auto
  then have "y * uint (width c) + x < 2 ^ 64" using bounds(2) by simp
  moreover have "y mod 2 ^ 64 = y" using xy area(3) by simp
  ultimately show "pixel_index c x y = nat (y * uint (width c) + x)"
    using bounds(1) unfolding pixel_index_def by simp
  show "nat (y * uint (width c) + x) < length (pixels c)" using bounds area(1) by linarith
qed

lemma pixel_update:
  assumes "raster_ok c" and "inside c (x, y)" and "inside c p"
  shows "pixel (c\<lparr>pixels := (pixels c)[nat (y * uint (width c) + x) := v]\<rparr>) p =
    (if p = (x, y) then v else pixel c p)"
proof (cases p)
  case (Pair x' y')
  note len = pixel_index_inside(2) [OF assms(1)]
  have xy: "0 \<le> x" "x < uint (width c)" "0 \<le> y" "y < uint (height c)"
    "0 \<le> x'" "x' < uint (width c)" "0 \<le> y'" "y' < uint (height c)"
    using assms(2,3) Pair by (simp_all add: inside.simps)
  show ?thesis
  proof (cases "p = (x, y)")
    case True
    with Pair len [of x y] assms(2) show ?thesis by (simp add: pixel.simps)
  next
    case False
    then have "y * uint (width c) + x \<noteq> y' * uint (width c) + x'"
      using index_inject [OF xy(1,2,5,6), of y y'] Pair by blast
    then have "nat (y * uint (width c) + x) \<noteq> nat (y' * uint (width c) + x')"
      using eq_nat_nat_iff [OF index_bounds(1) [OF xy(1-4)] index_bounds(1) [OF xy(5-8)]] by simp
    moreover have "(x', y') \<noteq> (x, y)" using False Pair by simp
    ultimately show ?thesis unfolding Pair by (simp only: pixel.simps if_False nth_list_update_neq) simp
  qed
qed

lemma framed_inside [simp]: "framed c c' \<Longrightarrow> inside c' p = inside c p"
  by (cases p) (simp add: framed_sel inside.simps)

lemma finite_same_colour [simp]: "finite (same_colour c v)"
proof -
  have "same_colour c v \<subseteq> {0..uint (width c)} \<times> {0..uint (height c)}"
    by (auto simp: same_colour_def inside.simps)
  then show ?thesis by (rule finite_subset) simp
qed

section \<open>One probe\<close>

text \<open>The canvas while the pixels of \<open>F\<close> are recoloured.\<close>

definition filled :: "raster \<Rightarrow> u32 \<Rightarrow> u32 \<Rightarrow> (int \<times> int) set \<Rightarrow> raster \<Rightarrow> bool" where
  "filled c0 target col F c \<longleftrightarrow> framed c0 c \<and> F \<subseteq> same_colour c0 target \<and>
     (\<forall>p. inside c0 p \<longrightarrow> pixel c p = (if p \<in> F then col else pixel c0 p))"

lemma filled_insert:
  assumes ok: "raster_ok c0" and f: "filled c0 target col F c"
    and n: "(x, y) \<in> same_colour c0 target"
  shows "filled c0 target col (insert (x, y) F)
    (c\<lparr>pixels := (pixels c)[nat (y * uint (width c) + x) := col]\<rparr>)"
proof -
  have c: "framed c0 c" using f by (simp add: filled_def)
  have inside: "inside c (x, y)" using n framed_inside [OF c] by (simp add: same_colour_def)
  have "framed c0 (c\<lparr>pixels := (pixels c)[nat (y * uint (width c) + x) := col]\<rparr>)"
    by (rule framed_trans [OF c]) simp
  moreover have "pixel (c\<lparr>pixels := (pixels c)[nat (y * uint (width c) + x) := col]\<rparr>) p =
      (if p \<in> insert (x, y) F then col else pixel c0 p)" if "inside c0 p" for p
  proof -
    have "pixel c p = (if p \<in> F then col else pixel c0 p)"
      using f that unfolding filled_def by blast
    then show ?thesis
      using pixel_update [OF framed_raster_ok [OF c ok] inside, of p col] that framed_inside [OF c]
      by simp
  qed
  ultimately show ?thesis using f n by (simp add: filled_def)
qed

lemma try_fill_step:
  assumes ok: "raster_ok c0" and f: "filled c0 target col F c" and "target \<noteq> col"
  defines "T \<equiv> same_colour c0 target"
  shows "\<exists>c' new. try_fill target col nx ny (c, q) = Some (c', q @ new) \<and>
    filled c0 target col (F \<union> ({(nx, ny)} \<inter> T)) c' \<and>
    set new = (F \<union> ({(nx, ny)} \<inter> T)) - F \<and>
    2 * card (T - (F \<union> ({(nx, ny)} \<inter> T))) + length new \<le> 2 * card (T - F)"
proof -
  have c: "framed c0 c" and okc: "raster_ok c" using f ok framed_raster_ok by (auto simp: filled_def)
  have guard: "0 \<le> nx \<and> 0 \<le> ny \<and> nx < uint (width c) \<and> ny < uint (height c) \<longleftrightarrow> inside c0 (nx, ny)"
    using c by (auto simp: framed_sel inside.simps)
  show ?thesis
  proof (cases "inside c0 (nx, ny)")
    case False
    then have "{(nx, ny)} \<inter> T = {}" by (auto simp: T_def same_colour_def)
    moreover have "try_fill target col nx ny (c, q) = Some (c, q @ [])"
      using False guard by (auto simp: try_fill_def)
    ultimately show ?thesis using f by (intro exI [of _ c] exI [of _ "[]"]) simp
  next
    case True
    then have inside: "inside c (nx, ny)" using c by simp
    note index = pixel_index_inside [OF okc inside]
    have run: "try_fill target col nx ny (c, q) =
      (if pixel c (nx, ny) = target
       then Some (c\<lparr>pixels := (pixels c)[nat (ny * uint (width c) + nx) := col]\<rparr>, q @ [(nx, ny)])
       else Some (c, q))"
      using True guard index by (simp add: try_fill_def pixel.simps)
    show ?thesis
    proof (cases "(nx, ny) \<in> T \<and> (nx, ny) \<notin> F")
      case new: True
      then have "pixel c (nx, ny) = target"
        using f True by (simp add: filled_def T_def same_colour_def)
      moreover have "2 * card (T - insert (nx, ny) F) + 1 \<le> 2 * card (T - F)"
      proof -
        have "T - insert (nx, ny) F = (T - F) - {(nx, ny)}" by blast
        moreover have "0 < card (T - F)" using new by (auto simp: card_gt_0_iff T_def)
        ultimately show ?thesis using new by (simp add: card_Diff_singleton)
      qed
      ultimately show ?thesis
        using run filled_insert [OF ok f] new
        by (intro exI [of _ "c\<lparr>pixels := (pixels c)[nat (ny * uint (width c) + nx) := col]\<rparr>"]
            exI [of _ "[(nx, ny)]"]) (auto simp: T_def)
    next
      case old: False
      then have "pixel c (nx, ny) \<noteq> target"
        using f True assms(3) by (auto simp: filled_def T_def same_colour_def)
      moreover have "F \<union> ({(nx, ny)} \<inter> T) = F" using old by auto
      ultimately show ?thesis using run f by (intro exI [of _ c] exI [of _ "[]"]) simp
    qed
  qed
qed

section \<open>The loop\<close>

text \<open>A probe sequence grows the filled set to \<open>F'\<close> and appends what is new to the queue.\<close>

definition grows ::
  "raster \<Rightarrow> u32 \<Rightarrow> u32 \<Rightarrow> (int \<times> int) set \<Rightarrow> (int \<times> int) list \<Rightarrow> (int \<times> int) set \<Rightarrow>
    (raster \<times> (int \<times> int) list) option \<Rightarrow> bool"
where
  "grows c0 target col F q F' r \<longleftrightarrow>
     (\<exists>c' new. r = Some (c', q @ new) \<and> filled c0 target col F' c' \<and> set new = F' - F \<and>
        2 * card (same_colour c0 target - F') + length new \<le> 2 * card (same_colour c0 target - F))"

lemma grows_bind:
  assumes "grows c0 target col F q F1 r" and "F \<subseteq> F1" and "F1 \<subseteq> F2"
    and "\<And>c' q'. filled c0 target col F1 c' \<Longrightarrow> grows c0 target col F1 q' F2 (f (c', q'))"
  shows "grows c0 target col F q F2 (Option.bind r f)"
proof -
  obtain c1 new1 where r: "r = Some (c1, q @ new1)" "filled c0 target col F1 c1" "set new1 = F1 - F"
      "2 * card (same_colour c0 target - F1) + length new1 \<le> 2 * card (same_colour c0 target - F)"
    using assms(1) unfolding grows_def by blast
  obtain c2 new2 where f: "f (c1, q @ new1) = Some (c2, (q @ new1) @ new2)" "filled c0 target col F2 c2"
      "set new2 = F2 - F1"
      "2 * card (same_colour c0 target - F2) + length new2 \<le> 2 * card (same_colour c0 target - F1)"
    using assms(4) [OF r(2), of "q @ new1"] unfolding grows_def by blast
  have "set (new1 @ new2) = F2 - F" using r(3) f(3) assms(2,3) by auto
  with r f show ?thesis
    unfolding grows_def by (intro exI [of _ c2] exI [of _ "new1 @ new2"]) simp
qed

lemma probes_grow:
  assumes ok: "raster_ok c0" and f: "filled c0 target col F c" and neq: "target \<noteq> col"
    and xy: "inside c0 (x, y)"
  shows "grows c0 target col F q (F \<union> (neighbours (x, y) \<inter> same_colour c0 target))
    (do {
       right \<leftarrow> i32 (x + 1);
       cq \<leftarrow> try_fill target col right y (c, q);
       left \<leftarrow> i32 (x - 1);
       cq \<leftarrow> try_fill target col left y cq;
       down \<leftarrow> i32 (y + 1);
       cq \<leftarrow> try_fill target col x down cq;
       up \<leftarrow> i32 (y - 1);
       try_fill target col x up cq })"
proof -
  let ?T = "same_colour c0 target"
  have i32: "i32 (x + 1) = Some (x + 1)" "i32 (x - 1) = Some (x - 1)" "i32 (y + 1) = Some (y + 1)"
    "i32 (y - 1) = Some (y - 1)"
    using xy raster_area [OF ok] by (simp_all add: i32_def inside.simps)
  have probe: "grows c0 target col F' q' (F' \<union> ({(nx, ny)} \<inter> ?T)) (try_fill target col nx ny (c', q'))"
    if "filled c0 target col F' c'" for F' q' nx ny c'
    using try_fill_step [OF ok that neq] unfolding grows_def by blast
  define F1 F2 F3 F4 where "F1 = F \<union> ({(x + 1, y)} \<inter> ?T)" and "F2 = F1 \<union> ({(x - 1, y)} \<inter> ?T)"
    and "F3 = F2 \<union> ({(x, y + 1)} \<inter> ?T)" and "F4 = F3 \<union> ({(x, y - 1)} \<inter> ?T)"
  have F4: "F \<union> (neighbours (x, y) \<inter> ?T) = F4" unfolding F1_def F2_def F3_def F4_def by auto
  have sub: "F \<subseteq> F1" "F1 \<subseteq> F2" "F2 \<subseteq> F3" "F3 \<subseteq> F4"
    unfolding F1_def F2_def F3_def F4_def by auto
  then have sub': "F1 \<subseteq> F4" "F2 \<subseteq> F4" by auto
  note p1 = probe [where F' = F and nx = "x + 1" and ny = y, folded F1_def]
    and p2 = probe [where F' = F1 and nx = "x - 1" and ny = y, folded F2_def]
    and p3 = probe [where F' = F2 and nx = x and ny = "y + 1", folded F3_def]
    and p4 = probe [where F' = F3 and nx = x and ny = "y - 1", folded F4_def]
  show ?thesis
    unfolding i32 Option.bind.bind_lunit F4
    by (intro grows_bind [OF p1 [OF f]] grows_bind [OF p2] grows_bind [OF p3] p4 sub sub')
qed

text \<open>The finished fill: the region has the new colour, everything else is as before.\<close>

definition fill_result :: "raster \<Rightarrow> int \<times> int \<Rightarrow> u32 \<Rightarrow> raster \<Rightarrow> bool" where
  "fill_result c0 start col c \<longleftrightarrow> framed c0 c \<and>
     (\<forall>p. inside c0 p \<longrightarrow> pixel c p = (if p \<in> fill_region c0 start then col else pixel c0 p))"

lemma closed_region:
  assumes "start \<in> F" and "\<And>p n. p \<in> F \<Longrightarrow> n \<in> neighbours p \<Longrightarrow> n \<in> same_colour c0 (pixel c0 start) \<Longrightarrow> n \<in> F"
  shows "fill_region c0 start \<subseteq> F"
proof
  fix p
  assume "p \<in> fill_region c0 start"
  then show "p \<in> F" by induction (use assms in \<open>auto simp: same_colour_def\<close>)
qed

lemma fill_loop_correct:
  assumes ok: "raster_ok c0" and start: "inside c0 start" and neq: "pixel c0 start \<noteq> col"
    and "filled c0 (pixel c0 start) col F c" and "start \<in> F" and "F \<subseteq> fill_region c0 start"
    and "set q \<subseteq> F"
    and "\<And>p n. p \<in> F - set q \<Longrightarrow> n \<in> neighbours p \<Longrightarrow> n \<in> same_colour c0 (pixel c0 start) \<Longrightarrow> n \<in> F"
  shows "\<exists>c'. fill_loop (pixel c0 start) col (c, q) = Some c' \<and> fill_result c0 start col c'"
  using assms(4-)
proof (induction "2 * card (same_colour c0 (pixel c0 start) - F) + length q"
    arbitrary: F c q rule: less_induct)
  case less
  let ?target = "pixel c0 start"
  let ?T = "same_colour c0 ?target"
  show ?case
  proof (cases q)
    case Nil
    have "F = fill_region c0 start"
      using closed_region [OF less.prems(2)] less.prems(3,5) Nil by (simp, blast)
    then have "fill_result c0 start col c" using less.prems(1) by (simp add: filled_def fill_result_def)
    with Nil show ?thesis by (subst fill_loop.simps) simp
  next
    case (Cons cur rest)
    obtain x y where cur: "cur = (x, y)" by (cases cur)
    have "cur \<in> F" using less.prems(4) Cons by simp
    then have "cur \<in> ?T" using less.prems(1) by (auto simp: filled_def)
    then have inside: "inside c0 (x, y)" using cur by (simp add: same_colour_def)
    define F' where "F' = F \<union> (neighbours (x, y) \<inter> ?T)"
    from probes_grow [OF ok less.prems(1) neq inside, of rest, folded F'_def]
    obtain c' new where step: "do {
       right \<leftarrow> i32 (x + 1);
       cq \<leftarrow> try_fill ?target col right y (c, rest);
       left \<leftarrow> i32 (x - 1);
       cq \<leftarrow> try_fill ?target col left y cq;
       down \<leftarrow> i32 (y + 1);
       cq \<leftarrow> try_fill ?target col x down cq;
       up \<leftarrow> i32 (y - 1);
       try_fill ?target col x up cq } = Some (c', rest @ new)"
      and f': "filled c0 ?target col F' c'" and new: "set new = F' - F"
      and measure: "2 * card (?T - F') + length new \<le> 2 * card (?T - F)"
      unfolding grows_def by blast
    have run: "fill_loop ?target col (c, q) = fill_loop ?target col (c', rest @ new)"
      using step unfolding Cons cur
      by (subst fill_loop.simps) (auto simp: i32_def elim!: bind_eq_SomeE split: option.splits)
    have region: "F' \<subseteq> fill_region c0 start"
    proof -
      have "(x, y) \<in> fill_region c0 start" using less.prems(3) \<open>cur \<in> F\<close> cur by blast
      from fill_region.spread [OF this]
      have "neighbours (x, y) \<inter> ?T \<subseteq> fill_region c0 start"
        unfolding same_colour_def by blast
      then show ?thesis using less.prems(3) unfolding F'_def by blast
    qed
    have queue: "set (rest @ new) \<subseteq> F'" using new less.prems(4) Cons by (auto simp: F'_def)
    have closed: "n \<in> F'" if "p \<in> F' - set (rest @ new)" "n \<in> neighbours p" "n \<in> ?T" for p n
    proof (cases "p = (x, y)")
      case True
      with that show ?thesis by (simp add: F'_def)
    next
      case False
      with that new have "p \<in> F - set q" by (auto simp: Cons cur)
      from less.prems(5) [OF this that(2,3)] show ?thesis by (simp add: F'_def)
    qed
    have "2 * card (?T - F') + length (rest @ new) < 2 * card (?T - F) + length q"
      using measure Cons by simp
    moreover have "start \<in> F'" using less.prems(2) by (simp add: F'_def)
    ultimately show ?thesis
      unfolding run by (rule less.hyps [OF _ f' _ region queue closed])
  qed
qed

lemma bucket_fill_run:
  assumes ok: "raster_ok c" and start: "inside c (fx, fy)"
  shows "\<exists>c'. bucket_fill op fx fy c = Some c' \<and>
    (if pixel c (fx, fy) = color op then c' = c else fill_result c (fx, fy) (color op) c')"
proof -
  note index = pixel_index_inside [OF ok start]
  note area = raster_area [OF ok]
  have xy: "0 \<le> fx" "fx < uint (width c)" "0 \<le> fy" "fy < uint (height c)"
    using start by (simp_all add: inside.simps)
  then have mods: "fx mod 2 ^ 32 = fx" "fy mod 2 ^ 32 = fy" using area(2,3) by simp_all
  let ?target = "pixel c (fx, fy)"
  let ?c1 = "c\<lparr>pixels := (pixels c)[nat (fy * uint (width c) + fx) := color op]\<rparr>"
  have target: "pixels c ! nat (fy * uint (width c) + fx) = ?target" by (simp add: pixel.simps)
  have run: "bucket_fill op fx fy c =
      (if ?target = color op then Some c else fill_loop ?target (color op) (?c1, [(fx, fy)]))"
    unfolding bucket_fill_def mods index(1) Let_def target using xy index(2) by simp
  show ?thesis
  proof (cases "?target = color op")
    case True
    with run show ?thesis by simp
  next
    case False
    have "(fx, fy) \<in> same_colour c ?target" using start by (simp add: same_colour_def)
    then have "filled c ?target (color op) {(fx, fy)} ?c1"
      using filled_insert [OF ok, of ?target "color op" "{}" c] by (simp add: filled_def)
    then have "\<exists>c'. fill_loop ?target (color op) (?c1, [(fx, fy)]) = Some c' \<and>
        fill_result c (fx, fy) (color op) c'"
      by (rule fill_loop_correct [OF ok start False]) (simp_all add: fill_region.start)
    with run False show ?thesis by simp
  qed
qed

section \<open>Every tool\<close>

lemma outline_ellipse_drawn:
  assumes c: "raster_ok c" and "coord cx" and "coord cy" and axes: "half_axes rx ry"
  shows "drawn c (outline_ellipse op cx cy rx ry c)"
proof -
  note sq = half_axes_squares [OF axes]
  have ry: "1 \<le> ry" "ry \<le> 32768" using axes by (simp_all add: half_axes_def)
  have b: "\<bar>2 * (rx * rx) * ry\<bar> \<le> 2147483648 * 32768" "\<bar>rx * rx * ry\<bar> \<le> 1073741824 * 32768"
    "\<bar>rx * rx * (ry * ry)\<bar> \<le> 1073741824 * 1073741824"
    using prod_bound [of "2 * (rx * rx)" 2147483648 ry 32768] prod_bound [of "rx * rx" 1073741824 ry 32768]
      prod_bound [of "rx * rx" 1073741824 "ry * ry" 1073741824] sq ry by auto
  have i64s: "i64 (rx * rx) = Some (rx * rx)" "i64 (ry * ry) = Some (ry * ry)"
    "i64 (2 * (rx * rx) * ry) = Some (2 * (rx * rx) * ry)"
    "i64 (ry * ry - rx * rx * ry) = Some (ry * ry - rx * rx * ry)"
    "i64 (rx * rx * (ry * ry)) = Some (rx * rx * (ry * ry))"
    using b sq by (intro i64_small, linarith)+
  let ?d = "fl64 (to_double (ry * ry - rx * rx * ry) + fl64 (1 / 4 * to_double (rx * rx)))"
  obtain x y c1 where upper: "ellipse_upper op cx cy (rx * rx) (ry * ry) 0 ry 0 (2 * (rx * rx) * ry) ?d c =
      Some (x, y, 2 * (ry * ry) * x, 2 * (rx * rx) * y, c1)"
    and c1: "framed c c1" and xy: "0 \<le> x" "x \<le> rx * rx" "0 \<le> y" "y \<le> ry"
    using ellipse_upper_drawn [OF assms, of 0 ry 0 "2 * (rx * rx) * ry" op ?d] sq ry by auto
  have "\<bar>(y - 1) * (y - 1)\<bar> \<le> 32768 * 32768"
    using xy ry by (intro prod_bound) auto
  then have i64_y: "i64 ((y - 1) * (y - 1)) = Some ((y - 1) * (y - 1))" by (intro i64_small) simp
  have "drawn c1 (ellipse_lower op cx cy (rx * rx) (ry * ry) x y (2 * (ry * ry) * x) (2 * (rx * rx) * y) d c1)" for d
    using xy by (intro ellipse_lower_drawn framed_raster_ok [OF c1] assms) auto
  then have lower: "drawn c (ellipse_lower op cx cy (rx * rx) (ry * ry) x y (2 * (ry * ry) * x)
      (2 * (rx * rx) * y) d c1)" for d
    using framed_trans [OF c1] unfolding drawn_def by blast
  show ?thesis
    unfolding outline_ellipse_def i64s Option.bind.bind_lunit upper prod.case i64_y Let_def
    by (rule lower)
qed

lemma ellipse_drawn:
  assumes c: "raster_ok c" and coords: "coord x0" "coord y0" "coord x1" "coord y1"
  shows "drawn c (ellipse op x0 y0 x1 y1 c)"
proof -
  define l r t b where "l = min x0 x1" and "r = max x0 x1" and "t = min y0 y1" and "b = max y0 y1"
  have lr: "0 \<le> l" "l \<le> r" "r \<le> 65535" "0 \<le> t" "t \<le> b" "b \<le> 65535"
    using coords by (auto simp: coord_def l_def r_def t_def b_def)
  have half: "z sdiv 2 = z div 2" if "0 \<le> z" for z :: int
    using that by (cases "z = 0") (simp_all add: signed_divide_int_def)
  have i32s: "i32 (l + r) = Some (l + r)" "i32 (t + b) = Some (t + b)"
    "i32 (r - l) = Some (r - l)" "i32 (b - t) = Some (b - t)"
    using lr by (intro i32_small, linarith)+
  have centre: "coord ((l + r) div 2)" "coord ((t + b) div 2)"
    using lr unfolding coord_def by linarith+
  have "(r - l) div 2 \<le> 32768" "(b - t) div 2 \<le> 32768" using lr by linarith+
  then have axes: "half_axes (max 1 ((r - l) div 2)) (max 1 ((b - t) div 2))"
    by (simp add: half_axes_def)
  have sdivs: "(l + r) sdiv 2 = (l + r) div 2" "(t + b) sdiv 2 = (t + b) div 2"
    "(r - l) sdiv 2 = (r - l) div 2" "(b - t) sdiv 2 = (b - t) div 2"
    using lr by (intro half; linarith)+
  show ?thesis
    unfolding ellipse_def Let_def l_def [symmetric] r_def [symmetric] t_def [symmetric] b_def [symmetric]
      i32s Option.bind.bind_lunit sdivs
    using outline_ellipse_drawn [OF c centre axes, of op]
      filled_ellipse_drawn [OF c centre] axes [unfolded half_axes_def] by simp
qed

lemma rasterize_drawn:
  assumes "raster_ok c"
  shows "drawn c (rasterize op c)"
proof (cases "tool op = tool_clear \<or> width c = 0 \<or> height c = 0 \<or> points op = []")
  case True
  then show ?thesis by (auto simp: rasterize_def)
next
  case False
  obtain x0 y0 where p0: "point c (hd (points op)) = (x0, y0)" by fastforce
  obtain x1 y1 where p1: "point c (last (points op)) = (x1, y1)" by fastforce
  have c: "width c \<noteq> 0" "height c \<noteq> 0" using False by simp_all
  note coords0 = point_coord [OF assms c p0] and coords1 = point_coord [OF assms c p1]
  have "inside c (x0, y0)" using coords0 by (simp add: inside.simps coord_def)
  from bucket_fill_run [OF assms this, of op] have "drawn c (bucket_fill op x0 y0 c)"
    unfolding drawn_def by (auto simp: fill_result_def split: if_split_asm)
  moreover have "drawn c (segments op x0 y0 ps c)" for ps
    by (rule segments_drawn [OF assms c coords0(1,2)])
  moreover note filled_rect_drawn [OF assms coords0(1,2) coords1(1,2), of op]
    outline_rect_drawn [OF assms coords0(1,2) coords1(1,2), of op]
    ellipse_drawn [OF assms coords0(1,2) coords1(1,2), of op]
  ultimately show ?thesis
    using False by (simp add: rasterize_def p0 p1)
qed

end
