(* ===== verification/Canvas.thy ===== *)
theory Canvas
  imports Bucket_Fill
begin

text \<open>
  \<open>engine/canvas/canvas.{h,cpp}\<close>: the canvas with its history of operations, the calls
  that change it, and the input handling that turns mouse events into operations. The two mutexes
  of the source protect the pixels and the history; each call here is one atomic step.
\<close>

section \<open>State\<close>

record canvas = raster +
  next_seq :: u32
  operations :: "draw_operation list"
  operation_ids :: "u64 set"

definition empty_canvas :: canvas where
  "empty_canvas =
     \<lparr>width = 0, height = 0, background = 0xFFFFFFFF, pixels = [], next_seq = 1, operations = [],
      operation_ids = {}\<rparr>"

section \<open>Reading\<close>

definition get_width :: "canvas \<Rightarrow> u32" where "get_width c = width c"

definition get_height :: "canvas \<Rightarrow> u32" where "get_height c = height c"

definition copy_pixels :: "canvas \<Rightarrow> u32 list" where "copy_pixels c = pixels c"

definition snapshot :: "canvas \<Rightarrow> draw_operation list" where "snapshot c = operations c"

definition contains_operation :: "u64 \<Rightarrow> canvas \<Rightarrow> bool" where
  "contains_operation oid c = (if oid = 0 then False else oid \<in> operation_ids c)"

definition next_sequence :: "canvas \<Rightarrow> u32" where "next_sequence c = next_seq c"

definition copy_pixels_with_preview :: "draw_operation \<Rightarrow> canvas \<Rightarrow> u32 list option" where
  "copy_pixels_with_preview op c =
     (let preview = \<lparr>width = width c, height = height c, background = background c,
        pixels = pixels c\<rparr> in do {
        preview \<leftarrow> rasterize op preview;
        Some (pixels preview) })"

section \<open>Changing\<close>

definition canvas_create :: "u32 \<Rightarrow> u32 \<Rightarrow> u32 \<Rightarrow> canvas \<Rightarrow> canvas" where
  "canvas_create w h bg c =
     c\<lparr>width := w, height := h, background := bg, pixels := replicate (unat w * unat h) bg,
       operations := [], operation_ids := {}, next_seq := 1\<rparr>"

definition clear_history :: "canvas \<Rightarrow> canvas" where
  "clear_history c =
     c\<lparr>pixels := replicate (length (pixels c)) (background c), operations := [],
       operation_ids := {}, next_seq := 1\<rparr>"

text \<open>\<open>rasterize\<close> on the canvas's own pixels.\<close>

definition draw_on :: "draw_operation \<Rightarrow> canvas \<Rightarrow> canvas option" where
  "draw_on op c = do { r \<leftarrow> rasterize op (raster.truncate c); Some (c\<lparr>pixels := pixels r\<rparr>) }"

definition canvas_apply :: "draw_operation \<Rightarrow> canvas \<Rightarrow> (u32 \<times> canvas) option" where
  "canvas_apply op c =
     (case (if operation_id op \<noteq> 0
            then find (\<lambda>existing. operation_id existing = operation_id op) (operations c)
            else None) of
        Some existing \<Rightarrow> Some (seq existing, c)
      | None \<Rightarrow>
          (let (sq, c) = (if seq op = 0 then (next_seq c, c\<lparr>next_seq := next_seq c + 1\<rparr>)
                          else (seq op, c));
               op = op\<lparr>seq := sq\<rparr>
           in
           if operation_id op \<noteq> 0 \<and> operation_id op \<in> operation_ids c then Some (sq, c)
           else do {
             let c = (if next_seq c \<le> sq then c\<lparr>next_seq := sq + 1\<rparr> else c);
             c \<leftarrow> draw_on op c;
             let c = c\<lparr>operations := operations c @ [op]\<rparr>;
             let c = (if operation_id op \<noteq> 0
                      then c\<lparr>operation_ids := insert (operation_id op) (operation_ids c)\<rparr> else c);
             Some (sq, c) }))"

definition canvas_load :: "draw_operation list \<Rightarrow> canvas \<Rightarrow> canvas option" where
  "canvas_load ops c =
     (let c = c\<lparr>operations := ops\<rparr>;
          c = c\<lparr>operation_ids := set (filter (\<lambda>i. i \<noteq> 0) (map operation_id ops))\<rparr>;
          c = c\<lparr>next_seq := fold (\<lambda>op n. max n (seq op + 1)) ops 1\<rparr>;
          c = (if pixels c \<noteq> [] then c\<lparr>pixels := replicate (length (pixels c)) (background c)\<rparr> else c)
      in each draw_on ops c)"

section \<open>Input\<close>

record canvas_input_state =
  in_inside :: bool
  in_pressed :: bool
  in_down :: bool
  in_released :: bool
  in_position :: canvas_point
  in_tool :: tool_type

text \<open>
  A stroke in progress: the points of a new one, and how the current input extends it. The
  squared distance is computed in \<open>int\<close>.
\<close>

definition extend_points ::
  "tool_type \<Rightarrow> canvas_point \<Rightarrow> canvas_point list \<Rightarrow> canvas_point list option"
where
  "extend_points active pos ps =
     (if active = tool_freehand \<or> active = tool_eraser \<or> active = tool_brush then
        (if ps = [] then Some (ps @ [pos])
         else
           (let dx = uint (pt_x pos) - uint (pt_x (last ps));
                dy = uint (pt_y pos) - uint (pt_y (last ps))
            in do {
              dx2 \<leftarrow> i32 (dx * dx);
              dy2 \<leftarrow> i32 (dy * dy);
              d2 \<leftarrow> i32 (dx2 + dy2);
              Some (if d2 \<ge> 32 * 32 then ps @ [pos] else ps) }))
      else if active \<noteq> tool_bucket_fill then
        (if length ps = 1 then Some (ps @ [pos])
         else if ps \<noteq> [] then Some (butlast ps @ [pos])
         else Some ps)
      else Some ps)"

definition process_canvas_input ::
  "canvas_input_state \<Rightarrow> u64 \<Rightarrow> u32 \<Rightarrow> u32 \<Rightarrow> u8 \<Rightarrow> bool \<Rightarrow> tool_type \<Rightarrow>
    canvas \<Rightarrow> draw_operation option \<Rightarrow> (draw_operation option \<times> canvas \<times> draw_operation option) option"
where
  "process_canvas_input input oid mid col thick commit_to_canvas active surface temporary = do {
     let temporary =
       (if temporary = None \<and> in_pressed input \<and> in_inside input
        then Some (default_draw_operation\<lparr>operation_id := oid, member_id := mid, tool := active,
          color := col, thickness := thick, points := [in_position input]\<rparr>)
        else temporary);
     temporary \<leftarrow>
       (case temporary of
          None \<Rightarrow> Some None
        | Some stroke \<Rightarrow>
            if in_down input \<or> (in_released input \<and> in_inside input) then do {
              ps \<leftarrow> extend_points active (in_position input) (points stroke);
              Some (Some (stroke\<lparr>points := ps\<rparr>)) }
            else Some (Some stroke));
     case temporary of
       None \<Rightarrow> Some (None, surface, None)
     | Some committed \<Rightarrow>
         if \<not> in_released input then Some (None, surface, Some committed)
         else
           (let committed =
              (if length (points committed) = 1
               then committed\<lparr>points := points committed @ [hd (points committed)]\<rparr> else committed)
            in
            if commit_to_canvas then do {
              (sq, surface) \<leftarrow> canvas_apply committed surface;
              Some (Some (committed\<lparr>seq := sq\<rparr>), surface, None) }
            else Some (Some committed, surface, None)) }"

end
