(* ===== verification/Canvas_Lemmas.thy ===== *)
theory Canvas_Lemmas
  imports Canvas
begin

text \<open>
  The canvas invariant (buffer size, index of operation ids, pixels = the history replayed on a
  blank canvas), its preservation by every call, and the contract of the history as a locale:
  what the session code relies on when it keeps the members' canvases equal.
\<close>

section \<open>The invariant\<close>

definition blank :: "raster \<Rightarrow> raster" where
  "blank r = r\<lparr>pixels := replicate (length (pixels r)) (background r)\<rparr>"

definition ids_of :: "draw_operation list \<Rightarrow> u64 set" where
  "ids_of ops = set (filter (\<lambda>i. i \<noteq> 0) (map operation_id ops))"

definition canvas_inv :: "canvas \<Rightarrow> bool" where
  "canvas_inv c \<longleftrightarrow> raster_ok (raster.truncate c) \<and> operation_ids c = ids_of (operations c) \<and>
     each rasterize (operations c) (blank (raster.truncate c)) = Some (raster.truncate c)"

lemma truncate_simps [simp]:
  "raster.truncate (c\<lparr>pixels := ps\<rparr> :: canvas) = (raster.truncate c)\<lparr>pixels := ps\<rparr>"
  "raster.truncate (c\<lparr>next_seq := n\<rparr> :: canvas) = raster.truncate c"
  "raster.truncate (c\<lparr>operations := ops\<rparr> :: canvas) = raster.truncate c"
  "raster.truncate (c\<lparr>operation_ids := ids\<rparr> :: canvas) = raster.truncate c"
  "pixels (raster.truncate c) = pixels (c :: canvas)" "width (raster.truncate c) = width c"
  "height (raster.truncate c) = height c" "background (raster.truncate c) = background c"
  by (simp_all add: raster.truncate_def)

lemma ids_of_simps [simp]:
  "ids_of [] = {}"
  "ids_of (xs @ [op]) = (if operation_id op = 0 then ids_of xs else insert (operation_id op) (ids_of xs))"
  by (auto simp: ids_of_def)

lemma each_append: "each f (xs @ ys) s = Option.bind (each f xs s) (each f ys)"
proof (induction xs arbitrary: s)
  case (Cons x xs)
  then show ?case by (cases "f x s") simp_all
qed simp

lemma blank_simps [simp]:
  "blank (r\<lparr>pixels := ps\<rparr>) = r\<lparr>pixels := replicate (length ps) (background r)\<rparr>"
  "blank (blank r) = blank r"
  by (simp_all add: blank_def)

lemma raster_ok_blank [simp]: "raster_ok (blank r) = raster_ok r"
  by (simp add: raster_ok_def blank_def)

lemma framed_blank: "framed r r' \<Longrightarrow> blank r' = blank r"
  by (auto simp: framed_def blank_def)

lemma blank_framed [simp]: "framed r (blank r)"
  by (simp add: blank_def)

lemma each_rasterize_drawn: "raster_ok r \<Longrightarrow> drawn r (each rasterize ops r)"
  by (rule drawn_each, rule rasterize_drawn, rule framed_raster_ok)

lemma draw_on_eq:
  assumes "raster_ok (raster.truncate c)"
  shows "\<exists>ps. rasterize op (raster.truncate c) = Some ((raster.truncate c)\<lparr>pixels := ps\<rparr>) \<and>
    draw_on op c = Some (c\<lparr>pixels := ps\<rparr>) \<and> length ps = length (pixels c)"
  using rasterize_drawn [OF assms, of op] by (auto simp: drawn_def framed_def draw_on_def)

lemma each_draw_on_eq:
  assumes "raster_ok (raster.truncate c)"
  shows "\<exists>ps. each rasterize ops (raster.truncate c) = Some ((raster.truncate c)\<lparr>pixels := ps\<rparr>) \<and>
    each draw_on ops c = Some (c\<lparr>pixels := ps\<rparr>) \<and> length ps = length (pixels c)"
  using assms
proof (induction ops arbitrary: c)
  case Nil
  then show ?case by (auto intro!: exI [of _ "pixels c"])
next
  case (Cons op ops)
  obtain ps where ps: "rasterize op (raster.truncate c) = Some ((raster.truncate c)\<lparr>pixels := ps\<rparr>)"
    "draw_on op c = Some (c\<lparr>pixels := ps\<rparr>)" "length ps = length (pixels c)"
    using draw_on_eq [OF Cons.prems] by blast
  have "raster_ok (raster.truncate (c\<lparr>pixels := ps\<rparr>))"
    using Cons.prems ps(3) by (simp add: raster_ok_def)
  from Cons.IH [OF this] ps show ?case by auto
qed

section \<open>Preservation\<close>

lemma canvas_inv_create:
  assumes "unat w \<le> 65536" and "unat h \<le> 65536"
  shows "canvas_inv (canvas_create w h bg c)"
proof -
  have "raster.truncate (canvas_create w h bg c) =
      \<lparr>width = w, height = h, background = bg, pixels = replicate (unat w * unat h) bg\<rparr>"
    by (simp add: canvas_create_def raster.truncate_def)
  with assms show ?thesis
    by (simp add: canvas_inv_def raster_ok_def blank_def canvas_create_def)
qed

lemma canvas_inv_clear: "canvas_inv c \<Longrightarrow> canvas_inv (clear_history c)"
  by (simp add: canvas_inv_def clear_history_def raster_ok_def blank_def raster.truncate_def)

lemma canvas_load_run:
  assumes "raster_ok (raster.truncate c)"
  shows "\<exists>ps. canvas_load ops c =
      Some (c\<lparr>pixels := ps, next_seq := fold (\<lambda>op n. max n (seq op + 1)) ops 1, operations := ops,
        operation_ids := ids_of ops\<rparr>) \<and>
    each rasterize ops (blank (raster.truncate c)) = Some ((raster.truncate c)\<lparr>pixels := ps\<rparr>) \<and>
    length ps = length (pixels c)"
proof -
  define c1 where "c1 = c\<lparr>pixels := replicate (length (pixels c)) (background c),
    next_seq := fold (\<lambda>op n. max n (seq op + 1)) ops 1, operations := ops, operation_ids := ids_of ops\<rparr>"
  have tr: "raster.truncate c1 = blank (raster.truncate c)"
    by (simp add: c1_def blank_def)
  have "canvas_load ops c = each draw_on ops c1"
    by (cases c) (simp add: canvas_load_def c1_def ids_of_def Let_def)
  moreover obtain ps where "each rasterize ops (raster.truncate c1) = Some ((raster.truncate c1)\<lparr>pixels := ps\<rparr>)"
    "each draw_on ops c1 = Some (c1\<lparr>pixels := ps\<rparr>)" "length ps = length (pixels c1)"
    using each_draw_on_eq [of c1 ops] assms tr by auto
  ultimately show ?thesis
    by (intro exI [of _ ps]) (cases c, simp add: tr blank_def, simp add: c1_def)
qed

lemma canvas_load_inv:
  assumes "raster_ok (raster.truncate c)" and "canvas_load ops c = Some c'"
  shows "canvas_inv c'"
  using canvas_load_run [OF assms(1), of ops] assms
  by (auto simp: canvas_inv_def raster_ok_def blank_def)

text \<open>\<open>apply\<close> of a known operation id and of a new one.\<close>

definition known :: "draw_operation \<Rightarrow> canvas \<Rightarrow> bool" where
  "known op c \<longleftrightarrow> operation_id op \<noteq> 0 \<and> operation_id op \<in> ids_of (operations c)"

lemma find_known:
  assumes "known op c"
  obtains e where "find (\<lambda>e. operation_id e = operation_id op) (operations c) = Some e"
    and "e \<in> set (operations c)" and "operation_id e = operation_id op"
proof -
  have "find (\<lambda>e. operation_id e = operation_id op) (operations c) \<noteq> None"
    using assms by (auto simp: known_def ids_of_def find_None_iff)
  then obtain e where e: "find (\<lambda>e. operation_id e = operation_id op) (operations c) = Some e" by blast
  then have "e \<in> set (operations c)" "operation_id e = operation_id op"
    by (auto simp: find_Some_iff)
  with e show ?thesis by (rule that)
qed

lemma canvas_apply_known:
  assumes "known op c"
  shows "\<exists>e \<in> set (operations c). operation_id e = operation_id op \<and>
    canvas_apply op c = Some (seq e, c)"
proof -
  obtain e where "find (\<lambda>e. operation_id e = operation_id op) (operations c) = Some e"
    and e: "e \<in> set (operations c)" "operation_id e = operation_id op"
    by (rule find_known [OF assms])
  with assms have "canvas_apply op c = Some (seq e, c)" by (simp add: canvas_apply_def known_def)
  with e show ?thesis by blast
qed

definition sequence_of :: "draw_operation \<Rightarrow> canvas \<Rightarrow> u32" where
  "sequence_of op c = (if seq op = 0 then next_seq c else seq op)"

lemma canvas_apply_new:
  assumes inv: "canvas_inv c" and "\<not> known op c"
  defines "sq \<equiv> sequence_of op c"
  shows "\<exists>ps. canvas_apply op c =
      Some (sq, c\<lparr>pixels := ps, next_seq := (if next_seq c \<le> sq then sq + 1 else next_seq c),
        operations := operations c @ [op\<lparr>seq := sq\<rparr>],
        operation_ids := ids_of (operations c @ [op])\<rparr>) \<and>
    rasterize (op\<lparr>seq := sq\<rparr>) (raster.truncate c) = Some ((raster.truncate c)\<lparr>pixels := ps\<rparr>) \<and>
    length ps = length (pixels c)"
proof -
  have ids: "operation_ids c = ids_of (operations c)" and ok: "raster_ok (raster.truncate c)"
    using inv by (simp_all add: canvas_inv_def)
  have none: "(if operation_id op \<noteq> 0
      then find (\<lambda>existing. operation_id existing = operation_id op) (operations c) else None) = None"
    using assms(2) by (auto simp: known_def ids_of_def find_None_iff image_iff)
  have fresh: "\<not> (operation_id op \<noteq> 0 \<and> operation_id op \<in> operation_ids c)"
    using assms(2) ids by (simp add: known_def)
  define n where "n = (if next_seq c \<le> sq then sq + 1 else next_seq c)"
  obtain ps where ps: "rasterize (op\<lparr>seq := sq\<rparr>) (raster.truncate c) =
      Some ((raster.truncate c)\<lparr>pixels := ps\<rparr>)" "length ps = length (pixels c)"
    and draw: "draw_on (op\<lparr>seq := sq\<rparr>) (c\<lparr>next_seq := n\<rparr>) = Some (c\<lparr>pixels := ps, next_seq := n\<rparr>)"
    using draw_on_eq [of "c\<lparr>next_seq := n\<rparr>" "op\<lparr>seq := sq\<rparr>"] ok by auto
  define c0 where "c0 = (if seq op = 0 then c\<lparr>next_seq := next_seq c + 1\<rparr> else c)"
  have pair: "(if seq op = 0 then (next_seq c, c\<lparr>next_seq := next_seq c + 1\<rparr>) else (seq op, c)) = (sq, c0)"
    by (simp add: sq_def sequence_of_def c0_def)
  have ids0: "operation_ids c0 = operation_ids c" by (simp add: c0_def)
  have bump: "(if next_seq c0 \<le> sq then c0\<lparr>next_seq := sq + 1\<rparr> else c0) = c\<lparr>next_seq := n\<rparr>"
    by (cases c) (auto simp: c0_def n_def sq_def sequence_of_def)
  have "canvas_apply op c = Some (sq, c\<lparr>pixels := ps, next_seq := n,
      operations := operations c @ [op\<lparr>seq := sq\<rparr>],
      operation_ids := ids_of (operations c @ [op])\<rparr>)"
    unfolding canvas_apply_def none option.case pair Let_def prod.case bump draw
    using fresh ids by (cases c) (auto simp: ids0 bump draw)
  from this [unfolded n_def] ps show ?thesis by blast
qed

lemma canvas_apply_inv:
  assumes inv: "canvas_inv c" and "canvas_apply op c = Some (sq, c')"
  shows "canvas_inv c'"
proof (cases "known op c")
  case True
  with canvas_apply_known [OF True] assms show ?thesis by auto
next
  case False
  from canvas_apply_new [OF inv False] assms(2) obtain ps where
    c': "c' = c\<lparr>pixels := ps, next_seq := (if next_seq c \<le> sq then sq + 1 else next_seq c),
        operations := operations c @ [op\<lparr>seq := sq\<rparr>], operation_ids := ids_of (operations c @ [op])\<rparr>"
    and ps: "rasterize (op\<lparr>seq := sq\<rparr>) (raster.truncate c) = Some ((raster.truncate c)\<lparr>pixels := ps\<rparr>)"
      "length ps = length (pixels c)" by auto
  with inv show ?thesis
    by (auto simp: canvas_inv_def c' each_append raster_ok_def blank_def)
qed

lemma canvas_apply_total: "canvas_inv c \<Longrightarrow> \<exists>r. canvas_apply op c = Some r"
  using canvas_apply_known canvas_apply_new by (cases "known op c") blast+

text \<open>The pixels are a function of the frame and the history.\<close>

lemma pixels_determined:
  assumes "canvas_inv c" and "canvas_inv d" and "operations c = operations d"
    and "width c = width d" "height c = height d" "background c = background d"
  shows "pixels c = pixels d"
proof -
  have "length (pixels c) = length (pixels d)"
    using assms by (simp add: canvas_inv_def raster_ok_def)
  then have "blank (raster.truncate c) = blank (raster.truncate d)"
    using assms(4-6) by (simp add: blank_def raster.truncate_def)
  then have "Some (raster.truncate c) = Some (raster.truncate d)"
    using assms(1-3) by (simp add: canvas_inv_def)
  then show ?thesis by (simp add: raster.truncate_def)
qed

end
