(* ===== verification/Op_Log.thy ===== *)
theory Op_Log
  imports Canvas_Lemmas
begin

text \<open>
  The contract between a canvas and the session code that replicates it: a log of numbered
  operations that can be appended to and replaced. The host numbers the operations, the members
  append them in that order; the lemmas say that a member's log stays a prefix of the host's,
  whatever is delivered twice, late or out of order.
\<close>

definition known_id :: "draw_operation \<Rightarrow> draw_operation list \<Rightarrow> bool" where
  "known_id op ops \<longleftrightarrow> operation_id op \<noteq> 0 \<and> operation_id op \<in> ids_of ops"

definition next_after :: "u32 \<Rightarrow> u32 \<Rightarrow> u32" where
  "next_after n sq = (if n \<le> sq then sq + 1 else n)"

text \<open>The operations of a log are numbered 1, 2, 3, and so on, and \<open>n\<close> is the next number.\<close>

definition numbered :: "draw_operation list \<Rightarrow> u32 \<Rightarrow> bool" where
  "numbered ops n \<longleftrightarrow> (\<forall>i < length ops. unat (seq (ops ! i)) = Suc i) \<and> unat n = Suc (length ops)"

text \<open>No two operations of a log share a nonzero id.\<close>

definition distinct_ids :: "draw_operation list \<Rightarrow> bool" where
  "distinct_ids ops \<longleftrightarrow> distinct (filter (\<lambda>i. i \<noteq> 0) (map operation_id ops))"

locale op_log =
  fixes inv :: "'s \<Rightarrow> bool"
    and log :: "'s \<Rightarrow> draw_operation list"
    and nextseq :: "'s \<Rightarrow> u32"
    and append_op :: "draw_operation \<Rightarrow> 's \<Rightarrow> (u32 \<times> 's) option"
    and load_log :: "draw_operation list \<Rightarrow> 's \<Rightarrow> 's option"
  assumes append_known: "inv s \<Longrightarrow> known_id op (log s) \<Longrightarrow>
      \<exists>e \<in> set (log s). operation_id e = operation_id op \<and> append_op op s = Some (seq e, s)"
    and append_new: "inv s \<Longrightarrow> \<not> known_id op (log s) \<Longrightarrow>
      sq = (if seq op = 0 then nextseq s else seq op) \<Longrightarrow>
      \<exists>s'. append_op op s = Some (sq, s') \<and> inv s' \<and> log s' = log s @ [op\<lparr>seq := sq\<rparr>] \<and>
        nextseq s' = next_after (nextseq s) sq"
    and load_all: "inv s \<Longrightarrow>
      \<exists>s'. load_log ops s = Some s' \<and> inv s' \<and> log s' = ops \<and>
        nextseq s' = fold (\<lambda>op n. max n (seq op + 1)) ops 1"
begin

lemma append_total: "inv s \<Longrightarrow> \<exists>sq s'. append_op op s = Some (sq, s') \<and> inv s'"
  using append_known [of s op] append_new [of s op] by (cases "known_id op (log s)") auto

lemma append_idem:
  assumes "inv s" and "operation_id op \<noteq> 0" and "append_op op s = Some (sq, s')"
  shows "append_op op s' = Some (sq, s')"
proof (cases "known_id op (log s)")
  case True
  from append_known [OF assms(1) True] assms(3) show ?thesis by auto
next
  case False
  from append_new [OF assms(1) False refl] assms(3) have
    inv: "inv s'" and log: "log s' = log s @ [op\<lparr>seq := sq\<rparr>]" by auto
  have known: "known_id op (log s')" using assms(2) by (simp add: known_id_def log)
  from append_known [OF inv known] obtain e where e: "e \<in> set (log s')"
    "operation_id e = operation_id op" "append_op op s' = Some (seq e, s')" by blast
  have "e = op\<lparr>seq := sq\<rparr>"
    using e(1,2) False assms(2) by (auto simp: log known_id_def ids_of_def image_iff)
  with e(3) show ?thesis by simp
qed

lemma host_append:
  assumes "inv s" and "numbered (log s) (nextseq s)" and "seq op = 0" and "\<not> known_id op (log s)"
    and "length (log s) + 2 < 2 ^ 32"
  shows "\<exists>s'. append_op op s = Some (nextseq s, s') \<and> inv s' \<and>
    log s' = log s @ [op\<lparr>seq := nextseq s\<rparr>] \<and> numbered (log s') (nextseq s')"
proof -
  from append_new [OF assms(1,4) refl] assms(3) obtain s' where
    s': "append_op op s = Some (nextseq s, s')" "inv s'" "log s' = log s @ [op\<lparr>seq := nextseq s\<rparr>]"
      "nextseq s' = nextseq s + 1" by (auto simp: next_after_def)
  have "unat (nextseq s + 1) = Suc (Suc (length (log s)))"
    using assms(2,5) by (simp add: numbered_def unat_word_ariths)
  then have "numbered (log s') (nextseq s')"
    using assms(2) s'(3,4) by (auto simp: numbered_def nth_append less_Suc_eq)
  with s' show ?thesis by blast
qed

lemma member_append:
  assumes "inv s" and host: "numbered ops n" "distinct_ids ops" and "op \<in> set ops"
    and log: "log s = take k ops" "k \<le> length ops" "numbered (log s) (nextseq s)"
    and "seq op = nextseq s"
  shows "\<exists>s'. append_op op s = Some (seq op, s') \<and> inv s' \<and> log s' = take (Suc k) ops \<and>
    Suc k \<le> length ops \<and> numbered (log s') (nextseq s')"
proof -
  have next_eq: "unat (nextseq s) = Suc k" using log by (simp add: numbered_def)
  obtain i where i: "i < length ops" "op = ops ! i" using assms(4) by (auto simp: in_set_conv_nth)
  have "unat (seq op) = Suc i" using host(1) i by (simp add: numbered_def)
  with next_eq assms(8) have ik: "i = k" by simp
  have k: "k < length ops" "op = ops ! k" using i ik by simp_all
  have take: "take (Suc k) ops = take k ops @ [op]" using k by (simp add: take_Suc_conv_app_nth)
  have fresh: "\<not> known_id op (log s)"
  proof
    assume known: "known_id op (log s)"
    have "distinct_ids (take k ops @ [op] @ drop (Suc k) ops)"
      using host(2) k by (simp add: id_take_nth_drop [symmetric])
    with known show False
      by (auto simp: known_id_def log(1) ids_of_def distinct_ids_def image_iff)
  qed
  have nz: "seq op \<noteq> 0" using \<open>unat (seq op) = Suc i\<close> by auto
  from append_new [OF assms(1) fresh refl] nz assms(8) obtain s' where
    s': "append_op op s = Some (seq op, s')" "inv s'" "log s' = log s @ [op\<lparr>seq := seq op\<rparr>]"
      "nextseq s' = nextseq s + 1" by (auto simp: next_after_def)
  have log': "log s' = take (Suc k) ops" using s'(3) log(1) take by simp
  have "unat n < 2 ^ 32" using unsigned_less [of n] by simp
  then have "unat (nextseq s + 1) = Suc (Suc k)"
    using next_eq host(1) k(1) by (simp add: numbered_def unat_word_ariths)
  then have "numbered (log s') (nextseq s')"
    using host(1) k(1) s'(4) log' by (auto simp: numbered_def)
  with s' log' k show ?thesis by auto
qed

lemma load_numbered:
  assumes "inv s" and "numbered ops n"
  shows "\<exists>s'. load_log ops s = Some s' \<and> inv s' \<and> log s' = ops \<and> nextseq s' = n"
proof -
  have "unat n < 2 ^ 32" using unsigned_less [of n] by simp
  have word_of_nat_unat: "word_of_nat (unat v) = v" for v :: u32 by simp
  have *: "fold (\<lambda>op n. max n (seq op + 1)) (take j ops) 1 = word_of_nat (Suc j)" if "j \<le> length ops" for j
    using that
  proof (induction j)
    case 0
    then show ?case by simp
  next
    case (Suc j)
    define w :: u32 where "w = word_of_nat (Suc j)"
    have "unat (seq (ops ! j)) = Suc j" using assms(2) Suc.prems by (simp add: numbered_def)
    then have sq: "seq (ops ! j) = w" unfolding w_def by (metis word_of_nat_unat)
    have "Suc (Suc j) < 2 ^ 32"
      using Suc.prems assms(2) \<open>unat n < 2 ^ 32\<close> by (simp add: numbered_def)
    then have "w \<le> w + 1" by (simp add: w_def word_le_nat_alt unat_word_ariths unat_of_nat)
    then have "max w (w + 1) = w + 1" by (simp add: max_def)
    moreover have "fold (\<lambda>op n. max n (seq op + 1)) (take j ops) 1 = w"
      using Suc by (simp add: w_def)
    moreover have "take (Suc j) ops = take j ops @ [ops ! j]"
      using Suc.prems by (simp add: take_Suc_conv_app_nth)
    ultimately have "fold (\<lambda>op n. max n (seq op + 1)) (take (Suc j) ops) 1 = w + 1"
      by (simp add: sq)
    also have "w + 1 = word_of_nat (Suc (Suc j))" by (simp add: w_def)
    finally show ?case .
  qed
  have "fold (\<lambda>op n. max n (seq op + 1)) ops 1 = n"
  proof -
    have "word_of_nat (unat n) = n" by (rule word_of_nat_unat)
    moreover have "unat n = Suc (length ops)" using assms(2) unfolding numbered_def by blast
    ultimately have "n = word_of_nat (Suc (length ops))" by simp
    with * [OF order_refl] show ?thesis by (simp only: take_all order_refl)
  qed
  with load_all [OF assms(1), of ops] show ?thesis by auto
qed

end

text \<open>The canvas provides it.\<close>

interpretation canvas_log: op_log canvas_inv operations next_seq canvas_apply canvas_load
proof
  fix c op
  assume "canvas_inv c" "known_id op (operations c)"
  then show "\<exists>e \<in> set (operations c). operation_id e = operation_id op \<and> canvas_apply op c = Some (seq e, c)"
    by (intro canvas_apply_known) (simp add: known_id_def known_def)
next
  fix c op sq
  assume a: "canvas_inv c" "\<not> known_id op (operations c)" "sq = (if seq op = 0 then next_seq c else seq op)"
  then have new: "\<not> known op c" and sq: "sq = sequence_of op c"
    by (simp_all add: known_id_def known_def sequence_of_def)
  from canvas_apply_new [OF a(1) new] canvas_apply_inv [OF a(1)] sq
  show "\<exists>c'. canvas_apply op c = Some (sq, c') \<and> canvas_inv c' \<and>
      operations c' = operations c @ [op\<lparr>seq := sq\<rparr>] \<and> next_seq c' = next_after (next_seq c) sq"
    by (auto simp: next_after_def)
next
  fix c ops
  assume "canvas_inv c"
  then have ok: "raster_ok (raster.truncate c)" by (simp add: canvas_inv_def)
  from canvas_load_run [OF ok, of ops] canvas_load_inv [OF ok, of ops]
  show "\<exists>c'. canvas_load ops c = Some c' \<and> canvas_inv c' \<and> operations c' = ops \<and>
      next_seq c' = fold (\<lambda>op n. max n (seq op + 1)) ops 1"
    by auto
qed

end
