(* ===== verification/Canvas_Properties.thy ===== *)
theory Canvas_Properties
  imports Op_Log
begin

text \<open>
  What the canvas promises: drawing never leaves the pixel buffer, the bucket fill is exact, the
  picture is a function of the history, and applying an operation twice does nothing more. And two
  limits: the sequence counter and the distance test of the input.
\<close>

section \<open>Samples\<close>

text \<open>A 3 by 2 canvas, white but for a black pixel at the end of each row.\<close>

definition sample_raster :: raster where
  "sample_raster =
     \<lparr>width = 3, height = 2, background = 0xFFFFFFFF,
      pixels = [0xFFFFFFFF, 0xFF000000, 0xFFFFFFFF, 0xFFFFFFFF, 0xFF000000, 0xFFFFFFFF]\<rparr>"

definition sample_fill :: draw_operation where
  "sample_fill =
     \<lparr>operation_id = 9, seq = 0, member_id = 1, tool = tool_bucket_fill, color = 0xFF0000FF,
      thickness = 2, points = [\<lparr>pt_x = 0, pt_y = 0\<rparr>, \<lparr>pt_x = 0, pt_y = 0\<rparr>]\<rparr>"

definition sample_canvas :: canvas where
  "sample_canvas = canvas_create 3 2 0xFFFFFFFF empty_canvas"

lemma sample_raster_ok: "raster_ok sample_raster"
  by (simp add: raster_ok_def sample_raster_def)

lemma sample_canvas_inv: "canvas_inv sample_canvas"
  unfolding sample_canvas_def by (rule canvas_inv_create) simp_all

lemma sample_canvas_simps [simp]:
  "operations sample_canvas = []" "next_seq sample_canvas = 1" "width sample_canvas = 3"
  "height sample_canvas = 2" "background sample_canvas = 0xFFFFFFFF"
  by (simp_all add: sample_canvas_def canvas_create_def empty_canvas_def)

section \<open>Drawing\<close>

text \<open>C5: on a canvas whose buffer has its size, of at most 65536 by 65536 pixels, every
  operation with any tool, colour, thickness and points is drawn: no index leaves the buffer, no
  integer overflows, no cast is out of range, every loop ends; and only pixels change, never their
  number.\<close>

theorem rasterize_safe:
  assumes "raster_ok r"
  shows "\<exists>ps. rasterize op r = Some (r\<lparr>pixels := ps\<rparr>) \<and> length ps = length (pixels r)"
  using rasterize_drawn [OF assms, of op] by (auto simp: drawn_def framed_def)

lemma rasterize_safe_witness:
  "\<exists>ps. rasterize sample_fill sample_raster = Some (sample_raster\<lparr>pixels := ps\<rparr>) \<and>
    length ps = length (pixels sample_raster)"
  by (rule rasterize_safe [OF sample_raster_ok, of sample_fill])

text \<open>C9: the bucket fill returns, and it recolours exactly the pixels connected to the start by
  horizontal and vertical steps through pixels of the start's colour.\<close>

theorem bucket_fill_exact:
  assumes "raster_ok r" and "inside r (x, y)" and "pixel r (x, y) \<noteq> color op"
  shows "\<exists>r'. bucket_fill op x y r = Some r' \<and> width r' = width r \<and> height r' = height r \<and>
    (\<forall>p. inside r p \<longrightarrow> pixel r' p = (if p \<in> fill_region r (x, y) then color op else pixel r p))"
  using bucket_fill_run [OF assms(1,2), of op] assms(3)
  by (auto simp: fill_result_def framed_sel)

lemma bucket_fill_exact_witness:
  "\<exists>r'. bucket_fill sample_fill 0 0 sample_raster = Some r' \<and>
    pixel r' (0, 0) = 0xFF0000FF \<and> pixel r' (0, 1) = 0xFF0000FF"
proof -
  have neq: "pixel sample_raster (0, 0) \<noteq> color sample_fill"
    by (simp add: pixel.simps sample_raster_def sample_fill_def)
  have in0: "inside sample_raster (0, 0)" "inside sample_raster (0, 1)"
    by (simp_all add: inside.simps sample_raster_def)
  have "(0, 1) \<in> fill_region sample_raster (0, 0)"
    by (rule fill_region.spread [OF fill_region.start])
      (simp_all add: inside.simps pixel.simps sample_raster_def)
  with bucket_fill_exact [OF sample_raster_ok in0(1) neq] in0 fill_region.start
  show ?thesis by (auto simp: sample_fill_def)
qed

text \<open>Single precision holds every byte, so the rounding of the blend does not show at its ends.\<close>

lemma u8_float: "to_float (uint (b :: u8)) = of_int (uint b)"
proof -
  have "uint b < 256" using uint_lt2p [of b] by simp
  then have "\<bar>uint b\<bar> < 2 ^ 24" by simp
  from fl_of_int(1) [OF this] show ?thesis by (simp only: to_float_def)
qed

lemma u8_clamp: "float_to_u8 (clamp (of_int (uint (b :: u8))) 0 255) = Some b"
proof -
  have le: "uint b < 256" "0 \<le> uint b" using uint_lt2p [of b] by simp_all
  then have "(0 :: rat) \<le> of_int (uint b)" "(of_int (uint b) :: rat) \<le> 255" by linarith+
  then have "clamp (of_int (uint b)) 0 255 = of_int (uint b)" by (simp add: clamp_def del: of_int_uint)
  moreover have "word_of_int (uint b) = b" by simp
  ultimately show ?thesis
    using le by (simp add: float_to_u8_def Let_def trunc_of_int del: of_int_uint)
qed

lemma fl32_u8 [simp]: "fl32 (of_int (uint (b :: u8))) = of_int (uint b)"
  using u8_float [of b] by (simp only: to_float_def)

lemma channel_opaque: "blend_channel dst src 1 = Some src"
  by (simp add: blend_channel_def u8_float u8_clamp del: of_int_uint)

lemma low_byte: "ucast (v AND 0xFF) = (ucast v :: u8)" for v :: u32
proof (rule bit_word_eqI)
  fix n assume "n < LENGTH(8)"
  moreover have "bit (v AND mask 8) n \<longleftrightarrow> bit v n \<and> n < 8" by (auto simp: bit_simps)
  moreover have "mask 8 = (0xFF :: u32)" by (simp add: mask_eq_exp_minus_1)
  ultimately show "bit (ucast (v AND 0xFF) :: u8) n = bit (ucast v :: u8) n" by (simp add: bit_ucast_iff)
qed

lemma float_to_u8_255: "float_to_u8 (clamp 255 0 255) = Some 255"
  using u8_clamp [of 255] by simp

text \<open>blending is exact where it matters: an uncovered pixel, or one under a transparent
  colour, stays as it is, and a fully covered pixel under an opaque colour takes that colour,
  whatever it was before: single-precision rounding does not show.\<close>

theorem alpha_blend_ends:
  assumes "coverage \<le> 0 \<or> drop_bit 24 src = 0 \<or> 1 \<le> coverage \<and> drop_bit 24 src = 0xFF"
  shows "alpha_blend_over dst src coverage =
    Some (if coverage \<le> 0 \<or> drop_bit 24 src = 0 then dst else src)"
proof (cases "coverage \<le> 0 \<or> drop_bit 24 src = 0")
  case True
  then show ?thesis by (auto simp: alpha_blend_over_def)
next
  case False
  with assms have a: "1 \<le> coverage" "drop_bit 24 src = 0xFF" by auto
  then have "clamp coverage 0 1 = 1" by (simp add: clamp_def)
  moreover have "to_float (uint (255 :: u8)) = 255" using u8_float [of 255] by simp
  moreover have "(ucast (drop_bit 24 src) :: u8) = 255" using a by simp
  ultimately show ?thesis
    using a join32 [of src]
    by (simp add: alpha_blend_over_def low_byte Let_def channel_opaque float_to_u8_255)
qed

lemma alpha_blend_ends_witness:
  "alpha_blend_over 0x12345678 0xFF0000C8 1 = Some 0xFF0000C8"
  using alpha_blend_ends [of 1 "0xFF0000C8" "0x12345678"]
  by (simp add: drop_bit_eq_div)

section \<open>The history\<close>

text \<open>The calls that change a canvas, in any order.\<close>

datatype canvas_call =
    Call_Create u32 u32 u32
  | Call_Clear
  | Call_Apply draw_operation
  | Call_Load "draw_operation list"

definition canvas_call_run :: "canvas_call \<Rightarrow> canvas \<Rightarrow> canvas option" where
  "canvas_call_run call c =
     (case call of
        Call_Create w h bg \<Rightarrow> Some (canvas_create w h bg c)
      | Call_Clear \<Rightarrow> Some (clear_history c)
      | Call_Apply op \<Rightarrow> map_option snd (canvas_apply op c)
      | Call_Load ops \<Rightarrow> canvas_load ops c)"

fun small_call :: "canvas_call \<Rightarrow> bool" where
  "small_call (Call_Create w h bg) \<longleftrightarrow> unat w \<le> 65536 \<and> unat h \<le> 65536"
| "small_call _ \<longleftrightarrow> True"

lemma canvas_call_inv:
  assumes "canvas_inv c" and "small_call call"
  shows "\<exists>c'. canvas_call_run call c = Some c' \<and> canvas_inv c'"
proof (cases call)
  case (Call_Apply op)
  with canvas_log.append_total [OF assms(1), of op] show ?thesis
    by (auto simp: canvas_call_run_def)
next
  case (Call_Load ops)
  with canvas_log.load_all [OF assms(1), of ops] show ?thesis by (auto simp: canvas_call_run_def)
qed (use assms in \<open>auto simp: canvas_call_run_def intro: canvas_inv_create canvas_inv_clear\<close>)

lemma canvas_inv_empty: "canvas_inv empty_canvas"
  by (simp add: canvas_inv_def empty_canvas_def raster_ok_def blank_def raster.truncate_def)

text \<open>whatever is created, cleared, drawn and loaded, in any order, every call on the canvas
  returns, the buffer keeps the canvas's size, the index of operation ids holds exactly the nonzero
  ids of the history, and the pixels are the history drawn on a blank canvas.\<close>

theorem canvas_calls_keep_inv:
  assumes "list_all small_call calls"
  shows "\<exists>c. each canvas_call_run calls empty_canvas = Some c \<and> canvas_inv c"
proof -
  have "\<exists>c'. each canvas_call_run calls c = Some c' \<and> canvas_inv c'" if "canvas_inv c" for c
    using assms that
  proof (induction calls arbitrary: c)
    case (Cons call calls)
    from canvas_call_inv [OF Cons.prems(2), of call] Cons.prems(1) obtain c1 where
      "canvas_call_run call c = Some c1" "canvas_inv c1" by auto
    with Cons.IH [of c1] Cons.prems(1) show ?case by simp
  qed simp
  with canvas_inv_empty show ?thesis by blast
qed

lemma canvas_calls_keep_inv_witness:
  "\<exists>c. each canvas_call_run [Call_Create 3 2 0xFFFFFFFF, Call_Apply sample_fill, Call_Clear,
      Call_Load [sample_fill\<lparr>seq := 1\<rparr>]] empty_canvas = Some c \<and> canvas_inv c"
  by (rule canvas_calls_keep_inv) simp

text \<open>a member that loads a snapshot of the host's history gets the host's history and,
  when the two canvases have the same size and background, the host's picture, pixel by pixel.\<close>

theorem snapshot_transfers_picture:
  assumes "canvas_inv host" and "canvas_inv guest"
    and "width guest = width host" "height guest = height host" "background guest = background host"
  shows "\<exists>guest'. canvas_load (snapshot host) guest = Some guest' \<and>
    snapshot guest' = snapshot host \<and> copy_pixels guest' = copy_pixels host"
proof -
  have ok: "raster_ok (raster.truncate guest)" using assms(2) by (simp add: canvas_inv_def)
  from canvas_load_run [OF ok, of "snapshot host"] obtain g where
    g: "canvas_load (snapshot host) guest = Some g" "operations g = operations host"
      "width g = width guest" "height g = height guest" "background g = background guest"
    by (auto simp: snapshot_def)
  have "canvas_inv g" by (rule canvas_load_inv [OF ok g(1)])
  with g assms have "pixels g = pixels host" by (intro pixels_determined) simp_all
  with g show ?thesis by (simp add: snapshot_def copy_pixels_def)
qed

lemma snapshot_transfers_picture_witness:
  "\<exists>guest'. canvas_load (snapshot sample_canvas) sample_canvas = Some guest' \<and>
    snapshot guest' = snapshot sample_canvas \<and> copy_pixels guest' = copy_pixels sample_canvas"
  by (rule snapshot_transfers_picture) (simp_all add: sample_canvas_inv)

text \<open>an operation with an id is applied once: applying it again, as when it is delivered
  twice, changes nothing and answers the sequence number of the first time.\<close>

theorem canvas_apply_once:
  assumes "canvas_inv c" and "operation_id op \<noteq> 0" and "canvas_apply op c = Some (sq, c')"
  shows "canvas_apply op c' = Some (sq, c')"
  by (rule canvas_log.append_idem [OF assms])

lemma canvas_apply_once_witness:
  "\<exists>sq c. canvas_apply sample_fill sample_canvas = Some (sq, c) \<and>
    canvas_apply sample_fill c = Some (sq, c)"
proof -
  obtain sq c where c: "canvas_apply sample_fill sample_canvas = Some (sq, c)"
    using canvas_log.append_total [OF sample_canvas_inv, of sample_fill] by blast
  moreover have "canvas_apply sample_fill c = Some (sq, c)"
    by (rule canvas_apply_once [OF sample_canvas_inv _ c]) (simp add: sample_fill_def)
  ultimately show ?thesis by blast
qed

text \<open>the number of a new operation is the next one of the canvas, unless the operation
  brings its own; the counter then stands one above it, and wraps to zero after the number
  0xFFFFFFFF, which any member may send: from then on operations are numbered zero, the mark of an
  operation without a number.\<close>

theorem canvas_apply_numbers:
  assumes "canvas_inv c" and "\<not> contains_operation (operation_id op) c"
    and "seq op \<noteq> 0 \<Longrightarrow> next_sequence c \<le> seq op"
  shows "\<exists>c'. canvas_apply op c = Some (if seq op = 0 then next_sequence c else seq op, c') \<and>
    next_sequence c' = (if seq op = 0 then next_sequence c else seq op) + 1 \<and>
    length (snapshot c') = length (snapshot c) + 1"
proof -
  have new: "\<not> known_id op (operations c)"
    using assms(1,2) by (auto simp: contains_operation_def known_id_def canvas_inv_def)
  from canvas_log.append_new [OF assms(1) new refl] assms(3) show ?thesis
    by (auto simp: next_sequence_def snapshot_def next_after_def)
qed

lemma canvas_apply_numbers_witness:
  "\<exists>c'. canvas_apply (sample_fill\<lparr>seq := 0xFFFFFFFF\<rparr>) sample_canvas = Some (0xFFFFFFFF, c') \<and>
    next_sequence c' = 0"
proof -
  have "\<not> contains_operation 9 sample_canvas"
    by (simp add: contains_operation_def sample_canvas_def canvas_create_def)
  with canvas_apply_numbers [OF sample_canvas_inv, of "sample_fill\<lparr>seq := 0xFFFFFFFF\<rparr>"]
  show ?thesis by (auto simp: sample_fill_def next_sequence_def)
qed

section \<open>Input\<close>

text \<open>the distance test of a freehand stroke overflows \<open>int\<close>, undefined behaviour, exactly
  when the squared distance from the last point reaches two to the 31. The positions are normalised
  to 0..65535, so a mouse that crosses about 70 percent of the canvas between two frames does
  it.\<close>

theorem extend_points_overflows_iff:
  assumes "active \<in> {tool_freehand, tool_eraser, tool_brush}" and "ps \<noteq> []"
  shows "extend_points active pos ps = None \<longleftrightarrow>
    2 ^ 31 \<le> (uint (pt_x pos) - uint (pt_x (last ps))) ^ 2 + (uint (pt_y pos) - uint (pt_y (last ps))) ^ 2"
proof -
  have sq: "i32 (a * a) = (if a * a < 2 ^ 31 then Some (a * a) else None)" for a
    using zero_le_square [of a] by (auto simp: i32_def intro: order_trans [of _ 0])
  have add: "i32 (a * a + b * b) = (if a * a + b * b < 2 ^ 31 then Some (a * a + b * b) else None)" for a b
    using zero_le_square [of a] zero_le_square [of b]
    by (auto simp: i32_def intro: order_trans [of _ 0])
  have ge: "0 \<le> a * a" for a :: int by (rule zero_le_square)
  define dx where "dx = uint (pt_x pos) - uint (pt_x (last ps))"
  define dy where "dy = uint (pt_y pos) - uint (pt_y (last ps))"
  have lt: "dx * dx + dy * dy < 2147483648 \<Longrightarrow> dx * dx < 2147483648"
      "dx * dx + dy * dy < 2147483648 \<Longrightarrow> dy * dy < 2147483648"
    using ge [of dx] ge [of dy] by linarith+
  have "extend_points active pos ps =
      (if dx * dx + dy * dy < 2 ^ 31 then Some (if dx * dx + dy * dy \<ge> 32 * 32 then ps @ [pos] else ps)
       else None)"
    using assms lt
    by (auto simp: extend_points_def sq add Let_def dx_def [symmetric] dy_def [symmetric])
  then show ?thesis by (simp add: dx_def [symmetric] dy_def [symmetric] power2_eq_square not_less)
qed

lemma extend_points_overflows_iff_witness:
  "extend_points tool_freehand \<lparr>pt_x = 65535, pt_y = 65535\<rparr> [\<lparr>pt_x = 0, pt_y = 0\<rparr>] = None"
  using extend_points_overflows_iff [of tool_freehand "[\<lparr>pt_x = 0, pt_y = 0\<rparr>]"
    "\<lparr>pt_x = 65535, pt_y = 65535\<rparr>"] by simp

end
