(* ===== verification/Sketch_File.thy ===== *)
theory Sketch_File
  imports Op_Log
begin

text \<open>
  Drawings on disk: the file format that \<open>engine/file/file_manager.cpp\<close> writes and
  \<open>engine/ui/ui.cpp\<close> (\<open>load_binary_replay\<close>, \<open>read_saved_seq\<close>) reads, the
  auto-save writer of \<open>engine/persistence\<close>, and the file manager.

  A disk maps paths to contents (and to absolute paths, for a status line). Opening for writing succeeds on the paths the disk says are
  writable; a write to an open file succeeds (disks that fill up are not modelled). The writer
  thread drains its queue at moments the scheduler chooses; \<open>writer_drain\<close> is one round of
  its loop, and stopping the writer is a last round. The answers of the file dialogs are arguments.
\<close>

section \<open>The file format\<close>

abbreviation (input) SKSY_MAGIC :: bytes where "SKSY_MAGIC \<equiv> [0x53, 0x4B, 0x53, 0x59]"
abbreviation (input) SKSY_VERSION :: bytes where "SKSY_VERSION \<equiv> [0, 0, 0, 1]"
abbreviation (input) SKSY_RESERVED :: bytes where "SKSY_RESERVED \<equiv> [0, 0, 0, 0]"

definition seq_field :: "u32 \<Rightarrow> bytes option" where
  "seq_field v = do { (buf, off) \<leftarrow> write32 (replicate 4 0) 0 v; Some buf }"

definition write_header :: "u32 \<Rightarrow> bytes option" where
  "write_header v = do {
     seq_buf \<leftarrow> seq_field v;
     Some (SKSY_MAGIC @ SKSY_VERSION @ seq_buf @ SKSY_RESERVED) }"

definition write_record :: "draw_operation \<Rightarrow> bytes \<Rightarrow> bytes option" where
  "write_record op file = do {
     payload \<leftarrow> serializeDrawOperation op;
     length_prefix \<leftarrow> seq_field (word_of_nat (length payload));
     Some (file @ length_prefix @ payload) }"

definition max_sequence :: "draw_operation list \<Rightarrow> u32" where
  "max_sequence ops = fold (\<lambda>op m. if seq op > m then seq op else m) ops 0"

definition save_content :: "draw_operation list \<Rightarrow> bytes option" where
  "save_content ops = do {
     file \<leftarrow> write_header (max_sequence ops);
     each write_record ops file }"

text \<open>\<open>std::to_string\<close>.\<close>

fun to_string :: "nat \<Rightarrow> string" where
  "to_string n =
     (if n < 10 then [char_of (48 + n)] else to_string (n div 10) @ [char_of (48 + n mod 10)])"

declare to_string.simps [simp del]

text \<open>The loop over the records: an error text, or the operations and the offset it stopped at.\<close>

function load_records ::
  "bytes \<Rightarrow> nat \<Rightarrow> draw_operation list \<Rightarrow> (string + draw_operation list \<times> nat) option"
where
  "load_records data off acc =
     (if off + 4 \<le> length data then
        (case read32 data off of
           None \<Rightarrow> None
         | Some (op_len, off') \<Rightarrow>
             if off' + unat op_len > length data then Some (Inl ''Truncated draw log'')
             else do {
               body \<leftarrow> subspan data off' (unat op_len);
               op_res \<leftarrow> parseDrawOperation body;
               if \<not> ok op_res then Some (Inl (message op_res))
               else load_records data (off' + unat op_len) (acc @ [val op_res]) })
      else Some (Inr (acc, off)))"
  by pat_completeness auto
termination
  by (relation "measure (\<lambda>(data, off, acc). length data - off)")
    (auto simp: read32_def split: if_split_asm)

declare load_records.simps [simp del]

text \<open>The contents of the file, if it can be opened; the result, canvas, status and saved number.\<close>

definition load_binary_replay ::
  "bytes option \<Rightarrow> canvas \<Rightarrow> u32 \<Rightarrow> (bool \<times> canvas \<times> string \<times> u32) option"
where
  "load_binary_replay file surface saved_seq =
     (case file of
        None \<Rightarrow> Some (False, surface, ''Failed to open file'', saved_seq)
      | Some data \<Rightarrow>
          if length data < 16 \<or> take 4 data \<noteq> SKSY_MAGIC
          then Some (False, surface, ''Invalid or unsupported SketchSync file format'', 0)
          else do {
            (_, off) \<leftarrow> read32 data 4;
            (saved_seq, off) \<leftarrow> read32 data off;
            (_, off) \<leftarrow> read32 data off;
            loaded \<leftarrow> load_records data 16 [];
            case loaded of
              Inl text \<Rightarrow> Some (False, surface, text, saved_seq)
            | Inr (ops, offset) \<Rightarrow>
                if offset \<noteq> length data
                then Some (False, surface, ''Unexpected trailing bytes'', saved_seq)
                else do {
                  surface \<leftarrow> canvas_load ops surface;
                  Some (True, surface, ''Loaded '' @ to_string (length ops) @ '' draw ops'', saved_seq) } })"

definition read_saved_seq :: "bytes option \<Rightarrow> u32 option" where
  "read_saved_seq file =
     (case file of
        None \<Rightarrow> Some 0
      | Some data \<Rightarrow>
          if length data < 16 then Some 0
          else if take 4 data = SKSY_MAGIC then do { (v, off) \<leftarrow> read32 data 8; Some v }
          else Some 0)"

section \<open>The auto-save writer\<close>

record disk =
  contents :: "string \<Rightarrow> bytes option"
  writable :: "string \<Rightarrow> bool"
  absolute :: "string \<Rightarrow> string option"

record persistence_writer =
  file_path :: string
  start_after_seq :: u32
  saved_seq :: u32
  queue :: "draw_operation list"
  failed :: bool

definition write_file :: "string \<Rightarrow> bytes \<Rightarrow> disk \<Rightarrow> disk" where
  "write_file path data d = d\<lparr>contents := (contents d)(path \<mapsto> data)\<rparr>"

text \<open>
  The constructor and the head of \<open>run\<close>: a missing or empty file gets a header; the file must
  then exist and be writable.
\<close>

definition writer_start :: "string \<Rightarrow> u32 \<Rightarrow> disk \<Rightarrow> (persistence_writer \<times> disk) option" where
  "writer_start path start d = do {
     hdr \<leftarrow> write_header start;
     let d = (if contents d path \<in> {None, Some []} \<and> writable d path then write_file path hdr d else d);
     Some (\<lparr>file_path = path, start_after_seq = start, saved_seq = start, queue = [],
             failed = (contents d path = None \<or> \<not> writable d path)\<rparr>, d) }"

definition writer_enqueue :: "draw_operation \<Rightarrow> persistence_writer \<Rightarrow> persistence_writer" where
  "writer_enqueue op w = w\<lparr>queue := queue w @ [op]\<rparr>"

text \<open>Seek to offset 8 and write four bytes; a gap before them is filled with zeros.\<close>

definition update_header_seq :: "u32 \<Rightarrow> bytes \<Rightarrow> bytes option" where
  "update_header_seq v data = do {
     buf \<leftarrow> seq_field v;
     let data = data @ replicate (8 - length data) 0;
     Some (take 8 data @ buf @ drop 12 data) }"

text \<open>The inner loop of \<open>run\<close>: the file, the saved number and whether anything was written.\<close>

fun drain_queue :: "u32 \<Rightarrow> draw_operation list \<Rightarrow> bytes \<times> u32 \<times> bool \<Rightarrow> (bytes \<times> u32 \<times> bool) option" where
  "drain_queue start [] st = Some st"
| "drain_queue start (op # ops) (file, saved, wrote_any) =
     (if seq op > start then do {
        file \<leftarrow> write_record op file;
        drain_queue start ops (file, if seq op > saved then seq op else saved, True) }
      else drain_queue start ops (file, saved, wrote_any))"

definition writer_drain :: "persistence_writer \<Rightarrow> disk \<Rightarrow> (persistence_writer \<times> disk) option" where
  "writer_drain w d =
     (case contents d (file_path w) of
        None \<Rightarrow> Some (w, d)
      | Some file \<Rightarrow>
          if failed w then Some (w, d)
          else do {
            (file, saved, wrote_any) \<leftarrow> drain_queue (start_after_seq w) (queue w) (file, saved_seq w, False);
            file \<leftarrow> (if wrote_any then update_header_seq saved file else Some file);
            Some (w\<lparr>queue := [], saved_seq := saved\<rparr>, write_file (file_path w) file d) })"

definition writer_stop :: "persistence_writer \<Rightarrow> disk \<Rightarrow> disk option" where
  "writer_stop w d = do {
     (w, d) \<leftarrow> writer_drain w d;
     case contents d (file_path w) of
       None \<Rightarrow> Some d
     | Some file \<Rightarrow>
         if failed w then Some d
         else do {
           file \<leftarrow> update_header_seq (saved_seq w) file;
           Some (write_file (file_path w) file d) } }"

section \<open>The file manager\<close>

record file_manager =
  current_file :: string
  auto_save_on :: bool
  file_saved_seq :: u32
  operation_log :: "persistence_writer option"
  canvas_synced_pending :: bool

definition new_file_manager :: file_manager where
  "new_file_manager =
     \<lparr>current_file = ''untitled'', auto_save_on = False, file_saved_seq = 0, operation_log = None,
      canvas_synced_pending = False\<rparr>"

definition is_untitled :: "file_manager \<Rightarrow> bool" where
  "is_untitled fm \<longleftrightarrow> current_file fm = ''untitled''"

text \<open>\<open>std::filesystem::path::extension\<close> with the separators of Windows.\<close>

definition filename :: "string \<Rightarrow> string" where
  "filename path = rev (takeWhile (\<lambda>c. c \<noteq> CHR ''/'' \<and> c \<noteq> CHR 0x5C) (rev path))"

definition path_extension :: "string \<Rightarrow> string" where
  "path_extension path =
     (let name = filename path; suffix = rev (takeWhile (\<lambda>c. c \<noteq> CHR ''.'') (rev name)) in
      if name = ''..'' \<or> length suffix + 1 \<ge> length name then [] else CHR ''.'' # suffix)"

definition close_auto_save :: "file_manager \<Rightarrow> disk \<Rightarrow> (file_manager \<times> disk) option" where
  "close_auto_save fm d =
     (case operation_log fm of
        None \<Rightarrow> Some (fm, d)
      | Some w \<Rightarrow> do { d \<leftarrow> writer_stop w d; Some (fm\<lparr>operation_log := None\<rparr>, d) })"

definition start_auto_save :: "string \<Rightarrow> file_manager \<Rightarrow> disk \<Rightarrow> (file_manager \<times> disk) option" where
  "start_auto_save path fm d = do {
     (w, d) \<leftarrow> writer_start path (file_saved_seq fm) d;
     Some (fm\<lparr>operation_log := Some w\<rparr>, d) }"

text \<open>Each call also gives the status line it sets, if any.\<close>

definition save_to_file ::
  "string \<Rightarrow> canvas \<Rightarrow> file_manager \<Rightarrow> disk \<Rightarrow> (string option \<times> file_manager \<times> disk) option"
where
  "save_to_file path surface fm d = do {
     let save_path = (if path_extension path \<noteq> ''.sketchsync'' then path @ ''.sketchsync'' else path);
     let was_auto_save = auto_save_on fm;
     (fm, d) \<leftarrow> (if was_auto_save then close_auto_save fm d else Some (fm, d));
     if \<not> writable d save_path then do {
       (fm, d) \<leftarrow> (if was_auto_save then start_auto_save save_path fm d else Some (fm, d));
       Some (Some (''Failed to save '' @ (case absolute d save_path of None \<Rightarrow> save_path | Some p \<Rightarrow> p)), fm, d) }
     else do {
       let ops = snapshot surface;
       file \<leftarrow> save_content ops;
       let d = write_file save_path file d;
       let fm = fm\<lparr>file_saved_seq := max_sequence ops, current_file := save_path\<rparr>;
       (fm, d) \<leftarrow> (if was_auto_save then start_auto_save save_path fm d else Some (fm, d));
       Some (Some ''Saved canvas state'', fm, d) } }"

definition save_as ::
  "string option \<Rightarrow> canvas \<Rightarrow> file_manager \<Rightarrow> disk \<Rightarrow> (string option \<times> file_manager \<times> disk) option"
where
  "save_as chosen surface fm d =
     (case chosen of
        None \<Rightarrow> Some (None, fm, d)
      | Some path \<Rightarrow> save_to_file path surface fm d)"

definition open_and_load ::
  "string option \<Rightarrow> canvas \<Rightarrow> file_manager \<Rightarrow> disk \<Rightarrow>
    (string option \<times> canvas \<times> file_manager \<times> disk) option"
where
  "open_and_load chosen surface fm d =
     (case chosen of
        None \<Rightarrow> Some (None, surface, fm, d)
      | Some path \<Rightarrow> do {
          (loaded, surface, load_status, saved) \<leftarrow> load_binary_replay (contents d path) surface 0;
          if \<not> loaded then Some (Some load_status, surface, fm, d)
          else do {
            let fm = fm\<lparr>current_file := path, file_saved_seq := saved\<rparr>;
            (fm, d) \<leftarrow> close_auto_save fm d;
            (fm, d) \<leftarrow> (if auto_save_on fm then start_auto_save path fm d else Some (fm, d));
            Some (Some load_status, surface, fm, d) } })"

definition enqueue_if_auto_save :: "draw_operation \<Rightarrow> file_manager \<Rightarrow> file_manager" where
  "enqueue_if_auto_save op fm =
     (case operation_log fm of
        None \<Rightarrow> fm
      | Some w \<Rightarrow> fm\<lparr>operation_log := Some (writer_enqueue op w)\<rparr>)"

definition toggle_auto_save ::
  "string option \<Rightarrow> canvas \<Rightarrow> file_manager \<Rightarrow> disk \<Rightarrow> (string option \<times> file_manager \<times> disk) option"
where
  "toggle_auto_save chosen surface fm d =
     (if auto_save_on fm then do {
        (fm, d) \<leftarrow> close_auto_save (fm\<lparr>auto_save_on := False\<rparr>) d;
        Some (Some ''Auto-Save disabled'', fm, d) }
      else do {
        (status, fm, d) \<leftarrow>
          (if is_untitled fm then do {
             (status, fm, d) \<leftarrow> save_as chosen surface fm d;
             Some (case status of None \<Rightarrow> Some ''Save the file first to enable Auto-Save'' | _ \<Rightarrow> status, fm, d) }
           else Some (None, fm, d));
        if is_untitled fm then Some (status, fm, d)
        else do {
          let fm = fm\<lparr>auto_save_on := True\<rparr>;
          saved \<leftarrow> read_saved_seq (contents d (current_file fm));
          let fm = fm\<lparr>file_saved_seq := saved\<rparr>;
          (fm, d) \<leftarrow> start_auto_save (current_file fm) fm d;
          let fm = fold (\<lambda>op fm. if seq op > file_saved_seq fm then enqueue_if_auto_save op fm else fm)
            (snapshot surface) fm;
          Some (Some ''Auto-Save enabled'', fm, d) } })"

definition mark_synced_for_save :: "file_manager \<Rightarrow> file_manager" where
  "mark_synced_for_save fm =
     (if auto_save_on fm \<and> \<not> is_untitled fm then fm\<lparr>canvas_synced_pending := True\<rparr> else fm)"

definition consume_synced_save :: "file_manager \<Rightarrow> bool \<times> file_manager" where
  "consume_synced_save fm = (canvas_synced_pending fm, fm\<lparr>canvas_synced_pending := False\<rparr>)"

end
