(* ===== verification/File_Lemmas.thy ===== *)
theory File_Lemmas
  imports Sketch_File
begin

text \<open>
  The file format as an image: what a save writes, what the auto-save writer makes of a file, and
  what the loader reads back.
\<close>

definition file_image :: "u32 \<Rightarrow> draw_operation list \<Rightarrow> bytes" where
  "file_image v ops = SKSY_MAGIC @ SKSY_VERSION @ be32 v @ SKSY_RESERVED @ records_image ops"

lemma length_file_image: "length (file_image v ops) = 16 + length (records_image ops)"
  by (simp add: file_image_def)

lemma seq_field_eq: "seq_field v = Some (be32 v)"
  unfolding seq_field_def wbuf_start by (simp add: wire_simps)

lemma write_header_eq: "write_header v = Some (file_image v [])"
  by (simp add: write_header_def seq_field_eq file_image_def)

lemma write_record_eq: "points_fit op \<Longrightarrow> write_record op file = Some (file @ record_image op)"
  by (simp add: write_record_def serializeDrawOperation_image seq_field_eq record_image_def)

lemma write_records_eq:
  "list_all points_fit ops \<Longrightarrow> each write_record ops buf = Some (buf @ records_image ops)"
  by (induction ops arbitrary: buf) (simp_all add: write_record_eq record_image_def)

lemma save_content_eq:
  "list_all points_fit ops \<Longrightarrow> save_content ops = Some (file_image (max_sequence ops) ops)"
  by (simp add: save_content_def write_header_eq write_records_eq file_image_def)

section \<open>Loading\<close>

lemma load_records_image:
  "list_all points_fit ops \<Longrightarrow> off = length d \<Longrightarrow>
    load_records (d @ records_image ops) off acc =
      Some (Inr (acc @ ops, off + length (records_image ops)))"
proof (induction ops arbitrary: d off acc)
  case Nil
  then show ?case by (simp add: load_records.simps)
next
  case (Cons op ops)
  let ?len = "word_of_nat (length (draw_image op)) :: u32"
  have fit: "points_fit op" "list_all points_fit ops" using Cons.prems by simp_all
  have parse: "parseDrawOperation (draw_image op) = Some (success op)"
    using parseDrawOperation_image [OF fit(1), of "[]"] by simp
  from Cons.IH [OF fit(2), of _ "d @ be32 ?len @ draw_image op" "acc @ [op]"]
  have IH: "load_records (d @ be32 ?len @ draw_image op @ records_image ops)
      (length d + (4 + length (draw_image op))) (acc @ [op]) =
      Some (Inr ((acc @ [op]) @ ops, length d + (4 + length (draw_image op)) + length (records_image ops)))"
    by (simp add: add.assoc del: length_draw_image)
  show ?case
    using Cons.prems(2) fit(1) parse IH
    by (subst load_records.simps)
      (simp add: wire_simps unat_image_length add.assoc del: length_draw_image)
qed

lemma load_records_total: "\<exists>r. load_records data off acc = Some r"
proof (induction data off acc rule: load_records.induct)
  case (1 data off acc)
  show ?case
  proof (cases "off + 4 \<le> length data")
    case False
    then show ?thesis by (simp add: load_records.simps)
  next
    case True
    then obtain n where n: "read32 data off = Some (n, off + 4)"
      using read_total(3) [of off data] by auto
    show ?thesis
    proof (cases "off + 4 + unat n > length data")
      case long: True
      with True n show ?thesis by (simp add: load_records.simps)
    next
      case fits: False
      then obtain body where body: "subspan data (off + 4) (unat n) = Some body"
        by (simp add: subspan_def)
      obtain r where r: "parseDrawOperation body = Some r" using parseDrawOperation_total by blast
      show ?thesis
      proof (cases "ok r")
        case False
        with True n fits body r show ?thesis by (simp add: load_records.simps)
      next
        case okr: True
        have "\<exists>x. load_records data (off + 4 + unat n) (acc @ [val r]) = Some x"
          using 1 True n fits body r okr by auto
        with True n fits body r okr show ?thesis by (subst load_records.simps) simp
      qed
    qed
  qed
qed

lemma header_reads:
  assumes "16 \<le> length data"
  shows "\<exists>a b c. read32 data 4 = Some (a, 8) \<and> read32 data 8 = Some (b, 12) \<and> read32 data 12 = Some (c, 16)"
  using read_total(3) [of 4 data] read_total(3) [of 8 data] read_total(3) [of 12 data] assms by auto

lemma load_binary_replay_total:
  assumes "raster_ok (raster.truncate surface)"
  shows "load_binary_replay f surface v \<noteq> None"
proof (cases f)
  case None
  then show ?thesis by (simp add: load_binary_replay_def)
next
  case (Some data)
  show ?thesis
  proof (cases "length data < 16 \<or> take 4 data \<noteq> SKSY_MAGIC")
    case True
    with Some show ?thesis by (simp add: load_binary_replay_def)
  next
    case False
    obtain a b c where reads: "read32 data 4 = Some (a, 8)" "read32 data 8 = Some (b, 12)"
      "read32 data 12 = Some (c, 16)" using header_reads [of data] False by auto
    obtain r where r: "load_records data 16 [] = Some r" using load_records_total by blast
    show ?thesis
    proof (cases r)
      case (Inl reason)
      with Some False reads r show ?thesis by (simp add: load_binary_replay_def)
    next
      case (Inr x)
      obtain ops off where x: "x = (ops, off)" by (cases x)
      obtain s' where "canvas_load ops surface = Some s'" using canvas_load_run [OF assms] by blast
      with Some False reads r Inr x show ?thesis by (simp add: load_binary_replay_def ex_bool_eq)
    qed
  qed
qed

text \<open>A refused file leaves the canvas alone; an accepted one is loaded into it.\<close>

lemma load_binary_replay_cases:
  assumes "canvas_inv c" and "load_binary_replay f c v = Some (loaded, c', reason, sq)"
  shows "\<not> loaded \<and> c' = c \<or> loaded \<and> canvas_inv c' \<and>
    reason = ''Loaded '' @ to_string (length (snapshot c')) @ '' draw ops''"
proof (cases f)
  case (Some data)
  show ?thesis
  proof (cases "length data < 16 \<or> take 4 data \<noteq> SKSY_MAGIC")
    case True
    with Some assms(2) show ?thesis by (simp add: load_binary_replay_def split: if_split_asm)
  next
    case False
    obtain a b e where reads: "read32 data 4 = Some (a, 8)" "read32 data 8 = Some (b, 12)"
      "read32 data 12 = Some (e, 16)" using header_reads [of data] False by auto
    obtain r where r: "load_records data 16 [] = Some r" using load_records_total by blast
    show ?thesis
    proof (cases r)
      case (Inl msg)
      with Some False reads r assms(2) show ?thesis by (simp add: load_binary_replay_def)
    next
      case (Inr x)
      obtain ops off where x: "x = (ops, off)" by (cases x)
      obtain s' where s': "canvas_load ops c = Some s'" "canvas_inv s'" "operations s' = ops"
        using canvas_log.load_all [OF assms(1), of ops] by blast
      with Some False reads r Inr x assms(2) show ?thesis
        by (cases "off = length data")
          (auto simp: load_binary_replay_def snapshot_def)
    qed
  qed
qed (use assms(2) in \<open>simp add: load_binary_replay_def\<close>)

lemma file_image_reads:
  "take 4 (file_image v ops) = SKSY_MAGIC"
  "read32 (file_image v ops) 4 = Some (1, 8)"
  "read32 (file_image v ops) 8 = Some (v, 12)"
  "read32 (file_image v ops) 12 = Some (0, 16)"
proof -
  have be: "be32 1 = SKSY_VERSION" "be32 0 = SKSY_RESERVED" by (simp_all add: be32_def)
  have "take 4 (drop 4 (file_image v ops)) = be32 1" "take 4 (drop 8 (file_image v ops)) = be32 v"
    "take 4 (drop 12 (file_image v ops)) = be32 0"
    unfolding be by (simp_all add: file_image_def)
  from this [THEN read_slice(3)]
  show "read32 (file_image v ops) 4 = Some (1, 8)" "read32 (file_image v ops) 8 = Some (v, 12)"
    "read32 (file_image v ops) 12 = Some (0, 16)" by simp_all
  show "take 4 (file_image v ops) = SKSY_MAGIC" by (simp add: file_image_def)
qed

lemma load_file_image:
  assumes "list_all points_fit ops" and "canvas_load ops surface = Some surface'"
  shows "load_binary_replay (Some (file_image v ops)) surface s =
    Some (True, surface', ''Loaded '' @ to_string (length ops) @ '' draw ops'', v)"
proof -
  let ?h = "SKSY_MAGIC @ SKSY_VERSION @ be32 v @ SKSY_RESERVED"
  have "load_records (?h @ records_image ops) 16 [] = Some (Inr (ops, 16 + length (records_image ops)))"
    using load_records_image [OF assms(1), of 16 ?h "[]"] by simp
  then have "load_records (file_image v ops) 16 [] = Some (Inr (ops, length (file_image v ops)))"
    by (simp add: file_image_def)
  with assms(2) show ?thesis
    by (simp add: load_binary_replay_def file_image_reads length_file_image)
qed

lemma read_saved_seq_image: "read_saved_seq (Some (file_image v ops)) = Some v"
  by (simp add: read_saved_seq_def file_image_reads length_file_image)

section \<open>The auto-save writer\<close>

definition to_write :: "u32 \<Rightarrow> draw_operation list \<Rightarrow> draw_operation list" where
  "to_write start ops = filter (\<lambda>op. seq op > start) ops"

definition raise_seq :: "draw_operation list \<Rightarrow> u32 \<Rightarrow> u32" where
  "raise_seq ops m = fold (\<lambda>op m. if seq op > m then seq op else m) ops m"

lemma drain_queue_eq:
  "list_all points_fit ops \<Longrightarrow>
    drain_queue start ops (buf, saved, wrote) =
      Some (buf @ records_image (to_write start ops), raise_seq (to_write start ops) saved,
        wrote \<or> to_write start ops \<noteq> [])"
  by (induction ops arbitrary: buf saved wrote)
    (simp_all add: to_write_def raise_seq_def write_record_eq record_image_def)

lemma update_header_image:
  "update_header_seq v (file_image w ops) = Some (file_image v ops)"
  by (simp add: update_header_seq_def seq_field_eq file_image_def)

lemma raise_seq_append: "raise_seq (xs @ ys) m = raise_seq ys (raise_seq xs m)"
  by (simp add: raise_seq_def)

lemma max_sequence_raise: "max_sequence ops = raise_seq ops 0"
  by (simp add: max_sequence_def raise_seq_def)

text \<open>A writer whose file holds \<open>ops\<close> and has the header number of the writer.\<close>

definition writes_to :: "persistence_writer \<Rightarrow> draw_operation list \<Rightarrow> disk \<Rightarrow> bool" where
  "writes_to w ops d \<longleftrightarrow> \<not> failed w \<and> contents d (file_path w) = Some (file_image (saved_seq w) ops) \<and>
     list_all points_fit (queue w)"

lemma writer_drain_eq:
  assumes "writes_to w ops d"
  defines "new \<equiv> to_write (start_after_seq w) (queue w)"
  defines "w' \<equiv> w\<lparr>queue := [], saved_seq := raise_seq new (saved_seq w)\<rparr>"
  shows "writer_drain w d =
      Some (w', write_file (file_path w) (file_image (saved_seq w') (ops @ new)) d)"
    and "writes_to w' (ops @ new) (write_file (file_path w) (file_image (saved_seq w') (ops @ new)) d)"
proof -
  have stored: "contents d (file_path w) = Some (file_image (saved_seq w) ops)" and "\<not> failed w"
    and fit: "list_all points_fit (queue w)" using assms(1) by (simp_all add: writes_to_def)
  have join: "file_image v xs @ records_image ys = file_image v (xs @ ys)" for v xs ys
    by (simp add: file_image_def)
  have same: "new = [] \<Longrightarrow> raise_seq new (saved_seq w) = saved_seq w" by (simp add: raise_seq_def)
  show "writer_drain w d =
      Some (w', write_file (file_path w) (file_image (saved_seq w') (ops @ new)) d)"
    using stored \<open>\<not> failed w\<close> same
    by (cases "new = []")
      (simp_all add: writer_drain_def drain_queue_eq [OF fit] new_def [symmetric] join
        update_header_image w'_def)
  show "writes_to w' (ops @ new) (write_file (file_path w) (file_image (saved_seq w') (ops @ new)) d)"
    using \<open>\<not> failed w\<close> by (simp add: writes_to_def write_file_def w'_def)
qed

lemma writer_stop_eq:
  assumes "writes_to w ops d"
  defines "new \<equiv> to_write (start_after_seq w) (queue w)"
  shows "writer_stop w d = Some (write_file (file_path w)
    (file_image (raise_seq new (saved_seq w)) (ops @ new)) d)"
proof -
  define w' where "w' = w\<lparr>queue := [], saved_seq := raise_seq new (saved_seq w)\<rparr>"
  define d' where "d' = write_file (file_path w) (file_image (saved_seq w') (ops @ new)) d"
  have drain: "writer_drain w d = Some (w', d')"
    using writer_drain_eq(1) [OF assms(1)] by (simp add: new_def w'_def d'_def)
  have "contents d' (file_path w') = Some (file_image (saved_seq w') (ops @ new))" "\<not> failed w'"
    using assms(1) by (simp_all add: d'_def w'_def write_file_def writes_to_def)
  with drain show ?thesis
    by (simp add: writer_stop_def update_header_image) (simp add: d'_def w'_def write_file_def)
qed

section \<open>Any schedule of the writer thread\<close>

text \<open>Operations are queued and the thread drains its queue at any moments.\<close>

datatype writer_event = Enqueue draw_operation | Drain

fun writer_run :: "writer_event list \<Rightarrow> persistence_writer \<times> disk \<Rightarrow> (persistence_writer \<times> disk) option" where
  "writer_run [] (w, d) = Some (w, d)"
| "writer_run (Enqueue op # es) (w, d) = writer_run es (writer_enqueue op w, d)"
| "writer_run (Drain # es) (w, d) = do { (w, d) \<leftarrow> writer_drain w d; writer_run es (w, d) }"

fun enqueued :: "writer_event list \<Rightarrow> draw_operation list" where
  "enqueued [] = []"
| "enqueued (Enqueue op # es) = op # enqueued es"
| "enqueued (Drain # es) = enqueued es"

lemma to_write_append [simp]: "to_write n (xs @ ys) = to_write n xs @ to_write n ys"
  by (simp add: to_write_def)

lemma write_file_twice [simp]: "write_file p x (write_file p y d) = write_file p x d"
  by (simp add: write_file_def)

lemma write_file_simps [simp]:
  "contents (write_file p x d) q = (if q = p then Some x else contents d q)"
  "writable (write_file p x d) = writable d"
  by (simp_all add: write_file_def)

text \<open>Whatever the schedule, stopping the writer leaves one and the same file.\<close>

lemma writer_run_stop:
  assumes "writes_to w ops d" and "list_all points_fit (enqueued es)"
  defines "new \<equiv> to_write (start_after_seq w) (queue w @ enqueued es)"
  shows "\<exists>w' d'. writer_run es (w, d) = Some (w', d') \<and>
    writer_stop w' d' =
      Some (write_file (file_path w) (file_image (raise_seq new (saved_seq w)) (ops @ new)) d)"
  using assms(1,2) unfolding new_def
proof (induction es "(w, d)" arbitrary: w d ops rule: writer_run.induct)
  case (1 w d)
  then show ?case using writer_stop_eq [OF "1.prems"(1)] by simp
next
  case (2 op es w d)
  have "writes_to (writer_enqueue op w) ops d"
    using 2 by (simp add: writes_to_def writer_enqueue_def)
  from "2.hyps" [OF this] 2(3) show ?case by (simp add: writer_enqueue_def)
next
  case (3 es w d)
  note drain = writer_drain_eq [OF "3.prems"(1)]
  from "3.hyps" [OF drain(1) refl drain(2)] 3(3) drain(1) show ?case
    by (simp add: raise_seq_append)
qed

section \<open>Numbered histories\<close>

lemma numbered_simps:
  assumes "numbered ops n"
  shows "unat (max_sequence ops) = length ops"
    and "k \<le> length ops \<Longrightarrow> numbered (take k ops) (max_sequence (take k ops) + 1)"
    and "k \<le> length ops \<Longrightarrow> to_write (max_sequence (take k ops)) ops = drop k ops"
proof -
  have num: "\<And>i. i < length ops \<Longrightarrow> unat (seq (ops ! i)) = Suc i" and "unat n = Suc (length ops)"
    using assms by (simp_all add: numbered_def)
  moreover have "unat n < 2 ^ 32" using unsigned_less [of n] by simp
  ultimately have small: "Suc (length ops) < 2 ^ 32" by simp
  have step: "max_sequence (take (Suc j) ops) = (if seq (ops ! j) > max_sequence (take j ops)
      then seq (ops ! j) else max_sequence (take j ops))" if "j < length ops" for j
    using that by (simp add: max_sequence_def take_Suc_conv_app_nth)
  have max: "unat (max_sequence (take j ops)) = j" if "j \<le> length ops" for j
    using that
  proof (induction j)
    case 0
    then show ?case by (simp add: max_sequence_def)
  next
    case (Suc j)
    then show ?case using num [of j] step [of j] by (simp add: word_less_nat_alt)
  qed
  from max [of "length ops"] show "unat (max_sequence ops) = length ops" by simp
  assume k: "k \<le> length ops"
  then have "unat (max_sequence (take k ops) + 1) = Suc k"
    using max [OF k] small by (simp add: unat_word_ariths)
  with k num show "numbered (take k ops) (max_sequence (take k ops) + 1)"
    by (simp add: numbered_def)
  have "filter (\<lambda>op. seq op > max_sequence (take k ops)) (take k ops) = []"
    using num max [OF k] by (auto simp: filter_empty_conv in_set_conv_nth word_less_nat_alt)
  moreover have "filter (\<lambda>op. seq op > max_sequence (take k ops)) (drop k ops) = drop k ops"
    using num max [OF k] by (auto simp: filter_id_conv in_set_conv_nth word_less_nat_alt)
  ultimately show "to_write (max_sequence (take k ops)) ops = drop k ops"
    unfolding to_write_def by (metis append_Nil append_take_drop_id filter_append)
qed

lemma raise_seq_max: "raise_seq ys (max_sequence xs) = max_sequence (xs @ ys)"
  by (simp add: max_sequence_raise raise_seq_append)

lemma fold_enqueue:
  assumes "operation_log fm = Some w"
  shows "fold (\<lambda>op fm. if seq op > file_saved_seq fm then enqueue_if_auto_save op fm else fm) ops fm =
    fm\<lparr>operation_log := Some (w\<lparr>queue := queue w @ to_write (file_saved_seq fm) ops\<rparr>)\<rparr>"
  using assms
proof (induction ops arbitrary: fm w)
  case Nil
  then show ?case by (cases fm; cases w) (simp add: to_write_def)
next
  case (Cons op ops)
  show ?case
  proof (cases "seq op > file_saved_seq fm")
    case True
    with Cons.IH [of "enqueue_if_auto_save op fm" "writer_enqueue op w"] Cons.prems show ?thesis
      by (simp add: enqueue_if_auto_save_def writer_enqueue_def to_write_def)
  next
    case False
    with Cons show ?thesis by (simp add: to_write_def)
  qed
qed

end
