(* ===== verification/File_Properties.thy ===== *)
theory File_Properties
  imports File_Lemmas Canvas_Properties
begin

text \<open>
  What the files promise: a saved drawing loads back as it was, any bytes are read without leaving
  the buffer and a refused file changes nothing, and the auto-save writer ends with the file that
  saving the whole history would have written.
\<close>

section \<open>Samples\<close>

definition sample_disk :: disk where
  "sample_disk = \<lparr>contents = (\<lambda>_. None), writable = (\<lambda>_. True), absolute = (\<lambda>_. None)\<rparr>"

definition sample_stroke1 :: draw_operation where
  "sample_stroke1 =
     \<lparr>operation_id = 1, seq = 1, member_id = 0, tool = tool_line, color = 0xFF000000, thickness = 2,
      points = [\<lparr>pt_x = 0, pt_y = 0\<rparr>, \<lparr>pt_x = 40000, pt_y = 40000\<rparr>]\<rparr>"

definition sample_stroke2 :: draw_operation where
  "sample_stroke2 = sample_stroke1\<lparr>operation_id := 2, seq := 2, tool := tool_rect\<rparr>"

section \<open>Save and load\<close>

definition save_path_of :: "string \<Rightarrow> string" where
  "save_path_of path = (if path_extension path \<noteq> ''.sketchsync'' then path @ ''.sketchsync'' else path)"

lemma save_to_file_eq:
  assumes "list_all points_fit (snapshot c)" and "\<not> auto_save_on fm" and "writable d (save_path_of path)"
  shows "save_to_file path c fm d =
    Some (Some ''Saved canvas state'',
      fm\<lparr>file_saved_seq := max_sequence (snapshot c), current_file := save_path_of path\<rparr>,
      write_file (save_path_of path) (file_image (max_sequence (snapshot c)) (snapshot c)) d)"
  using assms by (simp add: save_to_file_def save_path_of_def [symmetric] Let_def save_content_eq)

text \<open>C18: a canvas that is saved and opened again, by another window of the same size, comes back
  with the same history and the same picture, and the file remembers its last number.\<close>

theorem save_then_open:
  assumes "canvas_inv c" and "list_all points_fit (snapshot c)"
    and "\<not> auto_save_on fm" and "writable d (save_path_of path)"
    and "canvas_inv c2" and "width c2 = width c" "height c2 = height c" "background c2 = background c"
    and "\<not> auto_save_on fm2" and "operation_log fm2 = None"
  shows "\<exists>status fm1 d1 status2 c' fm'. save_to_file path c fm d = Some (status, fm1, d1) \<and>
    open_and_load (Some (current_file fm1)) c2 fm2 d1 = Some (status2, c', fm', d1) \<and>
    snapshot c' = snapshot c \<and> copy_pixels c' = copy_pixels c \<and>
    file_saved_seq fm' = max_sequence (snapshot c) \<and> current_file fm' = current_file fm1"
proof -
  let ?d1 = "write_file (save_path_of path) (file_image (max_sequence (snapshot c)) (snapshot c)) d"
  obtain c' where load: "canvas_load (snapshot c) c2 = Some c'" and inv: "canvas_inv c'"
    and ops: "operations c' = operations c"
    using canvas_log.load_all [OF assms(5), of "snapshot c"] by (auto simp: snapshot_def)
  have "raster_ok (raster.truncate c2)" using assms(5) by (simp add: canvas_inv_def)
  then have frame: "width c' = width c2 \<and> height c' = height c2 \<and> background c' = background c2"
    using canvas_load_run [of c2 "snapshot c"] load by auto
  then have "pixels c' = pixels c" using inv assms(1,6-8) ops by (intro pixels_determined) simp_all
  moreover have "open_and_load (Some (save_path_of path)) c2 fm2 ?d1 =
      Some (Some (''Loaded '' @ to_string (length (snapshot c)) @ '' draw ops''), c',
        fm2\<lparr>current_file := save_path_of path, file_saved_seq := max_sequence (snapshot c)\<rparr>, ?d1)"
    using load_file_image [OF assms(2) load] assms(9,10)
    by (simp add: open_and_load_def write_file_def close_auto_save_def)
  ultimately show ?thesis
    using save_to_file_eq [OF assms(2-4)] ops by (auto simp: snapshot_def copy_pixels_def)
qed

lemma save_then_open_witness:
  "\<exists>status fm1 d1 status2 c' fm'.
    save_to_file ''cat'' sample_canvas new_file_manager sample_disk = Some (status, fm1, d1) \<and>
    open_and_load (Some (current_file fm1)) sample_canvas new_file_manager d1 = Some (status2, c', fm', d1) \<and>
    snapshot c' = snapshot sample_canvas \<and> copy_pixels c' = copy_pixels sample_canvas \<and>
    file_saved_seq fm' = max_sequence (snapshot sample_canvas) \<and> current_file fm' = current_file fm1"
  by (rule save_then_open)
    (simp_all add: sample_canvas_inv snapshot_def new_file_manager_def sample_disk_def)

text \<open>C27: any bytes at all are read without leaving the buffer: opening a file gives a status, and
  when it is not accepted the canvas, the file manager and the disk are as they were.\<close>

theorem open_any_file:
  assumes "canvas_inv c" and "\<not> auto_save_on fm" and "operation_log fm = None"
  shows "\<exists>status c' fm'. open_and_load (Some path) c fm d = Some (Some status, c', fm', d) \<and> canvas_inv c' \<and>
    (fm' = fm \<and> c' = c \<or> current_file fm' = path \<and> status = ''Loaded '' @ to_string (length (snapshot c')) @ '' draw ops'')"
proof -
  have ok: "raster_ok (raster.truncate c)" using assms(1) by (simp add: canvas_inv_def)
  obtain loaded c' status v where load: "load_binary_replay (contents d path) c 0 = Some (loaded, c', status, v)"
    using load_binary_replay_total [OF ok, of "contents d path" 0] by (metis not_Some_eq surj_pair)
  note cases = load_binary_replay_cases [OF assms(1) load]
  show ?thesis
  proof (cases loaded)
    case False
    with load cases assms show ?thesis by (simp add: open_and_load_def)
  next
    case True
    with load cases assms show ?thesis
      by (simp add: open_and_load_def close_auto_save_def)
  qed
qed

lemma open_any_file_witness:
  "\<exists>status c' fm'. open_and_load (Some ''cat'') sample_canvas new_file_manager
      (write_file ''cat'' [0x53, 0x4B, 0x53, 0x59, 1] sample_disk) =
    Some (Some status, c', fm', write_file ''cat'' [0x53, 0x4B, 0x53, 0x59, 1] sample_disk) \<and> canvas_inv c' \<and>
    (fm' = new_file_manager \<and> c' = sample_canvas \<or>
     current_file fm' = ''cat'' \<and> status = ''Loaded '' @ to_string (length (snapshot c')) @ '' draw ops'')"
  by (rule open_any_file) (simp_all add: sample_canvas_inv new_file_manager_def)

section \<open>Auto-save\<close>

text \<open>the auto-save file does not depend on when the writer thread runs: for any interleaving of
  queued operations and rounds of its loop, stopping it leaves the file with the queued operations
  above the starting number appended in order, and the highest number in the header.\<close>

theorem auto_save_any_schedule:
  assumes "writes_to w ops d" and "list_all points_fit (enqueued es)" and "queue w = []"
  shows "\<exists>w' d'. writer_run es (w, d) = Some (w', d') \<and>
    writer_stop w' d' = Some (write_file (file_path w)
      (file_image (raise_seq (to_write (start_after_seq w) (enqueued es)) (saved_seq w))
        (ops @ to_write (start_after_seq w) (enqueued es))) d)"
  using writer_run_stop [OF assms(1,2)] assms(3) by simp

lemma sample_writer:
  "writes_to \<lparr>file_path = ''f'', start_after_seq = 1, saved_seq = 1, queue = [], failed = False\<rparr>
    [sample_stroke1] (write_file ''f'' (file_image 1 [sample_stroke1]) sample_disk)"
  by (simp add: writes_to_def)

lemma sample_strokes_fit: "points_fit sample_stroke1" "points_fit sample_stroke2"
  by (simp_all add: points_fit_def sample_stroke1_def sample_stroke2_def)

lemma sample_strokes_seq: "seq sample_stroke1 = 1" "seq sample_stroke2 = 2"
  by (simp_all add: sample_stroke1_def sample_stroke2_def)

lemma auto_save_any_schedule_witness:
  "\<exists>w' d'. writer_run [Enqueue sample_stroke1, Drain, Enqueue sample_stroke2, Drain, Drain]
      (\<lparr>file_path = ''f'', start_after_seq = 1, saved_seq = 1, queue = [], failed = False\<rparr>,
       write_file ''f'' (file_image 1 [sample_stroke1]) sample_disk) = Some (w', d') \<and>
    writer_stop w' d' = Some (write_file ''f'' (file_image 2 [sample_stroke1, sample_stroke2]) sample_disk)"
  using auto_save_any_schedule [OF sample_writer,
      of "[Enqueue sample_stroke1, Drain, Enqueue sample_stroke2, Drain, Drain]"]
  by (simp add: sample_strokes_fit sample_strokes_seq to_write_def raise_seq_def del: writer_run.simps)

text \<open>C8: switching auto-save on for a file that holds the first part of a numbered history catches
  up with the rest, and when it is switched off after more operations the file is exactly the one
  that saving the whole history would write, whenever the writer thread ran.\<close>

theorem auto_save_catches_up:
  assumes "\<not> auto_save_on fm" and "\<not> is_untitled fm" and "writable d (current_file fm)"
    and "contents d (current_file fm) = save_content (take k (snapshot c))" and "k \<le> length (snapshot c)"
    and "numbered (snapshot c @ enqueued es) n" and "list_all points_fit (snapshot c @ enqueued es)"
  shows "\<exists>fm1 w w' d' fm2 d2. toggle_auto_save None c fm d = Some (Some ''Auto-Save enabled'', fm1, d) \<and>
    operation_log fm1 = Some w \<and> writer_run es (w, d) = Some (w', d') \<and>
    toggle_auto_save None c (fm1\<lparr>operation_log := Some w'\<rparr>) d' = Some (Some ''Auto-Save disabled'', fm2, d2) \<and>
    contents d2 (current_file fm) = save_content (snapshot c @ enqueued es)"
proof -
  let ?ops = "snapshot c" and ?m = "max_sequence (take k (snapshot c))" and ?f = "current_file fm"
  let ?all = "?ops @ enqueued es"
  have fits: "list_all points_fit (take k ?ops)" "list_all points_fit ?ops"
    using assms(7) by (auto simp: list_all_iff dest: in_set_takeD)
  have stored: "contents d ?f = Some (file_image ?m (take k ?ops))"
    using assms(4) save_content_eq [OF fits(1)] by simp
  then have "contents d ?f \<noteq> Some []" by (simp add: file_image_def)
  let ?w = "\<lparr>file_path = ?f, start_after_seq = ?m, saved_seq = ?m, queue = to_write ?m ?ops, failed = False\<rparr>"
  let ?fm1 = "fm\<lparr>auto_save_on := True, file_saved_seq := ?m, operation_log := Some ?w\<rparr>"
  have toggle: "toggle_auto_save None c fm d = Some (Some ''Auto-Save enabled'', ?fm1, d)"
    using assms(1-3) stored \<open>contents d ?f \<noteq> Some []\<close>
    by (cases fm) (simp add: toggle_auto_save_def is_untitled_def read_saved_seq_image start_auto_save_def
      writer_start_def write_header_eq fold_enqueue Let_def)
  have "list_all points_fit (to_write ?m ?ops)"
    using fits(2) by (auto simp: to_write_def list_all_iff)
  with stored have "writes_to ?w (take k ?ops) d" by (simp add: writes_to_def)
  from writer_run_stop [OF this, of es] assms(7) obtain w' d' where
    run: "writer_run es (?w, d) = Some (w', d')"
    and stop: "writer_stop w' d' = Some (write_file ?f (file_image
      (raise_seq (to_write ?m (to_write ?m ?ops @ enqueued es)) ?m)
      (take k ?ops @ to_write ?m (to_write ?m ?ops @ enqueued es))) d)" by auto
  have idem: "to_write ?m (to_write ?m ?ops @ enqueued es) = to_write ?m ?all"
    by (simp add: to_write_def)
  have "take k ?all = take k ?ops" using assms(5) by simp
  with numbered_simps(3) [OF assms(6), of k] assms(5) have "to_write ?m ?all = drop k ?all" by simp
  with idem have new: "to_write ?m (to_write ?m ?ops @ enqueued es) = drop k ?all" by simp
  have join: "take k ?ops @ drop k ?all = ?all" using assms(5) by simp
  have "writer_stop w' d' = Some (write_file ?f (file_image (max_sequence ?all) ?all) d)"
    using stop unfolding new raise_seq_max join .
  then have "toggle_auto_save None c (?fm1\<lparr>operation_log := Some w'\<rparr>) d' =
      Some (Some ''Auto-Save disabled'', ?fm1\<lparr>auto_save_on := False, operation_log := None\<rparr>,
        write_file ?f (file_image (max_sequence ?all) ?all) d)"
    by (simp add: toggle_auto_save_def close_auto_save_def)
  with toggle run save_content_eq [OF assms(7)] show ?thesis by force
qed

definition sample_file_manager :: file_manager where
  "sample_file_manager = new_file_manager\<lparr>current_file := ''f.sketchsync''\<rparr>"

definition sample_file_disk :: disk where
  "sample_file_disk = write_file ''f.sketchsync'' (file_image 0 []) sample_disk"

lemma auto_save_catches_up_witness:
  "\<exists>fm1 w w' d' fm2 d2. toggle_auto_save None sample_canvas sample_file_manager sample_file_disk =
      Some (Some ''Auto-Save enabled'', fm1, sample_file_disk) \<and>
    operation_log fm1 = Some w \<and>
    writer_run [Enqueue sample_stroke1, Drain, Enqueue sample_stroke2] (w, sample_file_disk) = Some (w', d') \<and>
    toggle_auto_save None sample_canvas (fm1\<lparr>operation_log := Some w'\<rparr>) d' =
      Some (Some ''Auto-Save disabled'', fm2, d2) \<and>
    contents d2 (current_file sample_file_manager) = save_content (snapshot sample_canvas @
      enqueued [Enqueue sample_stroke1, Drain, Enqueue sample_stroke2])"
proof (rule auto_save_catches_up [where k = 0 and n = 3])
  have "unat (1 :: u32) = 1" "unat (2 :: u32) = 2" "unat (3 :: u32) = 3" by simp_all
  then show "numbered (snapshot sample_canvas @ enqueued [Enqueue sample_stroke1, Drain, Enqueue sample_stroke2]) 3"
    by (simp add: numbered_def snapshot_def sample_stroke1_def sample_stroke2_def less_Suc_eq)
  show "contents sample_file_disk (current_file sample_file_manager) = save_content (take 0 (snapshot sample_canvas))"
    using save_content_eq [of "[]"] by (simp add: sample_file_disk_def sample_file_manager_def max_sequence_def)
qed (simp_all add: sample_file_disk_def sample_file_manager_def new_file_manager_def is_untitled_def
    sample_disk_def snapshot_def sample_strokes_fit)

section \<open>A save that fails\<close>

text \<open>A writer that cannot open its file does nothing at all.\<close>

lemma failed_writer_idle:
  assumes "failed w"
  shows "\<exists>w'. writer_run es (w, d) = Some (w', d) \<and> writer_stop w' d = Some d"
proof -
  have idle: "writer_drain w d = Some (w, d)" if "failed w" for w
    using that by (simp add: writer_drain_def split: option.split)
  have "\<exists>w'. writer_run es (w, d) = Some (w', d) \<and> failed w'"
    using assms
  proof (induction es arbitrary: w)
    case (Cons e es)
    have "failed (writer_enqueue op w)" for op using Cons.prems by (simp add: writer_enqueue_def)
    with Cons idle [OF Cons.prems] show ?case by (cases e) simp_all
  qed simp
  with idle show ?thesis by (fastforce simp: writer_stop_def split: option.split)
qed

lemma close_auto_save_keeps:
  assumes "close_auto_save fm d = Some (fm', d')"
  shows "auto_save_on fm' = auto_save_on fm \<and> current_file fm' = current_file fm \<and>
    file_saved_seq fm' = file_saved_seq fm \<and> writable d' = writable d"
  using assms
  by (auto simp: close_auto_save_def writer_stop_def writer_drain_def write_file_def
      split: option.split_asm if_split_asm elim!: bind_eq_SomeE)

text \<open>a save under a name that cannot be written ends the auto-save of the current file without
  saying so: the writer is started again for the name that failed. Auto-save is still shown as on
  and the current file is still the old one, but whatever is drawn from then on, and however the
  writer is scheduled, nothing more is written.\<close>

theorem failed_save_stops_auto_save:
  assumes "auto_save_on fm" and "\<not> writable d (save_path_of path)"
    and "close_auto_save fm d = Some (fm0, d0)"
  shows "\<exists>reason fm1 w1. save_as (Some path) c fm d = Some (Some reason, fm1, d0) \<and>
    auto_save_on fm1 \<and> current_file fm1 = current_file fm \<and> operation_log fm1 = Some w1 \<and>
    (\<forall>es. \<exists>w2. writer_run es (w1, d0) = Some (w2, d0) \<and> writer_stop w2 d0 = Some d0)"
proof -
  note kept = close_auto_save_keeps [OF assms(3)]
  obtain hdr where hdr: "write_header (file_saved_seq fm0) = Some hdr"
    using write_header_eq by blast
  let ?w = "\<lparr>file_path = save_path_of path, start_after_seq = file_saved_seq fm0,
    saved_seq = file_saved_seq fm0, queue = [], failed = True\<rparr>"
  have "start_auto_save (save_path_of path) fm0 d0 = Some (fm0\<lparr>operation_log := Some ?w\<rparr>, d0)"
    using kept assms(2) hdr by (simp add: start_auto_save_def writer_start_def)
  then have "\<exists>reason. save_as (Some path) c fm d = Some (Some reason, fm0\<lparr>operation_log := Some ?w\<rparr>, d0)"
    using assms kept by (simp add: save_as_def save_to_file_def save_path_of_def [symmetric] Let_def)
  moreover have "\<forall>es. \<exists>w2. writer_run es (?w, d0) = Some (w2, d0) \<and> writer_stop w2 d0 = Some d0"
    using failed_writer_idle [of ?w] by simp
  ultimately show ?thesis using kept assms(1) by auto
qed

lemma failed_save_stops_auto_save_witness:
  "\<exists>reason fm1. save_as (Some ''x'') empty_canvas (new_file_manager\<lparr>auto_save_on := True, current_file := ''a.sketchsync''\<rparr>)
      (sample_disk\<lparr>writable := (\<lambda>p. p = ''a.sketchsync'')\<rparr>) =
      Some (Some reason, fm1, sample_disk\<lparr>writable := (\<lambda>p. p = ''a.sketchsync'')\<rparr>) \<and> auto_save_on fm1 \<and>
    current_file fm1 = ''a.sketchsync''"
proof -
  let ?fm = "new_file_manager\<lparr>auto_save_on := True, current_file := ''a.sketchsync''\<rparr>"
  let ?d = "sample_disk\<lparr>writable := (\<lambda>p. p = ''a.sketchsync'')\<rparr>"
  have "auto_save_on ?fm" by simp
  moreover have "\<not> writable ?d (save_path_of ''x'')"
    by (simp add: save_path_of_def path_extension_def filename_def Let_def)
  moreover have "close_auto_save ?fm ?d = Some (?fm, ?d)"
    by (simp add: close_auto_save_def new_file_manager_def)
  ultimately show ?thesis using failed_save_stops_auto_save [of ?fm ?d "''x''" ?fm ?d empty_canvas] by auto
qed

end
