(* ===== verification/Server.thy ===== *)
theory Server
  imports Message
begin

text \<open>
  \<open>server/server.{h,cpp}\<close> and \<open>server/session/*.h\<close>: the relay server's sessions,
  members and connections, and its request handlers.

  A connection is a number that stands for the \<open>clientConnection\<close> on the stack of its
  client thread; \<open>connections\<close> maps member ids to such numbers, as the source maps them to
  pointers. \<open>wire\<close> is the sequence of sends the server has made (the source ignores
  their results). Logging is left out, and so is \<open>session::created_at\<close>, which is written
  once and never read. The \<open>members\<close> map of a session is iterated, so it is an association
  list; the iteration order of the source's \<open>unordered_map\<close> is unspecified and nothing
  below depends on it. \<open>None\<close> is undefined behaviour.
\<close>

section \<open>State\<close>

datatype member_role = participant | host

datatype session_state = session_open | session_locked | session_closed

record member =
  mem_id :: u32
  mem_name :: string
  mem_role :: member_role
  mem_session_id :: u32

record session =
  sess_id :: u32
  host_id :: u32
  sess_name :: string
  sess_state :: session_state
  members :: "(u32 \<times> member) list"

type_synonym conn = nat

record clientContext =
  ctx_member_id :: u32
  ctx_session_id :: u32

record server =
  sessions :: "u32 \<Rightarrow> session option"
  connections :: "u32 \<Rightarrow> conn option"
  next_session_id :: u32
  next_member_id :: u32
  tcp_port :: u16
  wire :: "(conn \<times> bytes) list"

definition initial_server :: "u16 \<Rightarrow> server" where
  "initial_server port =
     \<lparr>sessions = Map.empty, connections = Map.empty, next_session_id = 1, next_member_id = 1,
      tcp_port = port, wire = []\<rparr>"

definition initial_context :: clientContext where
  "initial_context = \<lparr>ctx_member_id = 0, ctx_session_id = 0\<rparr>"

definition is_host :: "session \<Rightarrow> u32 \<Rightarrow> bool" where
  "is_host sess i \<longleftrightarrow> i = host_id sess"

definition has_member :: "session \<Rightarrow> u32 \<Rightarrow> bool" where
  "has_member sess i \<longleftrightarrow> i \<in> fst ` set (members sess)"

text \<open>\<open>unordered_map::emplace\<close> keeps an existing entry; \<open>erase\<close> removes one if present.\<close>

definition emplace :: "u32 \<Rightarrow> 'a \<Rightarrow> (u32 \<times> 'a) list \<Rightarrow> (u32 \<times> 'a) list" where
  "emplace k v m = (if k \<in> fst ` set m then m else m @ [(k, v)])"

definition erase_key :: "u32 \<Rightarrow> (u32 \<times> 'a) list \<Rightarrow> (u32 \<times> 'a) list" where
  "erase_key k m = filter (\<lambda>(i, _). i \<noteq> k) m"

section \<open>Connections and sending\<close>

definition send :: "conn \<Rightarrow> bytes \<Rightarrow> server \<Rightarrow> server" where
  "send c buf s = s\<lparr>wire := wire s @ [(c, buf)]\<rparr>"

definition find_connection :: "server \<Rightarrow> u32 \<Rightarrow> conn option" where
  "find_connection s i = connections s i"

definition register_connection :: "u32 \<Rightarrow> conn \<Rightarrow> server \<Rightarrow> server" where
  "register_connection i c s = s\<lparr>connections := (connections s)(i \<mapsto> c)\<rparr>"

definition unregister_connection :: "u32 \<Rightarrow> server \<Rightarrow> server" where
  "unregister_connection i s = s\<lparr>connections := (connections s)(i := None)\<rparr>"

text \<open>A frame as every handler builds it: flags 0 and the payload's size as length.\<close>

definition make_frame :: "u8 \<Rightarrow> bytes \<Rightarrow> bytes option" where
  "make_frame oc p =
     serializeMessage
       \<lparr>header = \<lparr>opcode = oc, flags = 0, hdr_length = word_of_nat (length p)\<rparr>, payload = p\<rparr>"

fun send_each :: "u32 list \<Rightarrow> bytes \<Rightarrow> server \<Rightarrow> server" where
  "send_each [] buf s = s"
| "send_each (i # is) buf s =
     send_each is buf (case find_connection s i of Some c \<Rightarrow> send c buf s | None \<Rightarrow> s)"

definition sendNotification :: "session \<Rightarrow> u8 \<Rightarrow> bytes \<Rightarrow> u32 \<Rightarrow> server \<Rightarrow> server option" where
  "sendNotification sess oc p exclude_id s = do {
     let ids = filter (\<lambda>i. i \<noteq> exclude_id) (map fst (members sess));
     buf \<leftarrow> make_frame oc p;
     Some (send_each ids buf s) }"

definition sendAck :: "conn \<Rightarrow> u8 \<Rightarrow> string \<Rightarrow> server \<Rightarrow> server option" where
  "sendAck c code text s = do {
     p \<leftarrow> serializeAckMessage \<lparr>ack_code = code, ack_message = text\<rparr>;
     buf \<leftarrow> make_frame OP_ACK p;
     Some (send c buf s) }"

definition sendError :: "conn \<Rightarrow> u8 \<Rightarrow> string \<Rightarrow> server \<Rightarrow> server option" where
  "sendError c code text s = do {
     p \<leftarrow> serializeErrorMessage \<lparr>err_code = code, err_message = text\<rparr>;
     buf \<leftarrow> make_frame OP_ERROR_MSG p;
     Some (send c buf s) }"

section \<open>Membership\<close>

text \<open>
  The handlers report a refusal as \<open>{.value = false, .err = error::none, ...}\<close>: the
  error code of a refusal is \<open>none\<close>.
\<close>

definition refuse :: "string \<Rightarrow> bool result" where
  "refuse text = failure False none text"

definition handle_create ::
  "u32 \<Rightarrow> string \<Rightarrow> server \<Rightarrow> clientContext \<Rightarrow> bool result \<times> server \<times> clientContext"
where
  "handle_create sid name s ctx =
     (let mid = next_member_id s; s = s\<lparr>next_member_id := mid + 1\<rparr> in
      case sessions s sid of
        Some _ \<Rightarrow> (refuse ''session ID already exists'', s, ctx)
      | None \<Rightarrow>
          (let host_member = \<lparr>mem_id = mid, mem_name = name, mem_role = host, mem_session_id = sid\<rparr>;
               new_session = \<lparr>sess_id = sid, host_id = mid, sess_name = [],
                 sess_state = session_open, members = emplace mid host_member []\<rparr>
           in (success True, s\<lparr>sessions := (sessions s)(sid \<mapsto> new_session)\<rparr>,
               ctx\<lparr>ctx_member_id := mid, ctx_session_id := sid\<rparr>)))"

definition handle_join ::
  "u32 \<Rightarrow> string \<Rightarrow> server \<Rightarrow> clientContext \<Rightarrow> (bool result \<times> server \<times> clientContext) option"
where
  "handle_join sid name s ctx =
     (let mid = next_member_id s; s = s\<lparr>next_member_id := mid + 1\<rparr> in
      case sessions s sid of
        None \<Rightarrow> Some (refuse ''no such session'', s, ctx)
      | Some sess \<Rightarrow>
          if sess_state sess \<noteq> session_open then Some (refuse ''session is not open'', s, ctx)
          else
            (let new_member = \<lparr>mem_id = mid, mem_name = name, mem_role = participant,
                   mem_session_id = sid\<rparr>;
                 sess = sess\<lparr>members := emplace mid new_member (members sess)\<rparr>;
                 s = s\<lparr>sessions := (sessions s)(sid \<mapsto> sess)\<rparr>;
                 ctx = ctx\<lparr>ctx_member_id := mid, ctx_session_id := sid\<rparr>
             in do {
               p \<leftarrow> serializeMemberJoinedNotification
                 \<lparr>mj_notif_code = NOTIF_MEMBER_JOINED, mj_member_id = mid, mj_name = name\<rparr>;
               s \<leftarrow> sendNotification sess OP_NOTIFICATION p mid s;
               Some (success True, s, ctx) }))"

definition handle_leave ::
  "server \<Rightarrow> clientContext \<Rightarrow> (bool result \<times> server \<times> clientContext) option"
where
  "handle_leave s ctx =
     (if ctx_member_id ctx = 0 then Some (refuse ''not in a session'', s, ctx)
      else case sessions s (ctx_session_id ctx) of
        None \<Rightarrow> Some (refuse ''session not found'', s, ctx)
      | Some sess \<Rightarrow>
          (let was_host = is_host sess (ctx_member_id ctx);
               leaving_name = (case map_of (members sess) (ctx_member_id ctx) of
                 Some m \<Rightarrow> mem_name m | None \<Rightarrow> []);
               sess = sess\<lparr>members := erase_key (ctx_member_id ctx) (members sess)\<rparr>;
               session_empty = (members sess = []);
               leaving_id = ctx_member_id ctx;
               sid = ctx_session_id ctx;
               s = s\<lparr>sessions := (sessions s)(sid \<mapsto> sess)\<rparr>;
               ctx = ctx\<lparr>ctx_member_id := 0, ctx_session_id := 0\<rparr>
           in
           if was_host \<or> session_empty then do {
             p \<leftarrow> serializeSessionClosedNotification \<lparr>sc_notif_code = NOTIF_SESSION_CLOSED\<rparr>;
             buf \<leftarrow> make_frame OP_NOTIFICATION p;
             let s = send_each (map fst (members sess)) buf s;
             Some (success True, s\<lparr>sessions := (sessions s)(sid := None)\<rparr>, ctx) }
           else do {
             p \<leftarrow> serializeMemberLeftNotification
               \<lparr>ml_notif_code = NOTIF_MEMBER_LEFT, ml_member_id = leaving_id, ml_name = leaving_name\<rparr>;
             s \<leftarrow> sendNotification sess OP_NOTIFICATION p 0 s;
             Some (success True, s, ctx) }))"

definition handle_close_session ::
  "server \<Rightarrow> clientContext \<Rightarrow> (bool result \<times> server \<times> clientContext) option"
where
  "handle_close_session s ctx =
     (if ctx_member_id ctx = 0 then Some (refuse ''not in a session'', s, ctx)
      else case sessions s (ctx_session_id ctx) of
        None \<Rightarrow> Some (refuse ''session not found'', s, ctx)
      | Some sess \<Rightarrow>
          if \<not> is_host sess (ctx_member_id ctx)
          then Some (refuse ''only the host can close the session'', s, ctx)
          else handle_leave s ctx)"

section \<open>Drawing\<close>

definition handle_canvas_state_request :: "clientContext \<Rightarrow> conn \<Rightarrow> server \<Rightarrow> server option" where
  "handle_canvas_state_request ctx c s =
     (if ctx_member_id ctx = 0 \<or> ctx_session_id ctx = 0
      then sendError c ERR_UNKNOWN ''not in a session'' s
      else case sessions s (ctx_session_id ctx) of
        None \<Rightarrow> sendError c ERR_UNKNOWN ''session not found'' s
      | Some sess \<Rightarrow>
          (case find_connection s (host_id sess) of
             Some host_conn \<Rightarrow> do {
               buf \<leftarrow> make_frame OP_CANVAS_STATE_REQUEST [];
               Some (send host_conn buf s) }
           | None \<Rightarrow> sendError c ERR_UNKNOWN ''host is not connected'' s))"

definition handle_canvas_state :: "bytes \<Rightarrow> clientContext \<Rightarrow> conn \<Rightarrow> server \<Rightarrow> server option" where
  "handle_canvas_state p ctx c s =
     (if ctx_member_id ctx = 0 \<or> ctx_session_id ctx = 0
      then sendError c ERR_UNKNOWN ''not in a session'' s
      else case sessions s (ctx_session_id ctx) of
        None \<Rightarrow> sendError c ERR_UNKNOWN ''session not found'' s
      | Some sess \<Rightarrow>
          if \<not> is_host sess (ctx_member_id ctx)
          then sendError c ERR_UNKNOWN ''only the host can send canvas state'' s
          else do {
            state_res \<leftarrow> parseCanvasStateMessage p;
            if \<not> ok state_res then sendError c ERR_UNKNOWN (message state_res) s
            else sendNotification sess OP_CANVAS_STATE p (ctx_member_id ctx) s })"

definition handle_draw :: "bytes \<Rightarrow> clientContext \<Rightarrow> conn \<Rightarrow> server \<Rightarrow> server option" where
  "handle_draw p ctx c s =
     (if ctx_member_id ctx = 0 \<or> ctx_session_id ctx = 0
      then sendError c ERR_UNKNOWN ''not in a session'' s
      else do {
        op_res \<leftarrow> parseDrawOperation p;
        if \<not> ok op_res then sendError c ERR_UNKNOWN (message op_res) s
        else case sessions s (ctx_session_id ctx) of
          None \<Rightarrow> sendError c ERR_UNKNOWN ''session not found'' s
        | Some sess \<Rightarrow>
            if \<not> is_host sess (ctx_member_id ctx) then
              (let op = (val op_res)\<lparr>member_id := ctx_member_id ctx, seq := 0\<rparr>;
                   validation = validateDrawOperation op False
               in
               if \<not> ok validation then sendError c ERR_UNKNOWN (message validation) s
               else case find_connection s (host_id sess) of
                 None \<Rightarrow> sendError c ERR_UNKNOWN ''host is not connected'' s
               | Some host_conn \<Rightarrow> do {
                   forwarded_payload \<leftarrow> serializeDrawOperation op;
                   buf \<leftarrow> make_frame OP_DRAW forwarded_payload;
                   Some (send host_conn buf s) })
            else
              (let op = val op_res; validation = validateDrawOperation op True in
               if \<not> ok validation then sendError c ERR_UNKNOWN (message validation) s
               else do {
                 draw_payload \<leftarrow> serializeDrawOperation op;
                 sendNotification sess OP_DRAW draw_payload (ctx_member_id ctx) s }) })"

definition handle_canvas_clear :: "clientContext \<Rightarrow> conn \<Rightarrow> server \<Rightarrow> server option" where
  "handle_canvas_clear ctx c s =
     (if ctx_member_id ctx = 0 \<or> ctx_session_id ctx = 0
      then sendError c ERR_UNKNOWN ''not in a session'' s
      else case sessions s (ctx_session_id ctx) of
        None \<Rightarrow> sendError c ERR_UNKNOWN ''session not found'' s
      | Some sess \<Rightarrow> do {
          buf \<leftarrow> make_frame OP_CANVAS_CLEAR [];
          Some (send_each (map fst (members sess)) buf s) })"

section \<open>Dispatch\<close>

fun send_existing_members :: "conn \<Rightarrow> member list \<Rightarrow> server \<Rightarrow> server option" where
  "send_existing_members c [] s = Some s"
| "send_existing_members c (m # ms) s = do {
     p \<leftarrow> serializeMemberJoinedNotification
       \<lparr>mj_notif_code = NOTIF_MEMBER_JOINED, mj_member_id = mem_id m, mj_name = mem_name m\<rparr>;
     buf \<leftarrow> make_frame OP_NOTIFICATION p;
     send_existing_members c ms (send c buf s) }"

definition dispatch_create ::
  "bytes \<Rightarrow> conn \<Rightarrow> server \<Rightarrow> clientContext \<Rightarrow> (server \<times> clientContext) option"
where
  "dispatch_create p c s ctx = do {
     parse_result \<leftarrow> parseCreateMessage p;
     if \<not> ok parse_result then do {
       s \<leftarrow> sendError c ERR_CREATE_FAILED (message parse_result) s;
       Some (s, ctx) }
     else
       (let sid = next_session_id s; s = s\<lparr>next_session_id := sid + 1\<rparr>;
            (res, s, ctx) = handle_create sid (val parse_result) s ctx
        in
        if \<not> ok res then do {
          s \<leftarrow> sendError c ERR_CREATE_FAILED (message res) s;
          Some (s, ctx) }
        else do {
          let s = register_connection (ctx_member_id ctx) c s;
          ack \<leftarrow> serializeCreateAckMessage \<lparr>ca_ack_code = ACK_CREATE_OK,
            ca_session_id = ctx_session_id ctx, ca_member_id = ctx_member_id ctx\<rparr>;
          buf \<leftarrow> make_frame OP_ACK ack;
          Some (send c buf s, ctx) }) }"

definition dispatch_join ::
  "bytes \<Rightarrow> conn \<Rightarrow> server \<Rightarrow> clientContext \<Rightarrow> (server \<times> clientContext) option"
where
  "dispatch_join p c s ctx = do {
     parse_result \<leftarrow> parseJoinMessage p;
     if \<not> ok parse_result then do {
       s \<leftarrow> sendError c ERR_JOIN_FAILED (message parse_result) s;
       Some (s, ctx) }
     else do {
       let sid = jm_session_id (val parse_result);
       (res, s, ctx) \<leftarrow> handle_join sid (jm_name (val parse_result)) s ctx;
       if \<not> ok res then do {
         s \<leftarrow> sendError c ERR_JOIN_FAILED (message res) s;
         Some (s, ctx) }
       else do {
         let s = register_connection (ctx_member_id ctx) c s;
         let existing = (case sessions s sid of None \<Rightarrow> [] | Some sess \<Rightarrow> map snd (members sess));
         s \<leftarrow> send_existing_members c existing s;
         ack \<leftarrow> serializeJoinAckMessage \<lparr>ja_ack_code = ACK_JOIN_OK,
           ja_member_id = ctx_member_id ctx\<rparr>;
         buf \<leftarrow> make_frame OP_ACK ack;
         Some (send c buf s, ctx) } } }"

definition dispatch ::
  "Header \<Rightarrow> bytes \<Rightarrow> conn \<Rightarrow> server \<Rightarrow> clientContext \<Rightarrow> (server \<times> clientContext) option"
where
  "dispatch h p c s ctx =
     (if opcode h = OP_CREATE then dispatch_create p c s ctx
      else if opcode h = OP_JOIN then dispatch_join p c s ctx
      else if opcode h = OP_LEAVE then do {
        (res, s, ctx) \<leftarrow> handle_leave s ctx;
        s \<leftarrow> (if \<not> ok res then sendError c ERR_LEAVE_FAILED (message res) s
              else sendAck c ACK_LEFT ''left session'' s);
        Some (s, ctx) }
      else if opcode h = OP_CLOSE_SESSION then do {
        (res, s, ctx) \<leftarrow> handle_close_session s ctx;
        s \<leftarrow> (if \<not> ok res then sendError c ERR_LEAVE_FAILED (message res) s
              else sendAck c ACK_OK ''session closed'' s);
        Some (s, ctx) }
      else do {
        s \<leftarrow> (if opcode h = OP_CANVAS_STATE_REQUEST then handle_canvas_state_request ctx c s
              else if opcode h = OP_CANVAS_STATE then handle_canvas_state p ctx c s
              else if opcode h = OP_DRAW then handle_draw p ctx c s
              else if opcode h = OP_CANVAS_CLEAR then handle_canvas_clear ctx c s
              else sendError c ERR_UNKNOWN ''unknown opcode'' s);
        Some (s, ctx) })"

section \<open>Client threads\<close>

text \<open>
  What a client thread does after its receive loop: it gives up its connection entry and its
  membership. A context without a member does nothing.
\<close>

definition client_exit :: "server \<Rightarrow> clientContext \<Rightarrow> server option" where
  "client_exit s ctx =
     (if ctx_member_id ctx \<noteq> 0 then do {
        let s = unregister_connection (ctx_member_id ctx) s;
        (_, s, _) \<leftarrow> handle_leave s ctx;
        Some s }
      else Some s)"

text \<open>
  \<open>tcpSocket::receive\<close> blocks until it has the requested bytes or the stream ends: on the
  bytes a client sends before it disconnects, a receive succeeds exactly when enough are left.
\<close>

definition stream_receive :: "nat \<Rightarrow> bytes \<Rightarrow> (bytes \<times> bytes) option" where
  "stream_receive n stream =
     (if n \<le> length stream then Some (take n stream, drop n stream) else None)"

lemma stream_receive_shorter:
  "stream_receive n stream = Some (chunk, rest) \<Longrightarrow>
    length rest \<le> length stream \<and> (0 < n \<longrightarrow> length rest < length stream)"
  by (auto simp: stream_receive_def split: if_splits)

function tcp_loop :: "conn \<Rightarrow> bytes \<Rightarrow> server \<Rightarrow> clientContext \<Rightarrow> (server \<times> clientContext) option" where
  "tcp_loop c stream s ctx =
     (case stream_receive HEADER_SIZE stream of
        None \<Rightarrow> Some (s, ctx)
      | Some (hdr, stream1) \<Rightarrow> do {
          parse_result \<leftarrow> parseHeader hdr;
          if \<not> ok parse_result then Some (s, ctx)
          else
            (case stream_receive (unat (hdr_length (val parse_result))) stream1 of
               None \<Rightarrow> Some (s, ctx)
             | Some (p, stream2) \<Rightarrow> do {
                 (s, ctx) \<leftarrow> dispatch (val parse_result) p c s ctx;
                 tcp_loop c stream2 s ctx }) })"
  by pat_completeness auto
termination
  by (relation "measure (\<lambda>(c, stream, s, ctx). length stream)")
    (auto dest!: stream_receive_shorter)

declare tcp_loop.simps [simp del]

definition handle_tcp_client :: "conn \<Rightarrow> bytes \<Rightarrow> server \<Rightarrow> server option" where
  "handle_tcp_client c stream s = do {
     (s, ctx) \<leftarrow> tcp_loop c stream s initial_context;
     client_exit s ctx }"

text \<open>
  A websocket delivers whole messages; the loop runs over the messages received until the
  connection fails.
\<close>

fun ws_loop :: "conn \<Rightarrow> bytes list \<Rightarrow> server \<Rightarrow> clientContext \<Rightarrow> (server \<times> clientContext) option" where
  "ws_loop c [] s ctx = Some (s, ctx)"
| "ws_loop c (msg # msgs) s ctx =
     (if msg = [] then ws_loop c msgs s ctx
      else do {
        parse_result \<leftarrow> parseHeader msg;
        if \<not> ok parse_result then Some (s, ctx)
        else if length msg \<noteq> HEADER_SIZE + unat (hdr_length (val parse_result)) then Some (s, ctx)
        else do {
          body \<leftarrow> subspan msg HEADER_SIZE (unat (hdr_length (val parse_result)));
          (s, ctx) \<leftarrow> dispatch (val parse_result) body c s ctx;
          ws_loop c msgs s ctx } })"

definition handle_ws_client :: "conn \<Rightarrow> bytes list \<Rightarrow> server \<Rightarrow> server option" where
  "handle_ws_client c msgs s = do {
     (s, ctx) \<leftarrow> ws_loop c msgs s initial_context;
     client_exit s ctx }"

text \<open>The lookup the server gives its discovery responder.\<close>

definition lookup_session :: "server \<Rightarrow> u32 \<Rightarrow> u16 option" where
  "lookup_session s sid =
     (case sessions s sid of
        Some sess \<Rightarrow> if sess_state sess = session_open then Some (tcp_port s) else None
      | None \<Rightarrow> None)"

end
