(* ===== verification/Server_Lemmas.thy ===== *)
theory Server_Lemmas
  imports Server
begin

text \<open>
  The handlers of \<open>Server\<close> in closed form: what each sends and how it changes the state, on
  every branch; and that none of them ever reaches undefined behaviour.
\<close>

named_theorems server_simps \<open>closed forms of the sending functions\<close>

section \<open>Frames and sends\<close>

definition frame :: "u8 \<Rightarrow> bytes \<Rightarrow> bytes" where
  "frame oc p =
     frame_image \<lparr>header = \<lparr>opcode = oc, flags = 0, hdr_length = word_of_nat (length p)\<rparr>, payload = p\<rparr>"

lemma make_frame_eq [server_simps]: "make_frame oc p = Some (frame oc p)"
  by (simp add: make_frame_def frame_def serializeMessage_image)

definition error_frame :: "u8 \<Rightarrow> string \<Rightarrow> bytes" where
  "error_frame code text = frame OP_ERROR_MSG (code # str_bytes text)"

definition ack_frame :: "u8 \<Rightarrow> string \<Rightarrow> bytes" where
  "ack_frame code text = frame OP_ACK (code # str_bytes text)"

definition joined_frame :: "u32 \<Rightarrow> string \<Rightarrow> bytes" where
  "joined_frame i name = frame OP_NOTIFICATION ([NOTIF_MEMBER_JOINED] @ be32 i @ name_image name)"

definition left_frame :: "u32 \<Rightarrow> string \<Rightarrow> bytes" where
  "left_frame i name = frame OP_NOTIFICATION ([NOTIF_MEMBER_LEFT] @ be32 i @ name_image name)"

definition closed_frame :: bytes where
  "closed_frame = frame OP_NOTIFICATION [NOTIF_SESSION_CLOSED]"

definition create_ack_frame :: "u32 \<Rightarrow> u32 \<Rightarrow> bytes" where
  "create_ack_frame sid mid = frame OP_ACK ([ACK_CREATE_OK] @ be32 sid @ be32 mid)"

definition join_ack_frame :: "u32 \<Rightarrow> bytes" where
  "join_ack_frame mid = frame OP_ACK ([ACK_JOIN_OK] @ be32 mid)"

text \<open>Sending is appending to the wire; a broadcast reaches the registered connections.\<close>

definition sends :: "(conn \<times> bytes) list \<Rightarrow> server \<Rightarrow> server" where
  "sends ms s = s\<lparr>wire := wire s @ ms\<rparr>"

definition broadcast :: "(u32 \<Rightarrow> conn option) \<Rightarrow> u32 list \<Rightarrow> bytes \<Rightarrow> (conn \<times> bytes) list" where
  "broadcast cs ids buf = map (\<lambda>c. (c, buf)) (List.map_filter cs ids)"

lemma sends_sel [simp]:
  "sessions (sends ms s) = sessions s" "connections (sends ms s) = connections s"
  "next_session_id (sends ms s) = next_session_id s" "next_member_id (sends ms s) = next_member_id s"
  "tcp_port (sends ms s) = tcp_port s" "wire (sends ms s) = wire s @ ms"
  by (simp_all add: sends_def)

lemma sends_sends [simp]: "sends ms (sends ns s) = sends (ns @ ms) s"
  by (simp add: sends_def)

lemma sends_Nil [simp]: "sends [] s = s"
  by (simp add: sends_def)

lemma send_eq [server_simps]: "send c buf s = sends [(c, buf)] s"
  by (simp add: send_def sends_def)

lemma broadcast_simps [simp]:
  "broadcast cs [] buf = []"
  "broadcast cs (i # is) buf =
     (case cs i of None \<Rightarrow> [] | Some c \<Rightarrow> [(c, buf)]) @ broadcast cs is buf"
  by (auto simp: broadcast_def List.map_filter_simps split: option.splits)

lemma set_broadcast [simp]:
  "(c, b) \<in> set (broadcast cs ids buf) \<longleftrightarrow> b = buf \<and> (\<exists>i \<in> set ids. cs i = Some c)"
  by (induction ids) (auto split: option.splits)

lemma send_each_eq [server_simps]: "send_each ids buf s = sends (broadcast (connections s) ids buf) s"
  by (induction ids arbitrary: s) (auto simp: find_connection_def send_eq split: option.splits)

definition member_ids :: "session \<Rightarrow> u32 list" where
  "member_ids sess = map fst (members sess)"

lemma sendNotification_eq [server_simps]:
  "sendNotification sess oc p ex s =
     Some (sends (broadcast (connections s) (filter (\<lambda>i. i \<noteq> ex) (member_ids sess)) (frame oc p)) s)"
  by (simp add: sendNotification_def make_frame_eq send_each_eq member_ids_def Let_def)

lemma sendAck_eq [server_simps]: "sendAck c code text s = Some (sends [(c, ack_frame code text)] s)"
  by (simp add: sendAck_def serialize_plain make_frame_eq send_eq ack_frame_def)

lemma sendError_eq [server_simps]:
  "sendError c code text s = Some (sends [(c, error_frame code text)] s)"
  by (simp add: sendError_def serialize_plain make_frame_eq send_eq error_frame_def)

lemma send_existing_members_eq [server_simps]:
  "send_existing_members c ms s =
     Some (sends (map (\<lambda>m. (c, joined_frame (mem_id m) (mem_name m))) ms) s)"
  by (induction ms arbitrary: s)
    (simp_all add: serialize_named make_frame_eq send_eq joined_frame_def)

section \<open>Handlers in closed form\<close>

lemma refuse_ok [simp]: "ok (refuse text)"
  by (simp add: refuse_def)

definition joined_session :: "session \<Rightarrow> u32 \<Rightarrow> string \<Rightarrow> session" where
  "joined_session sess mid name =
     sess\<lparr>members := emplace mid \<lparr>mem_id = mid, mem_name = name, mem_role = participant,
       mem_session_id = sess_id sess\<rparr> (members sess)\<rparr>"

definition new_session :: "u32 \<Rightarrow> u32 \<Rightarrow> string \<Rightarrow> session" where
  "new_session sid mid name =
     \<lparr>sess_id = sid, host_id = mid, sess_name = [], sess_state = session_open,
      members = [(mid, \<lparr>mem_id = mid, mem_name = name, mem_role = host, mem_session_id = sid\<rparr>)]\<rparr>"

definition without_member :: "session \<Rightarrow> u32 \<Rightarrow> session" where
  "without_member sess i = sess\<lparr>members := erase_key i (members sess)\<rparr>"

lemma emplace_Nil [simp]: "emplace k v [] = [(k, v)]"
  by (simp add: emplace_def)

lemma member_ids_joined:
  "mid \<notin> set (member_ids sess) \<Longrightarrow> member_ids (joined_session sess mid name) = member_ids sess @ [mid]"
  by (simp add: member_ids_def joined_session_def emplace_def)

lemma member_ids_new [simp]: "member_ids (new_session sid mid name) = [mid]"
  by (simp add: member_ids_def new_session_def)

lemma member_ids_without [simp]:
  "member_ids (without_member sess i) = filter (\<lambda>j. j \<noteq> i) (member_ids sess)"
  by (simp add: member_ids_def without_member_def erase_key_def filter_map o_def case_prod_unfold)

lemma handle_create_fresh:
  "sessions s sid = None \<Longrightarrow>
    handle_create sid name s ctx =
      (success True,
       s\<lparr>next_member_id := next_member_id s + 1,
         sessions := (sessions s)(sid \<mapsto> new_session sid (next_member_id s) name)\<rparr>,
       ctx\<lparr>ctx_member_id := next_member_id s, ctx_session_id := sid\<rparr>)"
  by (simp add: handle_create_def new_session_def Let_def)

lemma handle_join_open:
  assumes "sessions s sid = Some sess" and "sess_state sess = session_open" and "sess_id sess = sid"
  defines "mid \<equiv> next_member_id s"
  shows "handle_join sid name s ctx =
    Some (success True,
      sends (broadcast (connections s) (filter (\<lambda>i. i \<noteq> mid) (member_ids (joined_session sess mid name)))
          (joined_frame mid name))
        (s\<lparr>next_member_id := mid + 1,
           sessions := (sessions s)(sid \<mapsto> joined_session sess mid name)\<rparr>),
      ctx\<lparr>ctx_member_id := mid, ctx_session_id := sid\<rparr>)"
  using assms(1-3) unfolding mid_def
  by (simp add: handle_join_def serialize_named sendNotification_eq joined_session_def
      joined_frame_def Let_def)

lemma handle_leave_cases:
  assumes "ctx_member_id ctx \<noteq> 0" and "sessions s (ctx_session_id ctx) = Some sess"
  defines "i \<equiv> ctx_member_id ctx" and "sid \<equiv> ctx_session_id ctx"
  defines "rest \<equiv> without_member sess i"
  shows "is_host sess i \<or> members rest = [] \<Longrightarrow>
      handle_leave s ctx = Some (success True,
        sends (broadcast (connections s) (member_ids rest) closed_frame)
          (s\<lparr>sessions := (sessions s)(sid := None)\<rparr>),
        initial_context)" (is "?ends \<Longrightarrow> _")
    and "\<not> (is_host sess i \<or> members rest = []) \<Longrightarrow>
      handle_leave s ctx = Some (success True,
        sends (broadcast (connections s) (filter (\<lambda>j. j \<noteq> 0) (member_ids rest))
            (left_frame i (case map_of (members sess) i of Some m \<Rightarrow> mem_name m | None \<Rightarrow> [])))
          (s\<lparr>sessions := (sessions s)(sid \<mapsto> rest)\<rparr>),
        initial_context)"
proof -
  assume ?ends
  then show "handle_leave s ctx = Some (success True,
        sends (broadcast (connections s) (member_ids rest) closed_frame)
          (s\<lparr>sessions := (sessions s)(sid := None)\<rparr>),
        initial_context)"
    using assms(1,2) unfolding i_def sid_def rest_def
    by (auto simp: handle_leave_def serialize_plain make_frame_eq send_each_eq without_member_def
        member_ids_def closed_frame_def initial_context_def sends_def Let_def)
next
  assume "\<not> ?ends"
  then show "handle_leave s ctx = Some (success True,
        sends (broadcast (connections s) (filter (\<lambda>j. j \<noteq> 0) (member_ids rest))
            (left_frame i (case map_of (members sess) i of Some m \<Rightarrow> mem_name m | None \<Rightarrow> [])))
          (s\<lparr>sessions := (sessions s)(sid \<mapsto> rest)\<rparr>),
        initial_context)"
    using assms(1,2) unfolding i_def sid_def rest_def
    by (auto simp: handle_leave_def serialize_named sendNotification_eq without_member_def
        member_ids_def left_frame_def initial_context_def Let_def)
qed

lemma handle_leave_none:
  "ctx_member_id ctx = 0 \<Longrightarrow> handle_leave s ctx = Some (refuse ''not in a session'', s, ctx)"
  "ctx_member_id ctx \<noteq> 0 \<Longrightarrow> sessions s (ctx_session_id ctx) = None \<Longrightarrow>
    handle_leave s ctx = Some (refuse ''session not found'', s, ctx)"
  by (simp_all add: handle_leave_def)

section \<open>No undefined behaviour\<close>

lemma handle_join_total: "\<exists>r. handle_join sid name s ctx = Some r"
  by (auto simp: handle_join_def serialize_named server_simps Let_def split: option.splits)

lemma handle_leave_total: "\<exists>r. handle_leave s ctx = Some r"
  by (auto simp: handle_leave_def serialize_named serialize_plain server_simps Let_def
      split: option.splits)

lemma handle_close_session_total: "\<exists>r. handle_close_session s ctx = Some r"
  using handle_leave_total [of s ctx]
  by (auto simp: handle_close_session_def split: option.splits)

lemma handle_draw_total: "\<exists>s'. handle_draw p ctx c s = Some s'"
proof -
  obtain r where r: "parseDrawOperation p = Some r"
    using parseDrawOperation_total by blast
  show ?thesis
  proof (cases "ok r")
    case False
    with r show ?thesis by (simp add: handle_draw_def sendError_eq)
  next
    case True
    then have "points_fit (val r)" using r parsed_points_fit by blast
    with r True show ?thesis
      by (auto simp: handle_draw_def server_simps serializeDrawOperation_image points_fit_def Let_def
          split: option.splits)
  qed
qed

lemma canvas_handlers_total:
  "\<exists>s'. handle_canvas_state_request ctx c s = Some s'"
  "\<exists>s'. handle_canvas_state p ctx c s = Some s'"
  "\<exists>s'. handle_canvas_clear ctx c s = Some s'"
  using parseCanvasState_total [of p]
  by (auto simp: handle_canvas_state_request_def handle_canvas_state_def handle_canvas_clear_def
      server_simps split: option.splits)

lemma dispatch_create_total: "\<exists>r. dispatch_create p c s ctx = Some r"
  using parse_total(2) [of p]
  by (auto simp: dispatch_create_def serialize_plain server_simps Let_def case_prod_beta)

lemma dispatch_join_total: "\<exists>r. dispatch_join p c s ctx = Some r"
proof -
  obtain r where r: "parseJoinMessage p = Some r" using parse_total(3) by blast
  obtain t where "handle_join (jm_session_id (val r)) (jm_name (val r)) s ctx = Some t"
    using handle_join_total by blast
  with r show ?thesis
    by (cases t) (auto simp: dispatch_join_def serialize_plain server_simps Let_def)
qed

lemma dispatch_total: "\<exists>r. dispatch h p c s ctx = Some r"
  using dispatch_create_total [of p c s ctx] dispatch_join_total [of p c s ctx]
    handle_leave_total [of s ctx] handle_close_session_total [of s ctx]
    handle_draw_total [of p ctx c s] canvas_handlers_total(1,3) [of ctx c s]
    canvas_handlers_total(2) [of p ctx c s]
  by (auto simp: dispatch_def server_simps)

lemma client_exit_total: "\<exists>s'. client_exit s ctx = Some s'"
  using handle_leave_total [of "unregister_connection (ctx_member_id ctx) s" ctx]
  by (auto simp: client_exit_def Let_def)

end
