(* ===== verification/Server_World.thy ===== *)
theory Server_World
  imports Server_Lemmas
begin

text \<open>
  The server as a state machine: the session service its handlers implement (an abstract step
  relation), the invariant of sessions, members and identifiers, and the world of one server
  and its client threads. A step of the world is one accepted client, one dispatched message or
  one finished client thread; the source runs the client threads concurrently, and the handlers
  keep \<open>sessions_mutex\<close> while they read or write the sessions.
\<close>

section \<open>The invariant of the sessions\<close>

definition session_inv :: "server \<Rightarrow> u32 \<Rightarrow> session \<Rightarrow> bool" where
  "session_inv s sid sess \<longleftrightarrow>
     sess_id sess = sid \<and> sid \<noteq> 0 \<and> sid < next_session_id s \<and> sess_state sess = session_open \<and>
     distinct (member_ids sess) \<and> host_id sess \<in> set (member_ids sess) \<and>
     (\<forall>(k, m) \<in> set (members sess). mem_id m = k \<and> mem_session_id m = sid \<and> k \<noteq> 0 \<and>
        k < next_member_id s \<and> (mem_role m = host \<longleftrightarrow> k = host_id sess))"

definition server_inv :: "server \<Rightarrow> bool" where
  "server_inv s \<longleftrightarrow>
     next_session_id s \<noteq> 0 \<and> next_member_id s \<noteq> 0 \<and>
     (\<forall>sid sess. sessions s sid = Some sess \<longrightarrow> session_inv s sid sess) \<and>
     (\<forall>sid sess sid' sess' k. sessions s sid = Some sess \<longrightarrow> sessions s sid' = Some sess' \<longrightarrow>
        k \<in> set (member_ids sess) \<longrightarrow> k \<in> set (member_ids sess') \<longrightarrow> sid = sid')"

text \<open>The counters are 32 bits wide; a step is considered while they have not reached the end.\<close>

definition ids_left :: "server \<Rightarrow> bool" where
  "ids_left s \<longleftrightarrow> next_session_id s \<noteq> - 1 \<and> next_member_id s \<noteq> - 1"

lemma counter_less:
  assumes "(n :: u32) \<noteq> - 1"
  shows "n < n + 1"
proof -
  have "unat (n + 1) \<noteq> 0" using assms max_word_wrap by (auto simp: unat_eq_0)
  moreover have "unat n < 2 ^ LENGTH(32)" by (rule unsigned_less)
  moreover have "unat (n + 1) = (unat n + 1) mod 2 ^ LENGTH(32)" by (simp add: unat_word_ariths)
  ultimately have "unat n < unat (n + 1)" by (cases "unat n + 1 = 2 ^ LENGTH(32)") auto
  then show ?thesis by (simp add: word_less_nat_alt)
qed

lemma counter_mono: "(n :: u32) \<noteq> - 1 \<Longrightarrow> k < n \<Longrightarrow> k < n + 1"
  using counter_less less_trans by blast

lemma counter_nonzero: "(n :: u32) \<noteq> - 1 \<Longrightarrow> n + 1 \<noteq> 0"
  using counter_less [of n] by auto

lemma session_invD:
  assumes "session_inv s sid sess"
  shows "sess_id sess = sid" "sid \<noteq> 0" "sid < next_session_id s" "sess_state sess = session_open"
    "distinct (member_ids sess)" "host_id sess \<in> set (member_ids sess)"
    "k \<in> set (member_ids sess) \<Longrightarrow> k \<noteq> 0 \<and> k < next_member_id s"
  using assms by (auto simp: session_inv_def member_ids_def)

lemma server_invD:
  assumes "server_inv s" and "sessions s sid = Some sess"
  shows "session_inv s sid sess"
  using assms by (simp add: server_inv_def)

lemma server_inv_disjoint:
  "server_inv s \<Longrightarrow> sessions s sid = Some sess \<Longrightarrow> sessions s sid' = Some sess' \<Longrightarrow>
    k \<in> set (member_ids sess) \<Longrightarrow> k \<in> set (member_ids sess') \<Longrightarrow> sid = sid'"
  by (simp add: server_inv_def)

lemma server_inv_cong:
  "sessions s = sessions t \<Longrightarrow> next_session_id s = next_session_id t \<Longrightarrow>
    next_member_id s = next_member_id t \<Longrightarrow> server_inv s = server_inv t"
  by (simp add: server_inv_def session_inv_def)

lemma server_inv_sends [simp]: "server_inv (sends ms s) = server_inv s"
  by (rule server_inv_cong) simp_all

lemma server_inv_connections [simp]: "server_inv (s\<lparr>connections := m\<rparr>) = server_inv s"
  by (rule server_inv_cong) simp_all

lemma server_inv_initial: "server_inv (initial_server port)"
  by (simp add: server_inv_def initial_server_def)

lemma server_inv_fresh_session: "server_inv s \<Longrightarrow> sessions s (next_session_id s) = None"
  using session_invD(3) [OF server_invD] by fastforce

lemma server_inv_fresh_member:
  "server_inv s \<Longrightarrow> sessions s sid = Some sess \<Longrightarrow> next_member_id s \<notin> set (member_ids sess)"
  using session_invD(7) [OF server_invD] by fastforce

subsection \<open>The changes of the session table\<close>

lemma server_invI:
  assumes "next_session_id s \<noteq> 0" and "next_member_id s \<noteq> 0"
    and "\<And>sid sess. sessions s sid = Some sess \<Longrightarrow> session_inv s sid sess"
    and "\<And>sid sess sid' sess' k. sessions s sid = Some sess \<Longrightarrow> sessions s sid' = Some sess' \<Longrightarrow>
      k \<in> set (member_ids sess) \<Longrightarrow> k \<in> set (member_ids sess') \<Longrightarrow> sid = sid'"
  shows "server_inv s"
  unfolding server_inv_def using assms by blast

lemma server_inv_nonzero: "server_inv s \<Longrightarrow> next_session_id s \<noteq> 0 \<and> next_member_id s \<noteq> 0"
  by (simp add: server_inv_def)

lemma session_inv_mono:
  assumes "session_inv s sid sess" and "next_session_id s \<le> next_session_id t"
    and "next_member_id s \<le> next_member_id t"
  shows "session_inv t sid sess"
  using assms unfolding session_inv_def by (fastforce intro: less_le_trans)

lemma server_inv_bump:
  assumes inv: "server_inv s" and left: "next_member_id s \<noteq> - 1"
  shows "server_inv (s\<lparr>next_member_id := next_member_id s + 1\<rparr>)" (is "server_inv ?t")
proof (rule server_invI)
  fix sid sess
  assume "sessions ?t sid = Some sess"
  then have "session_inv s sid sess" using server_invD [OF inv] by simp
  then show "session_inv ?t sid sess"
    using counter_less [OF left] by (auto intro: session_inv_mono)
qed (use counter_nonzero [OF left] server_inv_nonzero [OF inv] server_inv_disjoint [OF inv] in auto)

lemma server_inv_create:
  assumes inv: "server_inv s" and left: "ids_left s"
  shows "server_inv (s\<lparr>next_session_id := next_session_id s + 1,
      next_member_id := next_member_id s + 1,
      sessions := (sessions s)(next_session_id s \<mapsto> new_session (next_session_id s) (next_member_id s) name)\<rparr>)"
    (is "server_inv ?t")
proof -
  let ?new = "new_session (next_session_id s) (next_member_id s) name"
  have le: "next_session_id s \<noteq> -1" "next_member_id s \<noteq> -1" using left by (simp_all add: ids_left_def)
  have ids: "member_ids ?new = [next_member_id s]"
    by (simp add: new_session_def member_ids_def)
  have new: "session_inv ?t (next_session_id s) ?new"
    using server_inv_nonzero [OF inv] le
    by (simp add: session_inv_def new_session_def member_ids_def counter_less)
  show ?thesis
  proof (rule server_invI)
    fix sid sess
    assume sess: "sessions ?t sid = Some sess"
    show "session_inv ?t sid sess"
    proof (cases "sid = next_session_id s")
      case True
      with sess new show ?thesis by simp
    next
      case False
      with sess have "session_inv s sid sess" using server_invD [OF inv] by simp
      then show ?thesis
        by (rule session_inv_mono) (use le in \<open>auto intro: less_imp_le counter_less\<close>)
    qed
  next
    fix sid sess sid' sess' k
    assume a: "sessions ?t sid = Some sess" "sessions ?t sid' = Some sess'"
      "k \<in> set (member_ids sess)" "k \<in> set (member_ids sess')"
    show "sid = sid'"
      using a ids server_inv_fresh_member [OF inv] server_inv_disjoint [OF inv]
      by (auto split: if_split_asm)
  qed (use le counter_nonzero in auto)
qed

lemma server_inv_join:
  assumes inv: "server_inv s" and left: "ids_left s" and sess: "sessions s sid = Some sess"
  shows "server_inv (s\<lparr>next_member_id := next_member_id s + 1,
      sessions := (sessions s)(sid \<mapsto> joined_session sess (next_member_id s) name)\<rparr>)"
    (is "server_inv ?t")
proof -
  let ?joined = "joined_session sess (next_member_id s) name"
  have le: "next_member_id s \<noteq> -1" using left by (simp add: ids_left_def)
  note fresh = server_inv_fresh_member [OF inv]
  note ids = member_ids_joined [OF fresh [OF sess], of name]
  have host: "next_member_id s \<noteq> host_id sess"
    using fresh [OF sess] session_invD(6) [OF server_invD [OF inv sess]] by auto
  have "session_inv ?t sid sess"
    using server_invD [OF inv sess] counter_less [OF le] by (auto intro: session_inv_mono)
  then have new: "session_inv ?t sid ?joined"
    using fresh [OF sess] host server_inv_nonzero [OF inv] ids counter_less [OF le]
    by (auto simp: session_inv_def joined_session_def emplace_def member_ids_def)
  show ?thesis
  proof (rule server_invI)
    fix sid' sess'
    assume a: "sessions ?t sid' = Some sess'"
    show "session_inv ?t sid' sess'"
    proof (cases "sid' = sid")
      case True
      with a new show ?thesis by simp
    next
      case False
      with a have "session_inv s sid' sess'" using server_invD [OF inv] by simp
      then show ?thesis using counter_less [OF le] by (auto intro: session_inv_mono)
    qed
  next
    fix sid1 sess1 sid2 sess2 k
    assume "sessions ?t sid1 = Some sess1" "sessions ?t sid2 = Some sess2"
      "k \<in> set (member_ids sess1)" "k \<in> set (member_ids sess2)"
    then show "sid1 = sid2"
      using ids sess fresh server_inv_disjoint [OF inv] by (auto split: if_split_asm)
  qed (use le counter_nonzero server_inv_nonzero [OF inv] in auto)
qed

lemma server_inv_close:
  assumes inv: "server_inv s"
  shows "server_inv (s\<lparr>sessions := (sessions s)(sid := None)\<rparr>)"
proof (rule server_invI)
  fix sid' sess'
  assume "sessions (s\<lparr>sessions := (sessions s)(sid := None)\<rparr>) sid' = Some sess'"
  then have "session_inv s sid' sess'" using server_invD [OF inv] by (simp split: if_split_asm)
  then show "session_inv (s\<lparr>sessions := (sessions s)(sid := None)\<rparr>) sid' sess'"
    by (rule session_inv_mono) simp_all
qed (use server_inv_nonzero [OF inv] server_inv_disjoint [OF inv] in \<open>auto split: if_split_asm\<close>)

lemma server_inv_remove:
  assumes inv: "server_inv s" and sess: "sessions s sid = Some sess" and "\<not> is_host sess i"
  shows "server_inv (s\<lparr>sessions := (sessions s)(sid \<mapsto> without_member sess i)\<rparr>)"
    (is "server_inv ?t")
proof -
  have "session_inv ?t sid sess"
    using server_invD [OF inv sess] by (rule session_inv_mono) simp_all
  then have new: "session_inv ?t sid (without_member sess i)"
    using assms(3) by (auto simp: session_inv_def is_host_def)
      (auto simp: without_member_def erase_key_def)
  show ?thesis
  proof (rule server_invI)
    fix sid' sess'
    assume "sessions ?t sid' = Some sess'"
    then have "session_inv s sid' sess' \<or> sid' = sid \<and> sess' = without_member sess i"
      using server_invD [OF inv] by (simp split: if_split_asm)
    with new show "session_inv ?t sid' sess'" by (auto intro: session_inv_mono)
  next
    fix sid1 sess1 sid2 sess2 k
    assume "sessions ?t sid1 = Some sess1" "sessions ?t sid2 = Some sess2"
      "k \<in> set (member_ids sess1)" "k \<in> set (member_ids sess2)"
    then show "sid1 = sid2"
      using sess server_inv_disjoint [OF inv] by (auto split: if_split_asm)
  qed (use server_inv_nonzero [OF inv] in auto)
qed

section \<open>The session service\<close>

text \<open>
  What one message may do to the session table, the connection table and the sender's context,
  and whom the server may write to: the sender and the registered connections of session
  members. \<open>refused_join\<close> is the join of a session that does not exist.
\<close>

definition member_conns :: "server \<Rightarrow> conn set" where
  "member_conns s =
     {c. \<exists>sid sess k. sessions s sid = Some sess \<and> k \<in> set (member_ids sess) \<and> connections s k = Some c}"

inductive service_step ::
  "u8 \<Rightarrow> conn \<Rightarrow> server \<times> clientContext \<Rightarrow> server \<times> clientContext \<Rightarrow> bool"
  for oc :: u8 and c :: conn
where
  stay: "fst ` set ms \<subseteq> insert c (member_conns s) \<Longrightarrow> service_step oc c (s, ctx) (sends ms s, ctx)"
| refused_join: "oc = OP_JOIN \<Longrightarrow> fst ` set ms \<subseteq> {c} \<Longrightarrow> sessions s sid = None \<Longrightarrow>
    service_step oc c (s, ctx)
      (sends ms (register_connection (ctx_member_id ctx) c
        (s\<lparr>next_member_id := next_member_id s + 1\<rparr>)), ctx)"
| created: "oc = OP_CREATE \<Longrightarrow> fst ` set ms \<subseteq> {c} \<Longrightarrow>
    sid = next_session_id s \<Longrightarrow> mid = next_member_id s \<Longrightarrow>
    service_step oc c (s, ctx)
      (sends ms (register_connection mid c
        (s\<lparr>next_session_id := sid + 1, next_member_id := mid + 1,
           sessions := (sessions s)(sid \<mapsto> new_session sid mid name)\<rparr>)),
       \<lparr>ctx_member_id = mid, ctx_session_id = sid\<rparr>)"
| joined: "oc = OP_JOIN \<Longrightarrow> fst ` set ms \<subseteq> insert c (member_conns s) \<Longrightarrow>
    sessions s sid = Some sess \<Longrightarrow> mid = next_member_id s \<Longrightarrow>
    service_step oc c (s, ctx)
      (sends ms (register_connection mid c
        (s\<lparr>next_member_id := mid + 1,
           sessions := (sessions s)(sid \<mapsto> joined_session sess mid name)\<rparr>)),
       \<lparr>ctx_member_id = mid, ctx_session_id = sid\<rparr>)"
| left: "i \<noteq> 0 \<Longrightarrow> ctx = \<lparr>ctx_member_id = i, ctx_session_id = sid\<rparr> \<Longrightarrow>
    fst ` set ms \<subseteq> insert c (member_conns s) \<Longrightarrow> sessions s sid = Some sess \<Longrightarrow>
    service_step oc c (s, ctx)
      (sends ms (s\<lparr>sessions := (sessions s)(sid :=
         (if is_host sess i \<or> members (without_member sess i) = [] then None
          else Some (without_member sess i)))\<rparr>),
       initial_context)"

inductive_cases service_stepE: "service_step oc c (s, ctx) (s', ctx')"

lemma member_connsI:
  "sessions s sid = Some sess \<Longrightarrow> k \<in> set (member_ids sess) \<Longrightarrow> connections s k = Some c \<Longrightarrow>
    c \<in> member_conns s"
  unfolding member_conns_def by blast

lemma broadcast_targets:
  "sessions s sid = Some sess \<Longrightarrow> set ids \<subseteq> set (member_ids sess) \<Longrightarrow>
    fst ` set (broadcast (connections s) ids buf) \<subseteq> member_conns s"
  by auto (metis member_connsI subsetD)

lemma context_update [simp]:
  "ctx\<lparr>ctx_member_id := m, ctx_session_id := n\<rparr> = \<lparr>ctx_member_id = m, ctx_session_id = n\<rparr>"
  by (cases ctx) simp

lemma ctx_eta: "ctx = \<lparr>ctx_member_id = ctx_member_id ctx, ctx_session_id = ctx_session_id ctx\<rparr>"
  by simp

lemma host_conn_target:
  "server_inv s \<Longrightarrow> sessions s sid = Some sess \<Longrightarrow> find_connection s (host_id sess) = Some hc \<Longrightarrow>
    hc \<in> member_conns s"
  using session_invD(6) [OF server_invD] by (fastforce simp: member_conns_def find_connection_def)

lemma stay_sends:
  "s' = sends ms s \<Longrightarrow> fst ` set ms \<subseteq> insert c (member_conns s) \<Longrightarrow>
    service_step oc c (s, ctx) (s', ctx)"
  by (simp add: service_step.stay)

subsection \<open>The handlers refine the service\<close>

lemma canvas_request_refines:
  assumes "server_inv s" and "handle_canvas_state_request ctx c s = Some s'"
  shows "service_step oc c (s, ctx) (s', ctx)"
  using assms host_conn_target [OF assms(1)]
  by (auto simp: handle_canvas_state_request_def server_simps split: if_split_asm option.split_asm
      intro!: stay_sends)

lemma canvas_state_refines:
  assumes "server_inv s" and "handle_canvas_state p ctx c s = Some s'"
  shows "service_step oc c (s, ctx) (s', ctx)"
proof -
  obtain r where "parseCanvasStateMessage p = Some r" using parseCanvasState_total by blast
  with assms show ?thesis
    by (auto simp: handle_canvas_state_def server_simps split: if_split_asm option.split_asm
        intro!: stay_sends dest: member_connsI)
qed

lemma canvas_clear_refines:
  assumes "handle_canvas_clear ctx c s = Some s'"
  shows "service_step oc c (s, ctx) (s', ctx)"
  using assms
  by (auto simp: handle_canvas_clear_def server_simps member_conns_def member_ids_def
      split: if_split_asm option.split_asm intro!: stay_sends)

lemma draw_refines:
  assumes inv: "server_inv s" and step: "handle_draw p ctx c s = Some s'"
  shows "service_step oc c (s, ctx) (s', ctx)"
proof -
  obtain r where r: "parseDrawOperation p = Some r" using parseDrawOperation_total by blast
  show ?thesis
  proof (cases "ctx_member_id ctx = 0 \<or> ctx_session_id ctx = 0 \<or> \<not> ok r \<or>
      sessions s (ctx_session_id ctx) = None")
    case True
    with r step show ?thesis
      by (auto simp: handle_draw_def server_simps split: if_split_asm intro!: stay_sends)
  next
    case False
    then obtain sess where sess: "sessions s (ctx_session_id ctx) = Some sess" and "ok r" by auto
    then have "points_fit (val r)" using r parsed_points_fit by blast
    with False r step sess host_conn_target [OF inv sess] show ?thesis
      by (auto simp: handle_draw_def server_simps serializeDrawOperation_image points_fit_def Let_def
          member_conns_def split: if_split_asm option.split_asm intro!: stay_sends)
  qed
qed

lemma leave_dispatch_refines:
  assumes "handle_leave s ctx = Some (res, s', ctx')" and reply: "fst ` set ns \<subseteq> {c}"
  shows "service_step oc c (s, ctx) (sends ns s', ctx')"
proof -
  consider "ctx_member_id ctx = 0 \<or> sessions s (ctx_session_id ctx) = None"
    | sess where "ctx_member_id ctx \<noteq> 0" "sessions s (ctx_session_id ctx) = Some sess"
    by (cases "sessions s (ctx_session_id ctx)") auto
  then show ?thesis
  proof cases
    case 1
    then have "s' = s" and "ctx' = ctx"
      using assms handle_leave_none [of ctx s] by (cases "ctx_member_id ctx = 0"; simp)+
    then show ?thesis by (auto intro!: service_step.stay reply [THEN subset_trans])
  next
    case 2
    let ?i = "ctx_member_id ctx" and ?sid = "ctx_session_id ctx"
    let ?rest = "without_member sess ?i"
    let ?t = "s\<lparr>sessions := (sessions s)(?sid := (if is_host sess ?i \<or> members ?rest = [] then None
      else Some ?rest))\<rparr>"
    have "\<exists>ids buf. s' = sends (broadcast (connections s) ids buf) ?t \<and>
        set ids \<subseteq> set (member_ids sess) \<and> ctx' = initial_context"
    proof (cases "is_host sess ?i \<or> members ?rest = []")
      case True
      with handle_leave_cases(1) [OF 2 True] assms show ?thesis
        by (intro exI [of _ "member_ids ?rest"] exI [of _ closed_frame]) simp
    next
      case False
      with handle_leave_cases(2) [OF 2 False] assms show ?thesis
        by (intro exI [of _ "filter (\<lambda>j. j \<noteq> 0) (member_ids ?rest)"]
            exI [of _ "left_frame ?i (case map_of (members sess) ?i of Some m \<Rightarrow> mem_name m | None \<Rightarrow> [])"])
          simp
    qed
    then obtain ids buf where s': "s' = sends (broadcast (connections s) ids buf) ?t"
      and ids: "set ids \<subseteq> set (member_ids sess)" and ctx': "ctx' = initial_context" by blast
    note targets = broadcast_targets [OF 2(2) ids, of buf]
    have "fst ` set (broadcast (connections s) ids buf @ ns) \<subseteq> insert c (member_conns s)"
      using broadcast_targets [OF 2(2) ids, of buf] reply by auto
    from service_step.left [where oc = oc, OF 2(1) ctx_eta this 2(2)]
    show ?thesis unfolding s' ctx' sends_sends .
  qed
qed

lemma close_dispatch_refines:
  assumes "handle_close_session s ctx = Some (res, s1, ctx')" and "fst ` set ns \<subseteq> {c}"
  shows "service_step oc c (s, ctx) (sends ns s1, ctx')"
  using assms leave_dispatch_refines [of s ctx res s1 ctx' ns]
  by (auto simp: handle_close_session_def intro!: stay_sends
      split: if_split_asm option.split_asm)

lemma leave_reply_refines:
  assumes "handle_leave s ctx = Some (res, s1, ctx')"
  shows "service_step oc c (s, ctx) (sends [(c, buf)] s1, ctx')"
  using leave_dispatch_refines [OF assms, of "[(c, buf)]" c] by simp

lemma close_reply_refines:
  assumes "handle_close_session s ctx = Some (res, s1, ctx')"
  shows "service_step oc c (s, ctx) (sends [(c, buf)] s1, ctx')"
  using close_dispatch_refines [OF assms, of "[(c, buf)]" c] by simp

lemma create_refines:
  assumes inv: "server_inv s" and step: "dispatch_create p c s ctx = Some (s', ctx')"
  shows "service_step OP_CREATE c (s, ctx) (s', ctx')"
proof -
  obtain r where r: "parseCreateMessage p = Some r" using parse_total(2) by blast
  show ?thesis
  proof (cases "ok r")
    case False
    with r step show ?thesis
      by (auto simp: dispatch_create_def server_simps intro!: stay_sends)
  next
    case True
    let ?sid = "next_session_id s" and ?mid = "next_member_id s"
    have "handle_create ?sid (val r) (s\<lparr>next_session_id := ?sid + 1\<rparr>) ctx =
      (success True, s\<lparr>next_session_id := ?sid + 1, next_member_id := ?mid + 1,
         sessions := (sessions s)(?sid \<mapsto> new_session ?sid ?mid (val r))\<rparr>,
       ctx\<lparr>ctx_member_id := ?mid, ctx_session_id := ?sid\<rparr>)"
      using server_inv_fresh_session [OF inv] by (simp add: handle_create_fresh)
    with r True step have
      "s' = sends [(c, create_ack_frame ?sid ?mid)]
        (register_connection ?mid c (s\<lparr>next_session_id := ?sid + 1,
          next_member_id := ?mid + 1,
          sessions := (sessions s)(?sid \<mapsto> new_session ?sid ?mid (val r))\<rparr>))"
      and "ctx' = \<lparr>ctx_member_id = ?mid, ctx_session_id = ?sid\<rparr>"
      by (simp_all add: dispatch_create_def serialize_plain server_simps create_ack_frame_def Let_def)
    then show ?thesis by (simp add: service_step.created)
  qed
qed

lemma join_refines:
  assumes inv: "server_inv s" and step: "dispatch_join p c s ctx = Some (s', ctx')"
  shows "service_step OP_JOIN c (s, ctx) (s', ctx')"
proof -
  obtain r where r: "parseJoinMessage p = Some r" using parse_total(3) by blast
  let ?sid = "jm_session_id (val r)" and ?name = "jm_name (val r)" and ?mid = "next_member_id s"
  consider "\<not> ok r" | "ok r" "sessions s ?sid = None"
    | sess where "ok r" "sessions s ?sid = Some sess"
    by (cases "sessions s ?sid") auto
  then show ?thesis
  proof cases
    case 1
    with r step show ?thesis
      by (auto simp: dispatch_join_def server_simps intro!: stay_sends)
  next
    case 2
    with r step have "s' = sends [(c, join_ack_frame (ctx_member_id ctx))]
        (register_connection (ctx_member_id ctx) c (s\<lparr>next_member_id := ?mid + 1\<rparr>))"
      and "ctx' = ctx"
      by (auto simp: dispatch_join_def handle_join_def serialize_plain server_simps
          register_connection_def join_ack_frame_def Let_def)
    then show ?thesis
      using service_step.refused_join [OF refl _ 2(2), of "[(c, join_ack_frame (ctx_member_id ctx))]" c ctx]
      by simp
  next
    case (3 sess)
    note sinv = server_invD [OF inv 3(2)]
    let ?joined = "joined_session sess ?mid ?name"
    have ids: "member_ids ?joined = member_ids sess @ [?mid]"
      using member_ids_joined server_inv_fresh_member [OF inv 3(2)] by blast
    let ?ms = "broadcast (connections s) (filter (\<lambda>i. i \<noteq> ?mid) (member_ids ?joined))
          (joined_frame ?mid ?name) @
        map (\<lambda>m. (c, joined_frame (mem_id m) (mem_name m))) (map snd (members ?joined)) @
        [(c, join_ack_frame ?mid)]"
    from r step 3(1) handle_join_open [OF 3(2) session_invD(4,1) [OF sinv], of ?name ctx]
    have "s' = sends ?ms (register_connection ?mid c
        (s\<lparr>next_member_id := ?mid + 1, sessions := (sessions s)(?sid \<mapsto> ?joined)\<rparr>))"
      and ctx': "ctx' = \<lparr>ctx_member_id = ?mid, ctx_session_id = ?sid\<rparr>"
      by (auto simp: dispatch_join_def serialize_plain server_simps register_connection_def
          join_ack_frame_def sends_def Let_def)
    moreover have "fst ` set ?ms \<subseteq> insert c (member_conns s)"
      using ids by (auto intro: member_connsI [OF 3(2)])
    ultimately show ?thesis using 3(2) by (simp add: service_step.joined)
  qed
qed

lemma dispatch_refines:
  assumes "server_inv s" and "dispatch h p c s ctx = Some (s', ctx')"
  shows "service_step (opcode h) c (s, ctx) (s', ctx')"
  using assms
  by (auto simp: dispatch_def server_simps create_refines join_refines
      intro: leave_reply_refines close_reply_refines canvas_request_refines
        canvas_state_refines draw_refines canvas_clear_refines stay_sends
      split: if_split_asm elim!: bind_eq_SomeE)

end
