(* ===== verification/World.thy ===== *)
theory World
  imports Server_World
begin

text \<open>
  The world of one server: its state, the client threads that run (each with the context its
  receive loop keeps) and the number the next accepted connection gets. The events are an accepted
  client, one dispatched message and the end of a client thread (\<open>handle_tcp_client\<close>,
  \<open>handle_ws_client\<close> and the accept loops of \<open>server/server.cpp\<close>), in any order.

  A connection object lives on the stack of its client thread, and \<open>connections\<close> points to
  it: a send to a connection whose thread has ended is a use after free. The development shows
  that no such send happens while a client that is in a session does not ask to create or join
  another one, and that one does happen otherwise.
\<close>

section \<open>Events\<close>

record world =
  srv :: server
  clients :: "conn \<Rightarrow> clientContext option"
  next_conn :: conn

datatype event = Accept | Deliver conn Header bytes | Finish conn

definition initial_world :: "u16 \<Rightarrow> world" where
  "initial_world port = \<lparr>srv = initial_server port, clients = Map.empty, next_conn = 0\<rparr>"

fun world_next :: "event \<Rightarrow> world \<Rightarrow> world option" where
  "world_next Accept w =
     Some (w\<lparr>clients := (clients w)(next_conn w \<mapsto> initial_context), next_conn := next_conn w + 1\<rparr>)"
| "world_next (Deliver c h p) w = do {
     ctx \<leftarrow> clients w c;
     (s, ctx) \<leftarrow> dispatch h p c (srv w) ctx;
     Some (w\<lparr>srv := s, clients := (clients w)(c \<mapsto> ctx)\<rparr>) }"
| "world_next (Finish c) w = do {
     ctx \<leftarrow> clients w c;
     s \<leftarrow> client_exit (srv w) ctx;
     Some (w\<lparr>srv := s, clients := (clients w)(c := None)\<rparr>) }"

fun world_run :: "event list \<Rightarrow> world \<Rightarrow> world option" where
  "world_run [] w = Some w"
| "world_run (e # es) w = do { w \<leftarrow> world_next e w; world_run es w }"

text \<open>
  A context is attached while its member is in its session. A run is \<open>orderly\<close> when no
  attached client sends \<open>OP_CREATE\<close> or \<open>OP_JOIN\<close>.
\<close>

definition attached :: "server \<Rightarrow> clientContext \<Rightarrow> bool" where
  "attached s ctx =
     (case sessions s (ctx_session_id ctx) of
        None \<Rightarrow> False
      | Some sess \<Rightarrow> ctx_member_id ctx \<in> set (member_ids sess))"

fun orderly :: "event \<Rightarrow> world \<Rightarrow> bool" where
  "orderly (Deliver c h p) w =
     (opcode h \<in> {OP_CREATE, OP_JOIN} \<longrightarrow>
       (case clients w c of None \<Rightarrow> True | Some ctx \<Rightarrow> \<not> attached (srv w) ctx))"
| "orderly _ w = True"

inductive reachable :: "bool \<Rightarrow> u16 \<Rightarrow> world \<Rightarrow> bool" for g :: bool and port :: u16 where
  start: "reachable g port (initial_world port)"
| step: "reachable g port w \<Longrightarrow> ids_left (srv w) \<Longrightarrow> (g \<Longrightarrow> orderly e w) \<Longrightarrow>
    world_next e w = Some w' \<Longrightarrow> reachable g port w'"

definition fresh_sends :: "world \<Rightarrow> world \<Rightarrow> (conn \<times> bytes) list" where
  "fresh_sends w w' = drop (length (wire (srv w))) (wire (srv w'))"

section \<open>The session invariant is kept by every message\<close>

lemma service_step_inv:
  assumes step: "service_step oc c (s, ctx) (s', ctx')" and inv: "server_inv s" and left: "ids_left s"
  shows "server_inv s'"
  using step
proof (rule service_stepE)
  fix ms
  assume "s' = sends ms s"
  with inv show ?thesis by simp
next
  fix ms
  assume "s' = sends ms (register_connection (ctx_member_id ctx) c
    (s\<lparr>next_member_id := next_member_id s + 1\<rparr>))"
  with server_inv_bump [OF inv] left show ?thesis
    by (simp add: register_connection_def ids_left_def)
next
  fix ms name
  assume "s' = sends ms (register_connection (next_member_id s) c
    (s\<lparr>next_session_id := next_session_id s + 1, next_member_id := next_member_id s + 1,
       sessions := (sessions s)(next_session_id s \<mapsto>
         new_session (next_session_id s) (next_member_id s) name)\<rparr>))"
  with server_inv_create [OF inv left, of name] show ?thesis by (simp add: register_connection_def)
next
  fix ms sid sess name
  assume "sessions s sid = Some sess" and "s' = sends ms (register_connection (next_member_id s) c
    (s\<lparr>next_member_id := next_member_id s + 1,
       sessions := (sessions s)(sid \<mapsto> joined_session sess (next_member_id s) name)\<rparr>))"
  with server_inv_join [OF inv left, of sid sess name] show ?thesis
    by (simp add: register_connection_def)
next
  fix i sid ms sess
  assume sess: "sessions s sid = Some sess" and s': "s' = sends ms (s\<lparr>sessions := (sessions s)(sid :=
    (if is_host sess i \<or> members (without_member sess i) = [] then None
     else Some (without_member sess i)))\<rparr>)"
  show ?thesis
    using s' server_inv_close [OF inv, of sid] server_inv_remove [OF inv sess, of i] by simp
qed

lemma dispatch_keeps_inv:
  assumes "server_inv s" and "ids_left s" and "dispatch h p c s ctx = Some (s', ctx')"
  shows "server_inv s'"
  using service_step_inv [OF dispatch_refines [OF assms(1,3)]] assms by blast

lemma service_step_wire:
  assumes "service_step oc c (s, ctx) (s', ctx')"
  shows "\<exists>ms. wire s' = wire s @ ms \<and> fst ` set ms \<subseteq> insert c (member_conns s)"
  using assms
  by (cases rule: service_stepE) (force simp: register_connection_def)+

text \<open>The end of a client thread is a step of the service after its entry is unregistered.\<close>

lemma client_exit_refines:
  assumes "client_exit s ctx = Some s'"
  obtains "ctx_member_id ctx = 0" "s' = s"
  | ctx' where "ctx_member_id ctx \<noteq> 0"
      "service_step OP_LEAVE c (unregister_connection (ctx_member_id ctx) s, ctx) (s', ctx')"
proof (cases "ctx_member_id ctx = 0")
  case True
  with assms that(1) show ?thesis by (simp add: client_exit_def)
next
  case False
  with assms obtain res ctx' where
    "handle_leave (unregister_connection (ctx_member_id ctx) s) ctx = Some (res, s', ctx')"
    by (auto simp: client_exit_def Let_def elim!: bind_eq_SomeE)
  from leave_dispatch_refines [OF this, of "[]" c OP_LEAVE] False that(2) show ?thesis by simp
qed

lemma server_inv_unregister [simp]: "server_inv (unregister_connection i s) = server_inv s"
  by (simp add: unregister_connection_def)

lemma ids_left_unregister [simp]: "ids_left (unregister_connection i s) = ids_left s"
  by (simp add: unregister_connection_def ids_left_def)

lemma client_exit_inv:
  assumes inv: "server_inv s" and left: "ids_left s" and exit: "client_exit s ctx = Some s'"
  shows "server_inv s'"
  using exit
proof (rule client_exit_refines [where c = 0])
  fix ctx'
  assume "service_step OP_LEAVE 0 (unregister_connection (ctx_member_id ctx) s, ctx) (s', ctx')"
  then show ?thesis by (rule service_step_inv) (use inv left in simp_all)
qed (use inv in simp)

lemma world_next_inv:
  assumes "server_inv (srv w)" and "ids_left (srv w)" and "world_next e w = Some w'"
  shows "server_inv (srv w')"
proof (cases e)
  case Accept
  with assms show ?thesis by auto
next
  case (Deliver c h p)
  with assms show ?thesis by (auto elim!: bind_eq_SomeE intro: dispatch_keeps_inv)
next
  case (Finish c)
  with assms show ?thesis by (auto elim!: bind_eq_SomeE intro: client_exit_inv)
qed

lemma reachable_server_inv: "reachable g port w \<Longrightarrow> server_inv (srv w)"
proof (induction rule: reachable.induct)
  case start
  then show ?case by (simp add: initial_world_def server_inv_initial)
next
  case (step w e w')
  then show ?case using world_next_inv by blast
qed

section \<open>Members and live connections\<close>

text \<open>
  Every member of a session is registered, and its connection belongs to a running client whose
  context names the member and the session. No two clients hold the same member.
\<close>

definition linked :: "server \<Rightarrow> (conn \<Rightarrow> clientContext option) \<Rightarrow> bool" where
  "linked s cl \<longleftrightarrow>
     (\<forall>c ctx. cl c = Some ctx \<longrightarrow> ctx_member_id ctx < next_member_id s) \<and>
     (\<forall>c ctx c' ctx'. cl c = Some ctx \<longrightarrow> cl c' = Some ctx' \<longrightarrow>
        ctx_member_id ctx = ctx_member_id ctx' \<longrightarrow> ctx_member_id ctx \<noteq> 0 \<longrightarrow> c = c') \<and>
     (\<forall>sid sess k. sessions s sid = Some sess \<longrightarrow> k \<in> set (member_ids sess) \<longrightarrow>
        (\<exists>c. connections s k = Some c \<and> cl c = Some \<lparr>ctx_member_id = k, ctx_session_id = sid\<rparr>))"

lemma linkedD_bound: "linked s cl \<Longrightarrow> cl c = Some ctx \<Longrightarrow> ctx_member_id ctx < next_member_id s"
  by (simp add: linked_def)

lemma linkedD_unique:
  "linked s cl \<Longrightarrow> cl c = Some ctx \<Longrightarrow> cl c' = Some ctx' \<Longrightarrow>
    ctx_member_id ctx = ctx_member_id ctx' \<Longrightarrow> ctx_member_id ctx \<noteq> 0 \<Longrightarrow> c = c'"
  by (simp add: linked_def)

lemma linkedD_member:
  assumes "linked s cl" and "sessions s sid = Some sess" and "k \<in> set (member_ids sess)"
  obtains c where "connections s k = Some c"
    and "cl c = Some \<lparr>ctx_member_id = k, ctx_session_id = sid\<rparr>"
  using assms unfolding linked_def by blast

lemma linkedI:
  assumes "\<And>c ctx. cl c = Some ctx \<Longrightarrow> ctx_member_id ctx < next_member_id s"
    and "\<And>c ctx c' ctx'. cl c = Some ctx \<Longrightarrow> cl c' = Some ctx' \<Longrightarrow>
        ctx_member_id ctx = ctx_member_id ctx' \<Longrightarrow> ctx_member_id ctx \<noteq> 0 \<Longrightarrow> c = c'"
    and "\<And>sid sess k. sessions s sid = Some sess \<Longrightarrow> k \<in> set (member_ids sess) \<Longrightarrow>
        \<exists>c. connections s k = Some c \<and> cl c = Some \<lparr>ctx_member_id = k, ctx_session_id = sid\<rparr>"
  shows "linked s cl"
  unfolding linked_def using assms by blast

lemma linked_member_conns: "linked s cl \<Longrightarrow> member_conns s \<subseteq> dom cl"
  unfolding member_conns_def by (auto elim: linkedD_member)

lemma attachedI:
  "sessions s sid = Some sess \<Longrightarrow> k \<in> set (member_ids sess) \<Longrightarrow>
    attached s \<lparr>ctx_member_id = k, ctx_session_id = sid\<rparr>"
  by (simp add: attached_def)

text \<open>A client that takes a fresh member of a session.\<close>

lemma linked_enter:
  assumes linked: "linked s cl" and inv: "server_inv s" and left: "ids_left s"
    and ctx: "cl c = Some ctx" "\<not> attached s ctx"
    and s': "next_member_id s' = next_member_id s + 1"
      "connections s' = (connections s)(next_member_id s \<mapsto> c)"
      "sessions s' = (sessions s)(sid \<mapsto> sess')"
      "set (member_ids sess') = insert (next_member_id s)
        (case sessions s sid of None \<Rightarrow> {} | Some sess \<Rightarrow> set (member_ids sess))"
  shows "linked s' (cl(c \<mapsto> \<lparr>ctx_member_id = next_member_id s, ctx_session_id = sid\<rparr>))"
proof (rule linkedI)
  have less: "next_member_id s < next_member_id s + 1"
    using left counter_less by (simp add: ids_left_def)
  show "ctx_member_id x < next_member_id s'"
    if "(cl(c \<mapsto> \<lparr>ctx_member_id = next_member_id s, ctx_session_id = sid\<rparr>)) d = Some x" for d x
    using that linkedD_bound [OF linked] less s'(1) by (auto split: if_split_asm intro: less_trans)
  show "d = d'"
    if "(cl(c \<mapsto> \<lparr>ctx_member_id = next_member_id s, ctx_session_id = sid\<rparr>)) d = Some x"
      "(cl(c \<mapsto> \<lparr>ctx_member_id = next_member_id s, ctx_session_id = sid\<rparr>)) d' = Some y"
      "ctx_member_id x = ctx_member_id y" "ctx_member_id x \<noteq> 0" for d x d' y
    using that linkedD_bound [OF linked] linkedD_unique [OF linked]
    by (fastforce split: if_split_asm)
next
  fix sid' sess k
  assume a: "sessions s' sid' = Some sess" "k \<in> set (member_ids sess)"
  let ?goal = "\<exists>d. connections s' k = Some d \<and>
    (cl(c \<mapsto> \<lparr>ctx_member_id = next_member_id s, ctx_session_id = sid\<rparr>)) d =
      Some \<lparr>ctx_member_id = k, ctx_session_id = sid'\<rparr>"
  have "k = next_member_id s \<and> sid' = sid \<or>
      (\<exists>old. sessions s sid' = Some old \<and> k \<in> set (member_ids old))"
    using a s'(3,4) by (auto split: if_split_asm option.split_asm)
  then show ?goal
  proof
    assume "k = next_member_id s \<and> sid' = sid"
    then show ?goal using s'(2) by simp
  next
    assume "\<exists>old. sessions s sid' = Some old \<and> k \<in> set (member_ids old)"
    then obtain old where old: "sessions s sid' = Some old" "k \<in> set (member_ids old)" by blast
    obtain d where d: "connections s k = Some d"
        "cl d = Some \<lparr>ctx_member_id = k, ctx_session_id = sid'\<rparr>"
      by (rule linkedD_member [OF linked old])
    have "d \<noteq> c" using attachedI [OF old] d(2) ctx by auto
    moreover have "k \<noteq> next_member_id s" using server_inv_fresh_member [OF inv old(1)] old(2) by auto
    ultimately show ?goal using d s'(2) by simp
  qed
qed

text \<open>A client that gives up its member.\<close>

lemma linked_shrink:
  assumes linked: "linked s cl" and inv: "server_inv s" and ctx: "cl c = Some ctx"
    and s': "next_member_id s' = next_member_id s"
      "\<And>k. k \<noteq> ctx_member_id ctx \<Longrightarrow> connections s' k = connections s k"
      "\<And>sid sess. sessions s' sid = Some sess \<Longrightarrow> \<exists>old. sessions s sid = Some old \<and>
        set (member_ids sess) \<subseteq> set (member_ids old) \<and>
        (sid = ctx_session_id ctx \<longrightarrow> ctx_member_id ctx \<notin> set (member_ids sess))"
    and o': "o' = None \<or> o' = Some initial_context"
  shows "linked s' (cl(c := o'))"
proof (rule linkedI)
  show "ctx_member_id x < next_member_id s'" if "(cl(c := o')) d = Some x" for d x
    using that linkedD_bound [OF linked] s'(1) o' server_inv_nonzero [OF inv]
    by (auto simp: initial_context_def word_neq_0_conv split: if_split_asm)
  show "d = d'"
    if "(cl(c := o')) d = Some x" "(cl(c := o')) d' = Some y"
      "ctx_member_id x = ctx_member_id y" "ctx_member_id x \<noteq> 0" for d x d' y
    using that linkedD_unique [OF linked, of d x d' y] o'
    by (auto simp: initial_context_def split: if_split_asm)
next
  fix sid sess k
  assume a: "sessions s' sid = Some sess" "k \<in> set (member_ids sess)"
  from s'(3) [OF a(1)] a(2) obtain old where
    old: "sessions s sid = Some old" "k \<in> set (member_ids old)" by blast
  obtain d where d: "connections s k = Some d"
      "cl d = Some \<lparr>ctx_member_id = k, ctx_session_id = sid\<rparr>"
    by (rule linkedD_member [OF linked old])
  have "k \<noteq> ctx_member_id ctx"
  proof
    assume k: "k = ctx_member_id ctx"
    then have "d = c"
      using linkedD_unique [OF linked d(2) ctx] session_invD(7) [OF server_invD [OF inv old(1)] old(2)]
      by simp
    with d(2) ctx have "ctx_session_id ctx = sid" by simp
    with s'(3) [OF a(1)] a(2) k show False by blast
  qed
  moreover from this d(2) ctx have "d \<noteq> c" by auto
  ultimately show "\<exists>d. connections s' k = Some d \<and>
      (cl(c := o')) d = Some \<lparr>ctx_member_id = k, ctx_session_id = sid\<rparr>"
    using d s'(2) by auto
qed

lemma linked_refused:
  assumes linked: "linked s cl" and inv: "server_inv s" and left: "ids_left s"
    and ctx: "cl c = Some ctx"
  shows "linked (s\<lparr>next_member_id := next_member_id s + 1,
    connections := (connections s)(ctx_member_id ctx \<mapsto> c)\<rparr>) cl"
proof (rule linkedI)
  have less: "next_member_id s < next_member_id s + 1"
    using left counter_less by (simp add: ids_left_def)
  show "ctx_member_id x < next_member_id (s\<lparr>next_member_id := next_member_id s + 1,
    connections := (connections s)(ctx_member_id ctx \<mapsto> c)\<rparr>)" if "cl d = Some x" for d x
    using linkedD_bound [OF linked that] less by (auto intro: less_trans)
next
  fix sid sess k
  assume a: "sessions (s\<lparr>next_member_id := next_member_id s + 1,
    connections := (connections s)(ctx_member_id ctx \<mapsto> c)\<rparr>) sid = Some sess"
    and k: "k \<in> set (member_ids sess)"
  then have old: "sessions s sid = Some sess" by simp
  obtain d where d: "connections s k = Some d"
      "cl d = Some \<lparr>ctx_member_id = k, ctx_session_id = sid\<rparr>"
    by (rule linkedD_member [OF linked old k])
  have "d = c" if "k = ctx_member_id ctx"
    using linkedD_unique [OF linked d(2) ctx] session_invD(7) [OF server_invD [OF inv old] k] that
    by simp
  with d show "\<exists>d. connections (s\<lparr>next_member_id := next_member_id s + 1,
      connections := (connections s)(ctx_member_id ctx \<mapsto> c)\<rparr>) k = Some d \<and>
      cl d = Some \<lparr>ctx_member_id = k, ctx_session_id = sid\<rparr>" by auto
qed (use linkedD_unique [OF linked] in blast)

lemma linked_cong:
  "sessions s = sessions t \<Longrightarrow> connections s = connections t \<Longrightarrow>
    next_member_id s = next_member_id t \<Longrightarrow> linked s cl = linked t cl"
  by (simp add: linked_def)

lemma linked_sends [simp]: "linked (sends ms s) cl = linked s cl"
  by (rule linked_cong) simp_all

lemma linked_same [simp]: "cl c = Some ctx \<Longrightarrow> cl(c \<mapsto> ctx) = cl"
  by (rule fun_upd_idem) simp

lemma service_step_linked:
  assumes step: "service_step oc c (s, ctx) (s', ctx')" and linked: "linked s cl"
    and inv: "server_inv s" and left: "ids_left s" and ctx: "cl c = Some ctx"
    and orderly: "oc \<in> {OP_CREATE, OP_JOIN} \<Longrightarrow> \<not> attached s ctx"
  shows "linked s' (cl(c \<mapsto> ctx'))"
  using step
proof (rule service_stepE)
  fix ms
  assume "s' = sends ms s" and "ctx' = ctx"
  with linked ctx show ?thesis by simp
next
  fix ms
  assume "s' = sends ms (register_connection (ctx_member_id ctx) c
    (s\<lparr>next_member_id := next_member_id s + 1\<rparr>))" and "ctx' = ctx"
  with linked_refused [OF linked inv left ctx] ctx show ?thesis
    by (simp add: register_connection_def)
next
  fix ms name
  assume "oc = OP_CREATE" and s': "s' = sends ms (register_connection (next_member_id s) c
    (s\<lparr>next_session_id := next_session_id s + 1, next_member_id := next_member_id s + 1,
       sessions := (sessions s)(next_session_id s \<mapsto>
         new_session (next_session_id s) (next_member_id s) name)\<rparr>))"
    and "ctx' = \<lparr>ctx_member_id = next_member_id s, ctx_session_id = next_session_id s\<rparr>"
  with orderly have "\<not> attached s ctx" by simp
  with s' show ?thesis
    unfolding \<open>ctx' = _\<close>
    using server_inv_fresh_session [OF inv]
    by (intro linked_enter [OF linked inv left ctx,
          where sess' = "new_session (next_session_id s) (next_member_id s) name"])
      (simp_all add: register_connection_def)
next
  fix ms sid sess name
  assume "oc = OP_JOIN" and sess: "sessions s sid = Some sess"
    and s': "s' = sends ms (register_connection (next_member_id s) c
    (s\<lparr>next_member_id := next_member_id s + 1,
       sessions := (sessions s)(sid \<mapsto> joined_session sess (next_member_id s) name)\<rparr>))"
    and "ctx' = \<lparr>ctx_member_id = next_member_id s, ctx_session_id = sid\<rparr>"
  with orderly have "\<not> attached s ctx" by simp
  with s' show ?thesis
    unfolding \<open>ctx' = _\<close>
    using member_ids_joined [OF server_inv_fresh_member [OF inv sess]] sess
    by (intro linked_enter [OF linked inv left ctx,
          where sess' = "joined_session sess (next_member_id s) name"])
      (simp_all add: register_connection_def)
next
  fix i sid ms sess
  assume "ctx = \<lparr>ctx_member_id = i, ctx_session_id = sid\<rparr>" and sess: "sessions s sid = Some sess"
    and s': "s' = sends ms (s\<lparr>sessions := (sessions s)(sid :=
    (if is_host sess i \<or> members (without_member sess i) = [] then None
     else Some (without_member sess i)))\<rparr>)" and "ctx' = initial_context"
  then show ?thesis
    by (intro linked_shrink [OF linked inv ctx]) (auto split: if_split_asm)
qed

lemma leave_shrinks:
  assumes leave: "handle_leave s ctx = Some (res, s', ctx')" and "ctx_member_id ctx \<noteq> 0"
  shows "connections s' = connections s" and "next_member_id s' = next_member_id s"
    and "sessions s' sid = Some sess \<Longrightarrow> \<exists>old. sessions s sid = Some old \<and>
        set (member_ids sess) \<subseteq> set (member_ids old) \<and>
        (sid = ctx_session_id ctx \<longrightarrow> ctx_member_id ctx \<notin> set (member_ids sess))"
proof -
  have *: "connections s' = connections s \<and> next_member_id s' = next_member_id s \<and>
      (sessions s' sid = Some sess \<longrightarrow> (\<exists>old. sessions s sid = Some old \<and>
        set (member_ids sess) \<subseteq> set (member_ids old) \<and>
        (sid = ctx_session_id ctx \<longrightarrow> ctx_member_id ctx \<notin> set (member_ids sess))))" for sid sess
  proof (cases "sessions s (ctx_session_id ctx)")
    case None
    then show ?thesis using handle_leave_none(2) [OF assms(2) None] leave by auto
  next
    case (Some old)
    then show ?thesis
      using handle_leave_cases [OF assms(2) Some] leave
      by (cases "is_host old (ctx_member_id ctx) \<or> members (without_member old (ctx_member_id ctx)) = []")
        auto
  qed
  from * show "connections s' = connections s" "next_member_id s' = next_member_id s" by blast+
  from * show "sessions s' sid = Some sess \<Longrightarrow> \<exists>old. sessions s sid = Some old \<and>
        set (member_ids sess) \<subseteq> set (member_ids old) \<and>
        (sid = ctx_session_id ctx \<longrightarrow> ctx_member_id ctx \<notin> set (member_ids sess))" by blast
qed

lemma client_exit_linked:
  assumes exit: "client_exit s ctx = Some s'" and linked: "linked s cl" and inv: "server_inv s"
    and ctx: "cl c = Some ctx"
  shows "linked s' (cl(c := None))"
proof (cases "ctx_member_id ctx = 0")
  case True
  with exit have "s' = s" by (simp add: client_exit_def)
  moreover have "sessions s sid = Some sess \<Longrightarrow> ctx_member_id ctx \<notin> set (member_ids sess)"
    for sid sess
    using True session_invD(7) [OF server_invD [OF inv]] by auto
  ultimately show ?thesis by (intro linked_shrink [OF linked inv ctx]) auto
next
  case False
  with exit obtain res ctx' where
    "handle_leave (unregister_connection (ctx_member_id ctx) s) ctx = Some (res, s', ctx')"
    by (auto simp: client_exit_def Let_def elim!: bind_eq_SomeE)
  note shrink = leave_shrinks [OF this False]
  show ?thesis
    using shrink by (intro linked_shrink [OF linked inv ctx]) (auto simp: unregister_connection_def)
qed

text \<open>The invariant of orderly runs.\<close>

definition world_inv :: "world \<Rightarrow> bool" where
  "world_inv w \<longleftrightarrow> server_inv (srv w) \<and> linked (srv w) (clients w) \<and>
     (\<forall>c. clients w c \<noteq> None \<longrightarrow> c < next_conn w)"

lemma linked_accept:
  assumes "linked s cl" and "server_inv s" and "cl c = None"
  shows "linked s (cl(c \<mapsto> initial_context))"
proof (rule linkedI)
  fix sid sess k
  assume "sessions s sid = Some sess" "k \<in> set (member_ids sess)"
  then show "\<exists>d. connections s k = Some d \<and> (cl(c \<mapsto> initial_context)) d =
      Some \<lparr>ctx_member_id = k, ctx_session_id = sid\<rparr>"
    using assms(3) by (elim linkedD_member [OF assms(1)]) auto
qed (use linkedD_unique [OF assms(1)] linkedD_bound [OF assms(1)] server_inv_nonzero [OF assms(2)] in
    \<open>auto simp: initial_context_def word_neq_0_conv split: if_split_asm\<close>)

lemma world_next_world_inv:
  assumes inv: "world_inv w" and left: "ids_left (srv w)" and "orderly e w"
    and "world_next e w = Some w'"
  shows "world_inv w'"
proof -
  have linked: "linked (srv w) (clients w)" and sinv: "server_inv (srv w)"
    and bound: "\<And>c. clients w c \<noteq> None \<Longrightarrow> c < next_conn w"
    using inv by (simp_all add: world_inv_def)
  have "server_inv (srv w')" using world_next_inv [OF sinv left assms(4)] .
  moreover have "linked (srv w') (clients w') \<and> (\<forall>c. clients w' c \<noteq> None \<longrightarrow> c < next_conn w')"
  proof (cases e)
    case Accept
    have "clients w (next_conn w) = None" using bound by fastforce
    with Accept assms(4) show ?thesis
      by (auto intro!: linked_accept linked sinv less_SucI bound split: if_split_asm)
  next
    case (Deliver c h p)
    then obtain ctx s' ctx' where d: "clients w c = Some ctx"
        "dispatch h p c (srv w) ctx = Some (s', ctx')"
        "w' = w\<lparr>srv := s', clients := (clients w)(c \<mapsto> ctx')\<rparr>"
      using assms(4) by (auto elim!: bind_eq_SomeE)
    have "linked s' ((clients w)(c \<mapsto> ctx'))"
      using service_step_linked [OF dispatch_refines [OF sinv d(2)] linked sinv left d(1)]
        assms(3) Deliver d(1) by auto
    with d bound show ?thesis by auto
  next
    case (Finish c)
    then obtain ctx s' where d: "clients w c = Some ctx" "client_exit (srv w) ctx = Some s'"
        "w' = w\<lparr>srv := s', clients := (clients w)(c := None)\<rparr>"
      using assms(4) by (auto elim!: bind_eq_SomeE)
    with client_exit_linked [OF d(2) linked sinv d(1)] bound show ?thesis by auto
  qed
  ultimately show ?thesis by (simp add: world_inv_def)
qed

lemma reachable_world_inv: "reachable True port w \<Longrightarrow> world_inv w"
proof (induction rule: reachable.induct)
  case start
  then show ?case
    using server_inv_initial [of port]
    by (simp add: initial_world_def world_inv_def linked_def) (simp add: initial_server_def)
next
  case (step w e w')
  then show ?case using world_next_world_inv by blast
qed

text \<open>Where a step sends to.\<close>

lemma world_next_sends:
  assumes inv: "world_inv w" and step: "world_next e w = Some w'"
  shows "fst ` set (fresh_sends w w') \<subseteq> dom (clients w)"
proof -
  have linked: "linked (srv w) (clients w)" and sinv: "server_inv (srv w)"
    using inv by (simp_all add: world_inv_def)
  note live = linked_member_conns [OF linked]
  show ?thesis
  proof (cases e)
    case Accept
    with step show ?thesis by (auto simp: fresh_sends_def)
  next
    case (Deliver c h p)
    then obtain ctx s' ctx' where d: "clients w c = Some ctx"
        "dispatch h p c (srv w) ctx = Some (s', ctx')"
        "w' = w\<lparr>srv := s', clients := (clients w)(c \<mapsto> ctx')\<rparr>"
      using step by (auto elim!: bind_eq_SomeE)
    obtain ms where "wire s' = wire (srv w) @ ms" "fst ` set ms \<subseteq> insert c (member_conns (srv w))"
      using service_step_wire [OF dispatch_refines [OF sinv d(2)]] by blast
    with d live show ?thesis by (auto simp: fresh_sends_def)
  next
    case (Finish c)
    then obtain ctx s' where d: "clients w c = Some ctx" "client_exit (srv w) ctx = Some s'"
        "w' = w\<lparr>srv := s', clients := (clients w)(c := None)\<rparr>"
      using step by (auto elim!: bind_eq_SomeE)
    let ?t = "unregister_connection (ctx_member_id ctx) (srv w)"
    have sub: "member_conns ?t \<subseteq> member_conns (srv w)"
      unfolding member_conns_def unregister_connection_def by (auto split: if_split_asm)
    show ?thesis
    proof (rule client_exit_refines [OF d(2), where c = c])
      fix ctx'
      assume "service_step OP_LEAVE c (?t, ctx) (s', ctx')"
      then obtain ms where "wire s' = wire ?t @ ms" "fst ` set ms \<subseteq> insert c (member_conns ?t)"
        using service_step_wire by blast
      moreover from this sub live have "fst ` set ms \<subseteq> insert c (dom (clients w))" by blast
      ultimately show ?thesis using d by (auto simp: fresh_sends_def unregister_connection_def)
    qed (use d in \<open>simp add: fresh_sends_def\<close>)
  qed
qed

end
