(* ===== verification/Client_Threads.thy ===== *)
theory Client_Threads
  imports Server_Lemmas
begin

text \<open>
  The receive loops of \<open>handle_tcp_client\<close> and \<open>handle_ws_client\<close>: both deliver the
  frames a client sends, in order, and answer on every input.
\<close>

text \<open>The messages of a client, dispatched one after the other.\<close>

fun deliver_all :: "conn \<Rightarrow> Message list \<Rightarrow> server \<Rightarrow> clientContext \<Rightarrow> (server \<times> clientContext) option" where
  "deliver_all c [] s ctx = Some (s, ctx)"
| "deliver_all c (m # ms) s ctx = do {
     (s, ctx) \<leftarrow> dispatch (header m) (payload m) c s ctx;
     deliver_all c ms s ctx }"

definition well_framed :: "Message \<Rightarrow> bool" where
  "well_framed m \<longleftrightarrow> unat (hdr_length (header m)) = length (payload m)"

text \<open>What a broken connection leaves: less than a header, or a header whose payload is cut.\<close>

definition cut_frame :: "bytes \<Rightarrow> bool" where
  "cut_frame bs \<longleftrightarrow> length bs < HEADER_SIZE \<or>
     (\<exists>h rest. bs = header_image h @ rest \<and> length rest < unat (hdr_length h))"

lemma stream_receive_exact:
  "length a = n \<Longrightarrow> stream_receive n (a @ b) = Some (a, b)"
  by (auto simp: stream_receive_def)

lemma parseHeader_frame: "parseHeader (header_image h) = Some (success h)"
  using parseHeader_image [of h "[]"] by simp

lemma tcp_loop_frame:
  assumes "well_framed m"
  shows "tcp_loop c (frame_image m @ rest) s ctx =
    Option.bind (dispatch (header m) (payload m) c s ctx) (\<lambda>(s, ctx). tcp_loop c rest s ctx)"
  using assms
  by (subst tcp_loop.simps)
    (simp add: frame_image_def stream_receive_exact parseHeader_frame well_framed_def)

lemma tcp_loop_cut:
  assumes "cut_frame bs"
  shows "tcp_loop c bs s ctx = Some (s, ctx)"
proof (cases "length bs < HEADER_SIZE")
  case True
  then show ?thesis by (subst tcp_loop.simps) (simp add: stream_receive_def)
next
  case False
  with assms obtain h rest where "bs = header_image h @ rest" "length rest < unat (hdr_length h)"
    by (auto simp: cut_frame_def)
  then show ?thesis
    by (subst tcp_loop.simps) (simp add: stream_receive_exact parseHeader_frame, simp add: stream_receive_def)
qed

lemma tcp_loop_delivers:
  assumes "list_all well_framed ms" and "cut_frame tail"
  shows "tcp_loop c (concat (map frame_image ms) @ tail) s ctx = deliver_all c ms s ctx"
  using assms
proof (induction ms arbitrary: s ctx)
  case Nil
  then show ?case by (simp add: tcp_loop_cut)
next
  case (Cons m ms)
  then have "tcp_loop c (frame_image m @ concat (map frame_image ms) @ tail) s ctx =
      Option.bind (dispatch (header m) (payload m) c s ctx) (\<lambda>(s, ctx). deliver_all c ms s ctx)"
    by (simp add: tcp_loop_frame)
  then show ?case by simp
qed

lemma frame_image_neq_Nil [simp]: "frame_image m \<noteq> []"
  by (simp add: frame_image_def header_image_def)

lemma ws_loop_delivers:
  assumes "list_all well_framed ms"
  shows "ws_loop c (map frame_image ms) s ctx = deliver_all c ms s ctx"
  using assms
proof (induction ms arbitrary: s ctx)
  case Nil
  then show ?case by simp
next
  case (Cons m ms)
  have "length (frame_image m) = 6 + unat (hdr_length (header m))"
    using Cons.prems by (simp add: frame_image_def well_framed_def)
  moreover have "subspan (frame_image m) 6 (unat (hdr_length (header m))) = Some (payload m)"
    using Cons.prems by (simp add: frame_image_def well_framed_def subspan_slice)
  moreover have "parseHeader (frame_image m) = Some (success (header m))"
    by (simp add: frame_image_def parseHeader_image)
  moreover have "ws_loop c (map frame_image ms) = deliver_all c ms"
    using Cons by (intro ext) simp
  ultimately show ?case by simp
qed

text \<open>The loops answer on every input.\<close>

lemma tcp_loop_total: "\<exists>r. tcp_loop c stream s ctx = Some r"
proof (induction c stream s ctx rule: tcp_loop.induct)
  case (1 c stream s ctx)
  show ?case
  proof (cases "stream_receive HEADER_SIZE stream")
    case None
    then show ?thesis by (subst tcp_loop.simps) simp
  next
    case (Some hr)
    obtain hdr stream1 where hr: "hr = (hdr, stream1)" by (cases hr)
    obtain h where h: "parseHeader hdr = Some h" using parse_total(1) by blast
    show ?thesis
    proof (cases "ok h")
      case False
      with Some hr h show ?thesis by (subst tcp_loop.simps) simp
    next
      case True
      show ?thesis
      proof (cases "stream_receive (unat (hdr_length (val h))) stream1")
        case None
        with Some hr h show ?thesis by (subst tcp_loop.simps) simp
      next
        case (Some pr)
        obtain p stream2 where pr: "pr = (p, stream2)" by (cases pr)
        obtain s' ctx' where d: "dispatch (val h) p c s ctx = Some (s', ctx')"
          using dispatch_total by fastforce
        have "\<exists>r. tcp_loop c stream2 s' ctx' = Some r"
          using 1 \<open>stream_receive HEADER_SIZE stream = Some hr\<close> hr h True Some pr d by blast
        with \<open>stream_receive HEADER_SIZE stream = Some hr\<close> hr h True Some pr d
        show ?thesis by (subst tcp_loop.simps) simp
      qed
    qed
  qed
qed

lemma ws_loop_total: "\<exists>r. ws_loop c msgs s ctx = Some r"
proof (induction msgs arbitrary: s ctx)
  case Nil
  then show ?case by simp
next
  case (Cons msg msgs)
  obtain h where h: "parseHeader msg = Some h" using parse_total(1) by blast
  show ?case
  proof (cases "msg \<noteq> [] \<and> ok h \<and> length msg = HEADER_SIZE + unat (hdr_length (val h))")
    case False
    with h Cons.IH [of s ctx] show ?thesis by (cases "msg = []"; cases "ok h") simp_all
  next
    case True
    then obtain body where body: "subspan msg HEADER_SIZE (unat (hdr_length (val h))) = Some body"
      by (simp add: subspan_def)
    obtain s' ctx' where d: "dispatch (val h) body c s ctx = Some (s', ctx')"
      using dispatch_total by fastforce
    with True h body Cons.IH [of s' ctx'] show ?thesis by simp
  qed
qed

end
