(* ===== verification/Server_Properties.thy ===== *)
theory Server_Properties
  imports World Client_Threads Wire_Properties
begin

text \<open>
  What the relay server promises: memory safety, the session invariant, refinement of the
  session service, live targets of every send, and what each request does to whom.
\<close>

section \<open>Safety of the whole server\<close>

text \<open>C19: whatever bytes a client sends over TCP or a websocket, its thread runs to its end
  without reading or writing outside a buffer: parsing, dispatching and leaving always answer.\<close>

theorem client_threads_safe:
  "handle_tcp_client c stream s \<noteq> None \<and> handle_ws_client c msgs s \<noteq> None"
proof -
  obtain s1 ctx1 where "tcp_loop c stream s initial_context = Some (s1, ctx1)"
    using tcp_loop_total by fastforce
  moreover obtain s2 ctx2 where "ws_loop c msgs s initial_context = Some (s2, ctx2)"
    using ws_loop_total by fastforce
  moreover obtain s3 where "client_exit s1 ctx1 = Some s3" using client_exit_total by blast
  moreover obtain s4 where "client_exit s2 ctx2 = Some s4" using client_exit_total by blast
  ultimately show ?thesis by (simp add: handle_tcp_client_def handle_ws_client_def)
qed

text \<open>C26: the same well-formed frames have the same effect over TCP, as one byte stream that may
  end in a cut frame, and over a websocket, one message each: they are dispatched in order.\<close>

theorem transports_agree:
  assumes "list_all well_framed ms" and "cut_frame tail"
  shows "handle_tcp_client c (concat (map frame_image ms) @ tail) s =
    handle_ws_client c (map frame_image ms) s"
  using tcp_loop_delivers [OF assms] ws_loop_delivers [OF assms(1)]
  by (simp add: handle_tcp_client_def handle_ws_client_def)

definition clear_message :: Message where
  "clear_message = \<lparr>header = \<lparr>opcode = OP_CANVAS_CLEAR, flags = 0, hdr_length = 0\<rparr>, payload = []\<rparr>"

lemma transports_agree_witness:
  "handle_tcp_client 0 (concat (map frame_image [clear_message, clear_message]) @ [1, 0])
     (initial_server 9000) =
   handle_ws_client 0 (map frame_image [clear_message, clear_message]) (initial_server 9000)"
  by (rule transports_agree) (simp_all add: well_framed_def clear_message_def cut_frame_def)

section \<open>Sessions\<close>

text \<open>C11: in every reachable state of the server the sessions are well-formed: ids below the
  counters and never 0, the host a member, members keyed by their id and marked host exactly when
  they are, and no member in two sessions.\<close>

theorem sessions_well_formed:
  assumes "reachable g port w"
  shows "server_inv (srv w)"
  using assms by (rule reachable_server_inv)

lemma sessions_well_formed_witness: "server_inv (srv (initial_world 9000))"
  by (rule sessions_well_formed [where g = False]) (rule reachable.start)

text \<open>C1: every message a client can send is a step of the session service: it leaves the tables
  alone, refuses a join, creates one session with the sender as host, adds the sender to one
  session or removes it from its own (the session with it, when it was the host or the last); it
  writes to the sender and to registered members only.\<close>

theorem dispatch_refines_service:
  assumes "server_inv s" and "dispatch h p c s ctx = Some (s', ctx')"
  shows "service_step (opcode h) c (s, ctx) (s', ctx')"
  using assms by (rule dispatch_refines)

lemma dispatch_clear_initial:
  "dispatch \<lparr>opcode = OP_CANVAS_CLEAR, flags = 0, hdr_length = 0\<rparr> [] 0 (initial_server 9000) initial_context =
     Some (sends [(0, error_frame ERR_UNKNOWN ''not in a session'')] (initial_server 9000), initial_context)"
  by (simp add: dispatch_def handle_canvas_clear_def initial_context_def server_simps)

lemma dispatch_refines_service_witness:
  "service_step OP_CANVAS_CLEAR 0 (initial_server 9000, initial_context)
     (sends [(0, error_frame ERR_UNKNOWN ''not in a session'')] (initial_server 9000), initial_context)"
  using dispatch_refines_service [OF server_inv_initial dispatch_clear_initial] by simp

text \<open>C12: as long as no client that is in a session asks to create or join another, every send
  of every step goes to a client whose thread is running: no pointer in the connection table is
  used after its connection is gone.\<close>

theorem no_send_to_the_dead:
  assumes "reachable True port w" and "world_next e w = Some w'"
  shows "\<forall>(c, buf) \<in> set (fresh_sends w w'). clients w c \<noteq> None"
  using world_next_sends [OF reachable_world_inv [OF assms(1)] assms(2)] by fastforce

definition create_request :: "conn \<Rightarrow> event" where
  "create_request c = Deliver c \<lparr>opcode = OP_CREATE, flags = 0, hdr_length = 1\<rparr> [0]"

definition join_request :: "conn \<Rightarrow> u32 \<Rightarrow> event" where
  "join_request c sid = Deliver c \<lparr>opcode = OP_JOIN, flags = 0, hdr_length = 5\<rparr> (be32 sid @ [0])"

text \<open>A run with room in the counters reaches its last world.\<close>

fun run_left :: "event list \<Rightarrow> world \<Rightarrow> bool" where
  "run_left [] w = True"
| "run_left (e # es) w =
     (ids_left (srv w) \<and> (case world_next e w of None \<Rightarrow> False | Some w \<Rightarrow> run_left es w))"

fun run_orderly :: "event list \<Rightarrow> world \<Rightarrow> bool" where
  "run_orderly [] w = True"
| "run_orderly (e # es) w =
     (orderly e w \<and> (case world_next e w of None \<Rightarrow> True | Some w \<Rightarrow> run_orderly es w))"

lemma reachable_run:
  "reachable g port w \<Longrightarrow> run_left es w \<Longrightarrow> (g \<Longrightarrow> run_orderly es w) \<Longrightarrow>
    \<exists>w'. world_run es w = Some w' \<and> reachable g port w'"
  by (induction es arbitrary: w) (auto split: option.split_asm intro: reachable.step)

definition session_run :: "event list" where
  "session_run = [Accept, Accept, create_request 0, join_request 1 1]"

lemma no_send_to_the_dead_witness:
  "\<exists>w w'. reachable True 9000 w \<and> world_next (Finish 0) w = Some w' \<and>
     fresh_sends w w' \<noteq> [] \<and> (\<forall>(c, buf) \<in> set (fresh_sends w w'). clients w c \<noteq> None)"
proof -
  have "run_left session_run (initial_world 9000)" "run_orderly session_run (initial_world 9000)"
    by code_simp+
  then obtain w where w: "world_run session_run (initial_world 9000) = Some w" "reachable True 9000 w"
    using reachable_run [OF reachable.start] by blast
  have "case world_run session_run (initial_world 9000) of None \<Rightarrow> False | Some w \<Rightarrow>
      (case world_next (Finish 0) w of None \<Rightarrow> False | Some w' \<Rightarrow> fresh_sends w w' \<noteq> [])"
    by code_simp
  with w(1) obtain w' where w': "world_next (Finish 0) w = Some w'" "fresh_sends w w' \<noteq> []"
    by (auto split: option.splits)
  from no_send_to_the_dead [OF w(2) w'(1)] w(2) w' show ?thesis by blast
qed

definition double_create_run :: "event list" where
  "double_create_run = [Accept, Accept, create_request 0, create_request 0, Finish 0]"

text \<open>without that restriction the server does use a dead connection: a client that creates
  two sessions and disconnects leaves the first one behind with itself as host, and the next
  client that joins it makes the server send to the connection that is gone.\<close>

theorem send_to_dead_connection_reachable:
  "\<exists>w w'. reachable False 9000 w \<and> world_next (join_request 1 1) w = Some w' \<and>
     (\<exists>(c, buf) \<in> set (fresh_sends w w'). clients w c = None)"
proof -
  have "run_left double_create_run (initial_world 9000)" by code_simp
  then obtain w where w: "world_run double_create_run (initial_world 9000) = Some w"
      "reachable False 9000 w"
    using reachable_run [where g = False, OF reachable.start] by auto
  have "case world_run double_create_run (initial_world 9000) of None \<Rightarrow> False | Some w \<Rightarrow>
      clients w 0 = None \<and> (case world_next (join_request 1 1) w of None \<Rightarrow> False
        | Some w' \<Rightarrow> 0 \<in> fst ` set (fresh_sends w w'))"
    by code_simp
  with w(1) obtain w' where w': "clients w 0 = None" "world_next (join_request 1 1) w = Some w'"
      "0 \<in> fst ` set (fresh_sends w w')"
    by (auto split: option.splits)
  then have "\<exists>(c, buf) \<in> set (fresh_sends w w'). clients w c = None" by force
  with w(2) w'(2) show ?thesis by blast
qed

section \<open>Requests\<close>

text \<open>Requests of a client in its session: the message's header only carries the opcode.\<close>

abbreviation (input) request :: "u8 \<Rightarrow> bytes \<Rightarrow> Header" where
  "request oc p \<equiv> \<lparr>opcode = oc, flags = 0, hdr_length = word_of_nat (length p)\<rparr>"

definition in_session :: "server \<Rightarrow> clientContext \<Rightarrow> session \<Rightarrow> bool" where
  "in_session s ctx sess \<longleftrightarrow> ctx_member_id ctx \<noteq> 0 \<and> ctx_session_id ctx \<noteq> 0 \<and>
     sessions s (ctx_session_id ctx) = Some sess"

text \<open>A server with one session: its host 1 on connection 0 and a member 2 on connection 1.\<close>

definition sample_session :: session where
  "sample_session = joined_session (new_session 1 1 ''ada'') 2 ''bob''"

definition sample_server :: server where
  "sample_server =
     \<lparr>sessions = [1 \<mapsto> sample_session], connections = [1 \<mapsto> 0, 2 \<mapsto> 1],
      next_session_id = 2, next_member_id = 3, tcp_port = 9000, wire = []\<rparr>"

abbreviation (input) host_ctx :: clientContext where
  "host_ctx \<equiv> \<lparr>ctx_member_id = 1, ctx_session_id = 1\<rparr>"

abbreviation (input) guest_ctx :: clientContext where
  "guest_ctx \<equiv> \<lparr>ctx_member_id = 2, ctx_session_id = 1\<rparr>"

lemma sample_server_simps [simp]:
  "sessions sample_server = [1 \<mapsto> sample_session]" "connections sample_server = [1 \<mapsto> 0, 2 \<mapsto> 1]"
  "next_session_id sample_server = 2" "next_member_id sample_server = 3"
  "wire sample_server = []" "tcp_port sample_server = 9000"
  by (simp_all add: sample_server_def)

lemma sample_session_simps [simp]:
  "member_ids sample_session = [1, 2]" "host_id sample_session = 1" "sess_id sample_session = 1"
  "sess_state sample_session = session_open" "is_host sample_session i \<longleftrightarrow> i = 1"
  by (simp_all add: sample_session_def joined_session_def new_session_def member_ids_def emplace_def
      is_host_def)

lemma sample_server_inv: "server_inv sample_server"
proof (rule server_invI)
  fix sid sess
  assume "sessions sample_server sid = Some sess"
  then show "session_inv sample_server sid sess"
    by (auto simp: session_inv_def sample_session_def joined_session_def new_session_def
        member_ids_def emplace_def split: if_split_asm)
qed (auto split: if_split_asm)

lemma sample_stroke_parses:
  "parseDrawOperation (draw_image sample_stroke) = Some (success sample_stroke)"
  using parseDrawOperation_image [of sample_stroke "[]"] by simp

lemma sample_stroke_valid:
  "valid_operation True (sample_stroke)" "valid_operation False (sample_stroke\<lparr>member_id := 2, seq := 0\<rparr>)"
  by (simp_all add: valid_operation_def points_match_tool_def points_fit_def sample_stroke_def)

lemma dispatch_member_draw:
  assumes "in_session s ctx sess" and "\<not> is_host sess (ctx_member_id ctx)"
    and "parseDrawOperation p = Some (success op)"
    and "valid_operation False (op\<lparr>member_id := ctx_member_id ctx, seq := 0\<rparr>)"
    and "find_connection s (host_id sess) = Some hc"
  shows "dispatch (request OP_DRAW p) p c s ctx =
    Some (sends [(hc, frame OP_DRAW (draw_image (op\<lparr>member_id := ctx_member_id ctx, seq := 0\<rparr>)))] s, ctx)"
  using assms
  by (simp add: dispatch_def handle_draw_def in_session_def validate_ok_iff server_simps
      serializeDrawOperation_image valid_operation_def Let_def)

lemma dispatch_host_draw:
  assumes "in_session s ctx sess" and "is_host sess (ctx_member_id ctx)"
    and "parseDrawOperation p = Some (success op)" and "valid_operation True op"
  shows "dispatch (request OP_DRAW p) p c s ctx =
    Some (sends (broadcast (connections s)
      (filter (\<lambda>i. i \<noteq> ctx_member_id ctx) (member_ids sess)) (frame OP_DRAW (draw_image op))) s, ctx)"
  using assms
  by (simp add: dispatch_def handle_draw_def in_session_def validate_ok_iff server_simps
      serializeDrawOperation_image valid_operation_def Let_def)

text \<open>a stroke of a member who is not the host goes to the host alone, with the sender's own
  member id and no sequence number, whatever the client wrote into those fields: no member can
  draw in another's name or number its own operations.\<close>

theorem member_draw_forwarded:
  assumes "in_session s ctx sess" and "\<not> is_host sess (ctx_member_id ctx)"
    and "parseDrawOperation p = Some (success op)"
    and "valid_operation False (op\<lparr>member_id := ctx_member_id ctx, seq := 0\<rparr>)"
    and "find_connection s (host_id sess) = Some hc"
  shows "dispatch (request OP_DRAW p) p c s ctx =
    Some (sends [(hc, frame OP_DRAW (draw_image (op\<lparr>member_id := ctx_member_id ctx, seq := 0\<rparr>)))] s, ctx)"
  by (rule dispatch_member_draw [OF assms])

lemma member_draw_forwarded_witness:
  "dispatch (request OP_DRAW (draw_image sample_stroke)) (draw_image sample_stroke) 1 sample_server guest_ctx =
    Some (sends [(0, frame OP_DRAW (draw_image (sample_stroke\<lparr>member_id := 2, seq := 0\<rparr>)))] sample_server,
      guest_ctx)"
  using member_draw_forwarded [of sample_server guest_ctx sample_session "draw_image sample_stroke"
      sample_stroke 0 1] sample_stroke_parses sample_stroke_valid(2)
  by (simp add: in_session_def find_connection_def)

text \<open>a stroke of the host that is valid and numbered goes, unchanged, to every other
  registered member, and to nobody else.\<close>

theorem host_draw_broadcast:
  assumes "in_session s ctx sess" and "is_host sess (ctx_member_id ctx)"
    and "parseDrawOperation p = Some (success op)" and "valid_operation True op"
  shows "dispatch (request OP_DRAW p) p c s ctx =
    Some (sends (broadcast (connections s)
      (filter (\<lambda>i. i \<noteq> ctx_member_id ctx) (member_ids sess)) (frame OP_DRAW (draw_image op))) s, ctx)"
  by (rule dispatch_host_draw [OF assms])

lemma host_draw_broadcast_witness:
  "dispatch (request OP_DRAW (draw_image sample_stroke)) (draw_image sample_stroke) 0 sample_server host_ctx =
    Some (sends [(1, frame OP_DRAW (draw_image sample_stroke))] sample_server, host_ctx)"
  using host_draw_broadcast [of sample_server host_ctx sample_session "draw_image sample_stroke"
      sample_stroke 0] sample_stroke_parses sample_stroke_valid(1)
  by (simp add: in_session_def)

text \<open>a stroke that does not parse or is not valid for its sender changes nothing and
  reaches no other client: the server answers its sender with one error.\<close>

theorem invalid_draw_rejected:
  assumes "in_session s ctx sess"
    and "parseDrawOperation p = Some r"
    and "ok r \<Longrightarrow> \<not> valid_operation (is_host sess (ctx_member_id ctx))
      (if is_host sess (ctx_member_id ctx) then val r
       else (val r)\<lparr>member_id := ctx_member_id ctx, seq := 0\<rparr>)"
  shows "\<exists>text. dispatch (request OP_DRAW p) p c s ctx =
    Some (sends [(c, error_frame ERR_UNKNOWN text)] s, ctx)"
  using assms
  by (auto simp: dispatch_def handle_draw_def in_session_def validate_ok_iff server_simps Let_def)

lemma invalid_draw_rejected_witness:
  "\<exists>text. dispatch (request OP_DRAW [1, 2]) [1, 2] 1 sample_server guest_ctx =
    Some (sends [(1, error_frame ERR_UNKNOWN text)] sample_server, guest_ctx)"
proof -
  obtain reason v where "parseDrawOperation [1, 2] = Some (failure v malformed reason)"
    by (simp add: parseDrawOperation_def)
  from invalid_draw_rejected [OF _ this, of sample_server guest_ctx sample_session 1]
  show ?thesis by (simp add: in_session_def)
qed

text \<open>a create request opens one new session under the next id, with the sender as its host
  and only member, registers the sender's connection and answers with both ids; nothing else is
  sent and no other session changes.\<close>

theorem create_opens_session:
  assumes "server_inv s" and "parseCreateMessage p = Some (success name)"
  shows "dispatch (request OP_CREATE p) p c s ctx =
    Some (sends [(c, create_ack_frame (next_session_id s) (next_member_id s))]
        (s\<lparr>next_session_id := next_session_id s + 1, next_member_id := next_member_id s + 1,
           sessions := (sessions s)(next_session_id s \<mapsto>
             new_session (next_session_id s) (next_member_id s) name),
           connections := (connections s)(next_member_id s \<mapsto> c)\<rparr>),
      \<lparr>ctx_member_id = next_member_id s, ctx_session_id = next_session_id s\<rparr>)"
  using assms server_inv_fresh_session [OF assms(1)]
  by (simp add: dispatch_def dispatch_create_def handle_create_fresh serialize_plain server_simps
      register_connection_def create_ack_frame_def Let_def)

lemma create_opens_session_witness:
  "dispatch (request OP_CREATE [3, 97, 100, 97]) [3, 97, 100, 97] 0 (initial_server 9000) initial_context =
    Some (sends [(0, create_ack_frame 1 1)]
        ((initial_server 9000)\<lparr>next_session_id := 2, next_member_id := 2,
           sessions := [1 \<mapsto> new_session 1 1 ''ada''], connections := [1 \<mapsto> 0]\<rparr>),
      host_ctx)"
proof -
  have "parseCreateMessage [3, 97, 100, 97] = Some (success ''ada'')" by code_simp
  from create_opens_session [OF server_inv_initial [of 9000] this, where c = 0 and ctx = initial_context]
  show ?thesis by (simp add: initial_server_def)
qed

lemma dispatch_join_session:
  assumes "server_inv s" and "parseJoinMessage p = Some (success \<lparr>jm_session_id = sid, jm_name = name\<rparr>)"
    and "sessions s sid = Some sess"
  shows "dispatch (request OP_JOIN p) p c s ctx =
    Some (sends (broadcast (connections s) (member_ids sess) (joined_frame (next_member_id s) name) @
          map (\<lambda>m. (c, joined_frame (mem_id m) (mem_name m)))
            (map snd (members (joined_session sess (next_member_id s) name))) @
          [(c, join_ack_frame (next_member_id s))])
        (s\<lparr>next_member_id := next_member_id s + 1,
           sessions := (sessions s)(sid \<mapsto> joined_session sess (next_member_id s) name),
           connections := (connections s)(next_member_id s \<mapsto> c)\<rparr>),
      \<lparr>ctx_member_id = next_member_id s, ctx_session_id = sid\<rparr>)"
proof -
  note sinv = server_invD [OF assms(1,3)]
  note fresh = server_inv_fresh_member [OF assms(1,3)]
  have "filter (\<lambda>i. i \<noteq> next_member_id s) (member_ids (joined_session sess (next_member_id s) name)) =
      member_ids sess"
    using fresh by (auto simp: member_ids_joined filter_id_conv)
  with assms handle_join_open [OF assms(3) session_invD(4,1) [OF sinv], of name ctx]
  show ?thesis
    by (simp add: dispatch_def dispatch_join_def serialize_plain server_simps
        register_connection_def join_ack_frame_def sends_def Let_def)
qed

text \<open>a join request for an existing session makes the sender its newest member. The other
  members are told first, then the sender receives one notification per member, itself
  included, and last its own id.\<close>

theorem join_enters_session:
  assumes "server_inv s" and "parseJoinMessage p = Some (success \<lparr>jm_session_id = sid, jm_name = name\<rparr>)"
    and "sessions s sid = Some sess"
  shows "dispatch (request OP_JOIN p) p c s ctx =
    Some (sends (broadcast (connections s) (member_ids sess) (joined_frame (next_member_id s) name) @
          map (\<lambda>m. (c, joined_frame (mem_id m) (mem_name m)))
            (map snd (members (joined_session sess (next_member_id s) name))) @
          [(c, join_ack_frame (next_member_id s))])
        (s\<lparr>next_member_id := next_member_id s + 1,
           sessions := (sessions s)(sid \<mapsto> joined_session sess (next_member_id s) name),
           connections := (connections s)(next_member_id s \<mapsto> c)\<rparr>),
      \<lparr>ctx_member_id = next_member_id s, ctx_session_id = sid\<rparr>)"
  by (rule dispatch_join_session [OF assms])

lemma join_enters_session_witness:
  "dispatch (request OP_JOIN [0, 0, 0, 1, 1, 99]) [0, 0, 0, 1, 1, 99] 4 sample_server initial_context =
    Some (sends [(0, joined_frame 3 ''c''), (1, joined_frame 3 ''c''), (4, joined_frame 1 ''ada''),
          (4, joined_frame 2 ''bob''), (4, joined_frame 3 ''c''), (4, join_ack_frame 3)]
        (sample_server\<lparr>next_member_id := 4, sessions := [1 \<mapsto> joined_session sample_session 3 ''c''],
           connections := [1 \<mapsto> 0, 2 \<mapsto> 1, 3 \<mapsto> 4]\<rparr>),
      \<lparr>ctx_member_id = 3, ctx_session_id = 1\<rparr>)"
proof -
  have "parseJoinMessage [0, 0, 0, 1, 1, 99] = Some (success \<lparr>jm_session_id = 1, jm_name = ''c''\<rparr>)"
    by code_simp
  from join_enters_session [OF sample_server_inv this, of sample_session 4 initial_context]
  show ?thesis
    by (simp add: sample_session_def joined_session_def new_session_def emplace_def member_ids_def)
qed

text \<open>C39: a join request for a session that does not exist is answered with a JOIN_OK
  acknowledgement carrying the sender's old member id (0 for a new client) and registers that id:
  the refusal's error code is \<open>none\<close>, so the caller takes it for a success.\<close>

theorem join_missing_session_acknowledged:
  assumes "parseJoinMessage p = Some (success \<lparr>jm_session_id = sid, jm_name = name\<rparr>)"
    and "sessions s sid = None"
  shows "dispatch (request OP_JOIN p) p c s ctx =
    Some (sends [(c, join_ack_frame (ctx_member_id ctx))]
        (s\<lparr>next_member_id := next_member_id s + 1,
           connections := (connections s)(ctx_member_id ctx \<mapsto> c)\<rparr>), ctx)"
  using assms
  by (simp add: dispatch_def dispatch_join_def handle_join_def serialize_plain server_simps
      register_connection_def join_ack_frame_def Let_def)

lemma join_missing_session_acknowledged_witness:
  "dispatch (request OP_JOIN [0, 0, 0, 9, 0]) [0, 0, 0, 9, 0] 5 sample_server initial_context =
    Some (sends [(5, join_ack_frame 0)]
        (sample_server\<lparr>next_member_id := 4, connections := [1 \<mapsto> 0, 2 \<mapsto> 1, 0 \<mapsto> 5]\<rparr>), initial_context)"
proof -
  have "parseJoinMessage [0, 0, 0, 9, 0] = Some (success \<lparr>jm_session_id = 9, jm_name = []\<rparr>)"
    by code_simp
  from join_missing_session_acknowledged [OF this, of sample_server 5 initial_context]
  show ?thesis by (simp add: initial_context_def)
qed

text \<open>when the host leaves, or the last member, the session is gone, every member that is left
  and registered is told so, and the sender's context is cleared before it is acknowledged.\<close>

theorem host_leave_closes_session:
  assumes "in_session s ctx sess"
    and "is_host sess (ctx_member_id ctx) \<or> members (without_member sess (ctx_member_id ctx)) = []"
  shows "dispatch (request OP_LEAVE p) p c s ctx =
    Some (sends (broadcast (connections s) (member_ids (without_member sess (ctx_member_id ctx))) closed_frame @
          [(c, ack_frame ACK_LEFT ''left session'')])
        (s\<lparr>sessions := (sessions s)(ctx_session_id ctx := None)\<rparr>), initial_context)"
  using assms handle_leave_cases(1) [of ctx s sess]
  by (simp add: dispatch_def server_simps in_session_def del: member_ids_without)

lemma host_leave_closes_session_witness:
  "dispatch (request OP_LEAVE []) [] 0 sample_server host_ctx =
    Some (sends [(1, closed_frame), (0, ack_frame ACK_LEFT ''left session'')]
      (sample_server\<lparr>sessions := Map.empty\<rparr>), initial_context)"
  using host_leave_closes_session [of sample_server host_ctx sample_session "[]" 0]
  by (simp add: in_session_def)

text \<open>when a member who is not the host leaves, exactly that member is removed, the session
  stays with its host, and the others are told who left.\<close>

theorem member_leave_keeps_session:
  assumes "server_inv s" and "in_session s ctx sess" and "\<not> is_host sess (ctx_member_id ctx)"
    and "map_of (members sess) (ctx_member_id ctx) = Some m"
  shows "dispatch (request OP_LEAVE p) p c s ctx =
    Some (sends (broadcast (connections s) (filter (\<lambda>j. j \<noteq> ctx_member_id ctx) (member_ids sess))
            (left_frame (ctx_member_id ctx) (mem_name m)) @
          [(c, ack_frame ACK_LEFT ''left session'')])
        (s\<lparr>sessions := (sessions s)(ctx_session_id ctx \<mapsto> without_member sess (ctx_member_id ctx))\<rparr>),
      initial_context)"
proof -
  have sess: "ctx_member_id ctx \<noteq> 0" "sessions s (ctx_session_id ctx) = Some sess"
    using assms(2) by (simp_all add: in_session_def)
  note sinv = server_invD [OF assms(1) sess(2)]
  have "host_id sess \<in> set (member_ids (without_member sess (ctx_member_id ctx)))"
    using session_invD(6) [OF sinv] assms(3) by (simp add: is_host_def)
  then have "members (without_member sess (ctx_member_id ctx)) \<noteq> []"
    by (auto simp: member_ids_def)
  moreover have "filter (\<lambda>j. j \<noteq> 0) (filter (\<lambda>j. j \<noteq> ctx_member_id ctx) (member_ids sess)) =
      filter (\<lambda>j. j \<noteq> ctx_member_id ctx) (member_ids sess)"
    using session_invD(7) [OF sinv] by (auto intro!: filter_cong)
  ultimately show ?thesis
    using handle_leave_cases(2) [OF sess] assms(3,4) by (simp add: dispatch_def server_simps)
qed

lemma member_leave_keeps_session_witness:
  "\<exists>m. map_of (members sample_session) 2 = Some m \<and>
    dispatch (request OP_LEAVE []) [] 1 sample_server guest_ctx =
      Some (sends [(0, left_frame 2 (mem_name m)), (1, ack_frame ACK_LEFT ''left session'')]
        (sample_server\<lparr>sessions := [1 \<mapsto> without_member sample_session 2]\<rparr>), initial_context)"
proof -
  have "map_of (members sample_session) 2 =
      Some \<lparr>mem_id = 2, mem_name = ''bob'', mem_role = participant, mem_session_id = 1\<rparr>"
    by (simp add: sample_session_def joined_session_def new_session_def emplace_def)
  with member_leave_keeps_session [OF sample_server_inv, of guest_ctx sample_session _ "[]" 1]
  show ?thesis by (simp add: in_session_def)
qed

text \<open>the discovery responder is told of exactly the sessions that exist, with the port the
  server listens on.\<close>

theorem lookup_finds_sessions:
  assumes "reachable g port w"
  shows "lookup_session (srv w) sid =
    (if sessions (srv w) sid = None then None else Some (tcp_port (srv w)))"
  using session_invD(4) [OF server_invD [OF reachable_server_inv [OF assms]]]
  by (auto simp: lookup_session_def split: option.splits)

lemma lookup_finds_sessions_witness: "lookup_session (srv (initial_world 9000)) 1 = None"
  using lookup_finds_sessions [OF reachable.start, where sid = 1 and port = 9000]
  by (simp add: initial_world_def initial_server_def)

text \<open>A canvas state request of a member is passed to the session's host and to nobody else,
  and a canvas state is only taken from the host: from anyone else it is refused with one
  error.\<close>

theorem canvas_state_between_host_and_members:
  assumes "in_session s ctx sess"
  shows "(\<forall>hc. find_connection s (host_id sess) = Some hc \<longrightarrow>
      dispatch (request OP_CANVAS_STATE_REQUEST q) q c s ctx =
        Some (sends [(hc, frame OP_CANVAS_STATE_REQUEST [])] s, ctx)) \<and>
    (\<not> is_host sess (ctx_member_id ctx) \<longrightarrow>
      dispatch (request OP_CANVAS_STATE p) p c s ctx =
        Some (sends [(c, error_frame ERR_UNKNOWN ''only the host can send canvas state'')] s, ctx)) \<and>
    (is_host sess (ctx_member_id ctx) \<longrightarrow> parseCanvasStateMessage p = Some (success msg) \<longrightarrow>
      dispatch (request OP_CANVAS_STATE p) p c s ctx =
        Some (sends (broadcast (connections s)
          (filter (\<lambda>i. i \<noteq> ctx_member_id ctx) (member_ids sess)) (frame OP_CANVAS_STATE p)) s, ctx))"
  using assms
  by (simp add: dispatch_def handle_canvas_state_request_def handle_canvas_state_def in_session_def
      server_simps)

lemma canvas_state_between_host_and_members_witness:
  "dispatch (request OP_CANVAS_STATE_REQUEST []) [] 1 sample_server guest_ctx =
     Some (sends [(0, frame OP_CANVAS_STATE_REQUEST [])] sample_server, guest_ctx) \<and>
   dispatch (request OP_CANVAS_STATE [0, 0, 0, 0]) [0, 0, 0, 0] 0 sample_server host_ctx =
     Some (sends [(1, frame OP_CANVAS_STATE [0, 0, 0, 0])] sample_server, host_ctx)"
proof -
  have "parseCanvasStateMessage [0, 0, 0, 0] = Some (success \<lparr>cs_operations = []\<rparr>)" by code_simp
  with canvas_state_between_host_and_members [of sample_server guest_ctx sample_session "[]" 1 "[]"]
    canvas_state_between_host_and_members [of sample_server host_ctx sample_session "[]" 0 "[0, 0, 0, 0]"]
  show ?thesis by (simp add: in_session_def find_connection_def)
qed

end
