(* ===== verification/Ports.thy ===== *)
theory Ports
  imports Sketch_File
begin

text \<open>
  Numbers in text: \<open>std::stoi\<close> and \<open>std::from_chars\<close> as the program uses them, the
  command line of the server (\<open>server/main.cpp\<close>), the command line the client starts it
  with (\<open>engine/process/server_process.cpp\<close>) and the ports the client chooses for it
  (\<open>engine/network/network_manager.cpp\<close>).
\<close>

section \<open>Reading numbers\<close>

definition digit_value :: "char \<Rightarrow> nat option" where
  "digit_value c = (if 48 \<le> (of_char c :: nat) \<and> (of_char c :: nat) \<le> 57 then Some (of_char c - 48) else None)"

definition is_digit :: "char \<Rightarrow> bool" where
  "is_digit c \<longleftrightarrow> digit_value c \<noteq> None"

definition digits_value :: "string \<Rightarrow> nat" where
  "digits_value ds = foldl (\<lambda>n c. 10 * n + the (digit_value c)) 0 ds"

text \<open>The longest prefix of digits, if there is one.\<close>

definition leading_digits :: "string \<Rightarrow> nat option" where
  "leading_digits s = (let ds = takeWhile is_digit s in if ds = [] then None else Some (digits_value ds))"

text \<open>\<open>std::from_chars\<close> into a \<open>uint32_t\<close>; what follows the digits is not looked at.\<close>

definition from_chars :: "string \<Rightarrow> u32 option" where
  "from_chars s =
     (case leading_digits s of
        None \<Rightarrow> None
      | Some n \<Rightarrow> if n < 2 ^ 32 then Some (word_of_nat n) else None)"

text \<open>\<open>std::stoi\<close>: white space, a sign, digits; \<open>None\<close> is an exception.\<close>

definition is_space :: "char \<Rightarrow> bool" where
  "is_space c \<longleftrightarrow> c = CHR '' '' \<or> (9 \<le> (of_char c :: nat) \<and> (of_char c :: nat) \<le> 13)"

definition stoi :: "string \<Rightarrow> int option" where
  "stoi s =
     (let s = dropWhile is_space s;
          (sign, s) = (case s of
            c # cs \<Rightarrow> if c = CHR ''-'' then (- 1, cs) else if c = CHR ''+'' then (1, cs) else (1, s)
          | [] \<Rightarrow> (1 :: int, []))
      in case leading_digits s of
        None \<Rightarrow> None
      | Some n \<Rightarrow> i32 (sign * int n))"

section \<open>The server's command line\<close>

definition parse_port :: "string option \<Rightarrow> u16 \<Rightarrow> u16" where
  "parse_port value_arg fallback =
     (case value_arg of
        None \<Rightarrow> fallback
      | Some s \<Rightarrow>
          (case stoi s of
             None \<Rightarrow> fallback
           | Some parsed \<Rightarrow> if parsed < 0 \<or> parsed > 65535 then fallback else word_of_int parsed))"

record ports =
  ws_port :: u16
  tcp_port_arg :: u16
  udp_port :: u16

definition default_ports :: ports where
  "default_ports = \<lparr>ws_port = 8080, tcp_port_arg = 9000, udp_port = 9002\<rparr>"

text \<open>The loop of \<open>main\<close> over the arguments.\<close>

fun parse_arguments :: "string list \<Rightarrow> ports \<Rightarrow> ports" where
  "parse_arguments (arg # v # rest) p =
     (if arg = ''--ws-port'' then parse_arguments rest (p\<lparr>ws_port := parse_port (Some v) (ws_port p)\<rparr>)
      else if arg = ''--tcp-port'' then
        parse_arguments rest (p\<lparr>tcp_port_arg := parse_port (Some v) (tcp_port_arg p)\<rparr>)
      else if arg = ''--udp-port'' then parse_arguments rest (p\<lparr>udp_port := parse_port (Some v) (udp_port p)\<rparr>)
      else parse_arguments (v # rest) p)"
| "parse_arguments _ p = p"

section \<open>Starting the server\<close>

definition quote_argument :: "string \<Rightarrow> string" where
  "quote_argument argument =
     (if \<not> (\<exists>c \<in> set argument. c \<in> {CHR '' '', CHR 0x09, CHR 0x22}) then argument
      else [CHR 0x22] @ concat (map (\<lambda>ch. if ch = CHR 0x22 then [CHR 0x5C, ch] else [ch]) argument) @ [CHR 0x22])"

definition build_command_line :: "string \<Rightarrow> string list \<Rightarrow> string" where
  "build_command_line executable arguments =
     foldl (\<lambda>command arg. command @ '' '' @ quote_argument arg) (quote_argument executable) arguments"

text \<open>
  \<open>server_process\<close>: \<open>process_line\<close> is the command line of the process whose
  handle is kept (\<open>None\<close> for a null handle), \<open>process_alive\<close> what
  \<open>GetExitCodeProcess\<close> says of it. Whether the executable exists and what
  \<open>CreateProcessA\<close> answers are arguments; thread and job handles are left out.
\<close>

record server_process =
  process_line :: "string option"
  process_running :: bool
  process_alive :: bool

definition no_process :: server_process where
  "no_process = \<lparr>process_line = None, process_running = False, process_alive = False\<rparr>"

definition process_start ::
  "(string \<Rightarrow> bool) \<Rightarrow> bool \<Rightarrow> string \<Rightarrow> string list \<Rightarrow> server_process \<Rightarrow> bool result \<times> server_process"
where
  "process_start path_exists created executable arguments sp =
     (if process_running sp then (failure False rejected ''server already running'', sp)
      else if executable = [] \<or> \<not> path_exists executable then
        (failure False rejected ''server executable not found'', sp)
      else if \<not> created then (failure False connect_failed ''failed to start server process'', sp)
      else (success True, \<lparr>process_line = Some (build_command_line executable arguments),
        process_running = True, process_alive = True\<rparr>))"

definition process_stop :: "server_process \<Rightarrow> bool result \<times> server_process" where
  "process_stop sp =
     (if \<not> process_running sp then (success True, sp)
      else (success True, \<lparr>process_line = None, process_running = False, process_alive = False\<rparr>))"

definition is_running :: "server_process \<Rightarrow> bool" where
  "is_running sp \<longleftrightarrow> process_running sp \<and> process_line sp \<noteq> None \<and> process_alive sp"

text \<open>The paths the client looks for the server at; \<open>operator/\<close> of a path is a back slash.\<close>

definition path_append :: "string \<Rightarrow> string \<Rightarrow> string" where
  "path_append p q =
     (if p = [] \<or> last p \<in> {CHR 0x2F, CHR 0x5C} then p @ q else p @ [CHR 0x5C] @ q)"

definition resolve_server_executable :: "(string \<Rightarrow> bool) \<Rightarrow> string \<Rightarrow> string" where
  "resolve_server_executable path_exists current_path =
     (let p1 = path_append current_path ''server.exe'';
          p2 = path_append (path_append current_path ''cmake-build-release'') ''server.exe'';
          p3 = path_append (path_append current_path ''cmake-build-debug'') ''server.exe''
      in if path_exists p1 then p1 else if path_exists p2 then p2 else if path_exists p3 then p3 else p1)"

text \<open>
  The ports \<open>start_local_server\<close> asks for, TCP first: the port field of the window for the
  chosen protocol, and for the other one its default, or the one after it where that is taken.
\<close>

definition server_port_args :: "bool \<Rightarrow> string \<Rightarrow> string \<times> string" where
  "server_port_args use_tcp port =
     (case stoi port of
        None \<Rightarrow> (''9000'', ''8080'')
      | Some p \<Rightarrow>
          if use_tcp then (port, if p = 8080 then ''8081'' else ''8080'')
          else (if p = 9000 then ''9001'' else ''9000'', port))"

definition server_arguments :: "bool \<Rightarrow> string \<Rightarrow> string list" where
  "server_arguments use_tcp port =
     (let (tcp_p, ws_p) = server_port_args use_tcp port in
      [''--tcp-port'', tcp_p, ''--ws-port'', ws_p, ''--udp-port'', ''9002''])"

section \<open>Lemmas\<close>

lemma digit_value_char: "d < 10 \<Longrightarrow> digit_value (char_of (48 + d)) = Some d"
  by (simp add: digit_value_def)

lemma is_digit_char: "(d :: nat) < 10 \<Longrightarrow> is_digit (char_of (48 + d))"
  by (simp add: is_digit_def digit_value_char)

lemma digits_value_snoc: "digits_value (ds @ [c]) = 10 * digits_value ds + the (digit_value c)"
  by (simp add: digits_value_def)

lemma to_string_digits: "list_all is_digit (to_string n) \<and> digits_value (to_string n) = n \<and> to_string n \<noteq> []"
proof (induction n rule: to_string.induct)
  case (1 n)
  show ?case
  proof (cases "n < 10")
    case True
    then show ?thesis
      by (subst (1 2 3) to_string.simps) (simp add: is_digit_def digits_value_def digit_value_char)
  next
    case False
    have "n mod 10 < 10" by simp
    from digit_value_char [OF this] is_digit_char [OF this] 1 False show ?thesis
      by (subst (1 2 3) to_string.simps) (simp add: digits_value_snoc)
  qed
qed

lemma leading_digits_to_string: "leading_digits (to_string n) = Some n"
proof -
  have "takeWhile is_digit (to_string n) = to_string n"
    using to_string_digits [of n] by (simp add: takeWhile_eq_all_conv list_all_iff)
  then show ?thesis unfolding leading_digits_def Let_def using to_string_digits [of n] by (simp only:) simp
qed

lemma from_chars_to_string: "from_chars (to_string (unat v)) = Some v"
proof -
  have "unat v < 2 ^ 32" using unsigned_less [of v] by simp
  then show ?thesis by (simp add: from_chars_def leading_digits_to_string)
qed

lemma digit_not_sign:
  assumes "is_digit c"
  shows "\<not> is_space c" and "c \<noteq> CHR ''-''" and "c \<noteq> CHR ''+''"
  using assms by (auto simp: is_digit_def digit_value_def is_space_def split: if_split_asm)

lemma stoi_to_string:
  assumes "n < 2 ^ 31"
  shows "stoi (to_string n) = Some (int n)"
proof -
  obtain c cs where cons: "to_string n = c # cs" using to_string_digits [of n] by (cases "to_string n") auto
  then have "is_digit c" using to_string_digits [of n] by simp
  with assms leading_digits_to_string [of n] show ?thesis
    by (simp add: stoi_def cons digit_not_sign)
qed

section \<open>Properties\<close>

lemma stoi_defaults:
  "stoi ''8080'' = Some 8080" "stoi ''8081'' = Some 8081" "stoi ''9000'' = Some 9000"
  "stoi ''9001'' = Some 9001" "stoi ''9002'' = Some 9002"
  by (simp_all add: stoi_def is_space_def leading_digits_def is_digit_def digit_value_def digits_value_def)

lemma word_of_int_port: "0 \<le> p \<Longrightarrow> p \<le> 65535 \<Longrightarrow> uint (word_of_int p :: u16) = p"
  by (simp add: uint_word_of_int)

text \<open>C30: the server that the client starts reads back what the client meant: it listens on the port
  of the window for the chosen protocol, on a different one for the other protocol, and answers
  discoveries where the client asks.\<close>

theorem server_takes_the_ports:
  assumes "stoi port = Some p" and "0 \<le> p" and "p \<le> 65535"
  shows "(if use_tcp then tcp_port_arg (parse_arguments (server_arguments use_tcp port) default_ports)
      else ws_port (parse_arguments (server_arguments use_tcp port) default_ports)) = word_of_int p \<and>
    tcp_port_arg (parse_arguments (server_arguments use_tcp port) default_ports) \<noteq>
      ws_port (parse_arguments (server_arguments use_tcp port) default_ports) \<and>
    udp_port (parse_arguments (server_arguments use_tcp port) default_ports) = 9002"
proof -
  have "uint (word_of_int p :: u16) = p" using assms(2,3) by (rule word_of_int_port)
  then have "(word_of_int p :: u16) = 8080 \<longleftrightarrow> p = 8080" "(word_of_int p :: u16) = 9000 \<longleftrightarrow> p = 9000"
    by auto
  then show ?thesis
    using assms
    by (cases use_tcp) (auto simp: server_arguments_def server_port_args_def parse_port_def default_ports_def stoi_defaults)
qed

lemma server_takes_the_ports_witness:
  "tcp_port_arg (parse_arguments (server_arguments True ''8080'') default_ports) = 8080 \<and>
    ws_port (parse_arguments (server_arguments True ''8080'') default_ports) \<noteq> 8080"
  using server_takes_the_ports [OF stoi_defaults(1), of True] by auto

end
