(* ===== verification/App_State.thy ===== *)
theory App_State
  imports Ports Server
begin

text \<open>
  The state of the drawing program: \<open>engine/session/session_manager.h\<close>,
  \<open>engine/session/sessionClient.h\<close>, \<open>engine/network/network_manager.h\<close> and
  \<open>engine/engine.h\<close>.

  A client keeps the frames it has sent; \<open>link_error\<close> is what its socket answers to a send
  (\<open>None\<close> while sends succeed, else the error and its text). The threads of the program meet
  at locked operations, so each operation here is one step on the whole state; the status line is
  the last text that was set. Logging is left out.
\<close>

section \<open>The session client\<close>

record session_client =
  cl_member_id :: u32
  cl_session_id :: u32
  cl_host :: bool
  link_error :: "(error \<times> string) option"
  sent :: "bytes list"

definition new_client :: session_client where
  "new_client =
     \<lparr>cl_member_id = 0, cl_session_id = 0, cl_host = False, link_error = None, sent = []\<rparr>"

section \<open>The session manager\<close>

datatype session_joining_state =
  joining_none | joining_creating | joining_joining | joining_in_session | joining_leaving | joining_closing

text \<open>\<open>members_\<close> is an association list without duplicate keys.\<close>

record session_manager =
  client :: "session_client option"
  sm_session_id :: u32
  sm_member_id :: u32
  sm_members :: "(u32 \<times> string) list"
  sm_is_host :: bool
  sm_in_session :: bool
  session_id_input :: string
  joining_state :: session_joining_state
  next_operation_number :: u32
  pending_operations :: "u64 set"

definition new_session_manager :: session_manager where
  "new_session_manager =
     \<lparr>client = None, sm_session_id = 0, sm_member_id = 0, sm_members = [], sm_is_host = False,
      sm_in_session = False, session_id_input = [], joining_state = joining_none,
      next_operation_number = 1, pending_operations = {}\<rparr>"

section \<open>The network manager\<close>

datatype connection_protocol = protocol_none | protocol_tcp | protocol_websocket

datatype connection_state =
  state_disconnected | state_connecting | state_connected | state_failed | state_error_abort_close

text \<open>
  The connect thread runs one of these jobs; \<open>connect_thread\<close> is the job of a thread that
  has not run yet, \<open>poll_thread\<close> tells whether a polling thread runs. The sockets are what
  the attached client can do with them, \<open>session_\<close> is set from the constructor on.
\<close>

datatype connect_job =
  Connect | Discover_And_Join u32 | Ws_Join u32 | Ws_Create | Start_Local_Server

record network_manager =
  nm_protocol :: connection_protocol
  nm_host :: string
  nm_port :: string
  nm_connected :: bool
  nm_state :: connection_state
  stop_poll :: bool
  connecting :: bool
  nm_shut_down :: bool
  local_server :: server_process
  connect_thread :: "connect_job option"
  poll_thread :: bool

abbreviation (input) DEFAULT_WS_PORT :: int where "DEFAULT_WS_PORT \<equiv> 8080"
abbreviation (input) DEFAULT_TCP_PORT :: int where "DEFAULT_TCP_PORT \<equiv> 9000"
abbreviation (input) DEFAULT_UDP_PORT :: int where "DEFAULT_UDP_PORT \<equiv> 9002"
abbreviation (input) DEFAULT_WS_PORT_STR :: string where "DEFAULT_WS_PORT_STR \<equiv> ''8080''"
abbreviation (input) DEFAULT_TCP_PORT_STR :: string where "DEFAULT_TCP_PORT_STR \<equiv> ''9000''"
abbreviation (input) DEFAULT_UDP_PORT_STR :: string where "DEFAULT_UDP_PORT_STR \<equiv> ''9002''"
abbreviation (input) DEFAULT_HOST :: string where "DEFAULT_HOST \<equiv> ''127.0.0.1''"

definition new_network_manager :: network_manager where
  "new_network_manager =
     \<lparr>nm_protocol = protocol_tcp, nm_host = DEFAULT_HOST, nm_port = DEFAULT_TCP_PORT_STR,
      nm_connected = False, nm_state = state_disconnected, stop_poll = False, connecting = False,
      nm_shut_down = False, local_server = no_process, connect_thread = None, poll_thread = False\<rparr>"

section \<open>The program\<close>

record app =
  mgr :: session_manager
  net :: network_manager
  surface :: canvas
  files :: file_manager
  store :: disk
  status :: string
  dirty :: bool
  active_stroke :: "draw_operation option"
  active_tool :: tool_type
  active_color :: u32
  active_thickness :: u8

definition new_app :: "disk \<Rightarrow> app" where
  "new_app d =
     \<lparr>mgr = new_session_manager, net = new_network_manager,
      surface = canvas_create 1280 744 0xFFFFFFFF empty_canvas, files = new_file_manager, store = d,
      status = ''Ready'', dirty = True, active_stroke = None, active_tool = tool_freehand,
      active_color = 0xFF1F1F1F, active_thickness = 2\<rparr>"

abbreviation set_status :: "string \<Rightarrow> app \<Rightarrow> app" where
  "set_status t a \<equiv> a\<lparr>status := t\<rparr>"

abbreviation with_client :: "session_client \<Rightarrow> app \<Rightarrow> app" where
  "with_client cl a \<equiv> a\<lparr>mgr := (mgr a)\<lparr>client := Some cl\<rparr>\<rparr>"

abbreviation map_mgr :: "(session_manager \<Rightarrow> session_manager) \<Rightarrow> app \<Rightarrow> app" where
  "map_mgr f a \<equiv> a\<lparr>mgr := f (mgr a)\<rparr>"

abbreviation map_net :: "(network_manager \<Rightarrow> network_manager) \<Rightarrow> app \<Rightarrow> app" where
  "map_net f a \<equiv> a\<lparr>net := f (net a)\<rparr>"

end
