(* ===== verification/Session.thy ===== *)
theory Session
  imports App_State "HOL-Library.AList"
begin

text \<open>
  \<open>engine/session/sessionClient.cpp\<close> and \<open>engine/session/session_manager.cpp\<close>: the
  requests of a client, the handlers of what the server sends, one turn of the polling thread, and
  the two calls of \<open>engine/engine.cpp\<close> that the drawing goes through.

  The requests that start a connection (\<open>join_session\<close>, \<open>create_session\<close>) are in
  \<open>Network\<close>.
\<close>

section \<open>Requests\<close>

definition send_message :: "Message \<Rightarrow> session_client \<Rightarrow> (nat result \<times> session_client) option" where
  "send_message m cl = do {
     buf \<leftarrow> serializeMessage m;
     Some (case link_error cl of
       None \<Rightarrow> (success (length buf), cl\<lparr>sent := sent cl @ [buf]\<rparr>)
     | Some (e, reason) \<Rightarrow> (failure 0 e reason, cl)) }"

text \<open>A frame as every request builds it, and what the request makes of the result.\<close>

definition send_frame :: "u8 \<Rightarrow> bytes \<Rightarrow> session_client \<Rightarrow> (bool result \<times> session_client) option" where
  "send_frame oc p cl = do {
     (r, cl) \<leftarrow> send_message
       \<lparr>header = \<lparr>opcode = oc, flags = 0, hdr_length = word_of_nat (length p)\<rparr>, payload = p\<rparr> cl;
     Some (if \<not> ok r then failure False (err r) (message r) else success True, cl) }"

definition send_create :: "string \<Rightarrow> session_client \<Rightarrow> (bool result \<times> session_client) option" where
  "send_create name cl = do {
     p \<leftarrow> serializeCreateMessage \<lparr>cm_name = name\<rparr>;
     send_frame OP_CREATE p cl }"

definition send_join :: "u32 \<Rightarrow> string \<Rightarrow> session_client \<Rightarrow> (bool result \<times> session_client) option" where
  "send_join sid name cl = do {
     p \<leftarrow> serializeJoinMessage \<lparr>jm_session_id = sid, jm_name = name\<rparr>;
     send_frame OP_JOIN p cl }"

definition send_leave :: "session_client \<Rightarrow> (bool result \<times> session_client) option" where
  "send_leave cl = send_frame OP_LEAVE [] cl"

definition send_close_session :: "session_client \<Rightarrow> (bool result \<times> session_client) option" where
  "send_close_session cl = send_frame OP_CLOSE_SESSION [] cl"

definition send_canvas_clear :: "session_client \<Rightarrow> (bool result \<times> session_client) option" where
  "send_canvas_clear cl = send_frame OP_CANVAS_CLEAR [] cl"

definition cl_in_session :: "session_client \<Rightarrow> bool" where
  "cl_in_session cl \<longleftrightarrow> cl_session_id cl \<noteq> 0"

definition mark_session_closed :: "session_client \<Rightarrow> session_client" where
  "mark_session_closed cl = cl\<lparr>cl_member_id := 0, cl_session_id := 0, cl_host := False\<rparr>"

definition set_session_info :: "u32 \<Rightarrow> u32 \<Rightarrow> bool \<Rightarrow> session_client \<Rightarrow> session_client" where
  "set_session_info mid sid hosting cl =
     cl\<lparr>cl_member_id := mid, cl_session_id := sid, cl_host := hosting\<rparr>"

definition request_canvas_state :: "session_client \<Rightarrow> (bool result \<times> session_client) option" where
  "request_canvas_state cl =
     (if \<not> cl_in_session cl then Some (failure False rejected ''not in a session'', cl)
      else send_frame OP_CANVAS_STATE_REQUEST [] cl)"

definition send_draw_raw :: "draw_operation \<Rightarrow> session_client \<Rightarrow> (bool result \<times> session_client) option" where
  "send_draw_raw op cl = do {
     p \<leftarrow> serializeDrawOperation op;
     send_frame OP_DRAW p cl }"

definition send_draw :: "draw_operation \<Rightarrow> session_client \<Rightarrow> (bool result \<times> session_client) option" where
  "send_draw op cl = do {
     let op = op\<lparr>member_id := cl_member_id cl\<rparr>;
     p \<leftarrow> serializeDrawOperation op;
     send_frame OP_DRAW p cl }"

definition send_canvas_state ::
  "draw_operation list \<Rightarrow> session_client \<Rightarrow> (bool result \<times> session_client) option"
where
  "send_canvas_state ops cl =
     (if \<not> cl_host cl then Some (failure False rejected ''only the host can send canvas state'', cl)
      else do {
        p \<leftarrow> serializeCanvasStateMessage \<lparr>cs_operations = ops\<rparr>;
        send_frame OP_CANVAS_STATE p cl })"

text \<open>
  \<open>receive_msg\<close> over TCP, on the bytes still to come: when the stream ends too early the
  socket answers \<open>fault\<close>. Over a websocket, on one message.
\<close>

definition no_message :: Message where
  "no_message = \<lparr>header = \<lparr>opcode = 0, flags = 0, hdr_length = 0\<rparr>, payload = []\<rparr>"

definition receive_msg_tcp :: "error \<times> string \<Rightarrow> bytes \<Rightarrow> (Message result \<times> bytes) option" where
  "receive_msg_tcp fault stream =
     (case stream_receive HEADER_SIZE stream of
        None \<Rightarrow> Some (failure no_message (fst fault) (snd fault), stream)
      | Some (hdr_bytes, stream) \<Rightarrow> do {
          parsed \<leftarrow> parseHeader hdr_bytes;
          if \<not> ok parsed then Some (failure no_message (err parsed) (message parsed), stream)
          else
            (let hdr = val parsed in
             if hdr_length hdr > 0 then
               (case stream_receive (unat (hdr_length hdr)) stream of
                  None \<Rightarrow> Some (failure no_message (fst fault) (snd fault), stream)
                | Some (pl, stream) \<Rightarrow> Some (success \<lparr>header = hdr, payload = pl\<rparr>, stream))
             else Some (success \<lparr>header = hdr, payload = []\<rparr>, stream)) })"

definition receive_msg_ws :: "bytes result \<Rightarrow> Message result option" where
  "receive_msg_ws res =
     (if \<not> ok res then Some (failure no_message (err res) (message res))
      else do {
        parsed \<leftarrow> parseHeader (val res);
        if \<not> ok parsed then Some (failure no_message (err parsed) (message parsed))
        else
          Some (success \<lparr>header = val parsed,
            payload = (if length (val res) > HEADER_SIZE then drop HEADER_SIZE (val res) else [])\<rparr>) })"

section \<open>The state of the session\<close>

definition prepare_join :: "u32 \<Rightarrow> app \<Rightarrow> app" where
  "prepare_join sid a = map_mgr (\<lambda>m. m\<lparr>joining_state := joining_joining, sm_session_id := sid\<rparr>) a"

definition prepare_create :: "app \<Rightarrow> app" where
  "prepare_create a = map_mgr (\<lambda>m. m\<lparr>joining_state := joining_creating\<rparr>) a"

definition send_join_request :: "u32 \<Rightarrow> app \<Rightarrow> app option" where
  "send_join_request sid a =
     (case client (mgr a) of
        None \<Rightarrow> Some a
      | Some cl \<Rightarrow> do {
          (res, cl) \<leftarrow> send_join sid ''SketchSync'' cl;
          let a = with_client cl a;
          if \<not> ok res then Some (set_status (message res) a)
          else Some (set_status (''Joining session #'' @ to_string (unat sid) @ ''...'')
            (map_mgr (\<lambda>m. m\<lparr>joining_state := joining_joining, sm_session_id := sid\<rparr>) a)) })"

definition send_create_request :: "app \<Rightarrow> app option" where
  "send_create_request a =
     (case client (mgr a) of
        None \<Rightarrow> Some a
      | Some cl \<Rightarrow> do {
          (res, cl) \<leftarrow> send_create ''SketchSync'' cl;
          let a = with_client cl a;
          if \<not> ok res then Some (set_status (message res) a)
          else Some (set_status ''Creating session...''
            (map_mgr (\<lambda>m. m\<lparr>joining_state := joining_creating\<rparr>) a)) })"

definition reset_session :: "app \<Rightarrow> app" where
  "reset_session a = map_mgr (\<lambda>m. m\<lparr>client := map_option mark_session_closed (client m),
     sm_in_session := False, sm_session_id := 0, sm_member_id := 0, sm_members := [],
     sm_is_host := False, joining_state := joining_none\<rparr>) a"

definition clear_joining_state :: "app \<Rightarrow> app" where
  "clear_joining_state a = map_mgr (\<lambda>m. m\<lparr>joining_state := joining_none\<rparr>) a"

definition attach_client :: "session_client \<Rightarrow> app \<Rightarrow> app" where
  "attach_client cl a = with_client cl a"

definition detach_client :: "app \<Rightarrow> app" where
  "detach_client a = map_mgr (\<lambda>m. m\<lparr>client := None\<rparr>) a"

definition has_client :: "app \<Rightarrow> bool" where
  "has_client a \<longleftrightarrow> client (mgr a) \<noteq> None"

definition send_leave_or_close :: "app \<Rightarrow> app option" where
  "send_leave_or_close a =
     (case client (mgr a) of
        Some cl \<Rightarrow>
          if sm_in_session (mgr a) then do {
            (res, cl) \<leftarrow> (if sm_is_host (mgr a) then send_close_session cl else send_leave cl);
            Some (with_client cl a) }
          else Some a
      | None \<Rightarrow> Some a)"

definition leave_session :: "app \<Rightarrow> app option" where
  "leave_session a = do {
     a \<leftarrow> send_leave_or_close a;
     Some (set_status ''Left session'' (reset_session a)) }"

definition member_id_or :: "u32 \<Rightarrow> app \<Rightarrow> u32" where
  "member_id_or fallback a =
     (case client (mgr a) of Some cl \<Rightarrow> cl_member_id cl | None \<Rightarrow> fallback)"

definition host_owns_canvas :: "app \<Rightarrow> bool" where
  "host_owns_canvas a =
     (case client (mgr a) of None \<Rightarrow> True | Some cl \<Rightarrow> cl_host cl)"

definition sorted_members :: "app \<Rightarrow> (u32 \<times> string) list" where
  "sorted_members a = sort_key fst (sm_members (mgr a))"

definition next_operation_id :: "app \<Rightarrow> u64 \<times> app" where
  "next_operation_id a =
     (let owner = member_id_or 1 a; n = next_operation_number (mgr a) in
      (push_bit 32 (ucast owner) OR ucast n,
       map_mgr (\<lambda>m. m\<lparr>next_operation_number := n + 1\<rparr>) a))"

section \<open>Drawing\<close>

definition broadcast_draw :: "draw_operation \<Rightarrow> bool \<Rightarrow> app \<Rightarrow> app option" where
  "broadcast_draw op track_pending a =
     (case client (mgr a) of
        None \<Rightarrow> Some a
      | Some cl \<Rightarrow>
          if \<not> (sm_in_session (mgr a) \<or> cl_in_session cl) then Some a
          else do {
            let a = (if track_pending
              then map_mgr (\<lambda>m. m\<lparr>pending_operations := insert (operation_id op) (pending_operations m)\<rparr>) a
              else a);
            (res, cl) \<leftarrow> send_draw op cl;
            Some (with_client cl a) })"

definition broadcast_clear :: "app \<Rightarrow> app option" where
  "broadcast_clear a =
     (case client (mgr a) of
        None \<Rightarrow> Some a
      | Some cl \<Rightarrow>
          if \<not> sm_in_session (mgr a) then Some a
          else do { (res, cl) \<leftarrow> send_canvas_clear cl; Some (with_client cl a) })"

text \<open>Saving to the current file when auto-save is on, as the clear calls do.\<close>

definition save_if_auto_save :: "app \<Rightarrow> app option" where
  "save_if_auto_save a =
     (if auto_save_on (files a) \<and> \<not> is_untitled (files a) then do {
        (line, fm, d) \<leftarrow> save_to_file (current_file (files a)) (surface a) (files a) (store a);
        let a = a\<lparr>files := fm, store := d\<rparr>;
        Some (case line of None \<Rightarrow> a | Some t \<Rightarrow> set_status t a) }
      else Some a)"

definition clear_canvas :: "app \<Rightarrow> app option" where
  "clear_canvas a = do {
     let a = a\<lparr>active_stroke := None, surface := clear_history (surface a)\<rparr>;
     a \<leftarrow> save_if_auto_save a;
     a \<leftarrow> broadcast_clear (a\<lparr>dirty := True\<rparr>);
     Some (set_status ''Canvas cleared'' a) }"

definition app_process_canvas_input :: "canvas_input_state \<Rightarrow> app \<Rightarrow> app option" where
  "app_process_canvas_input input a = do {
     let (oid, a) = next_operation_id a;
     let owner = (ucast (drop_bit 32 oid) :: u32);
     let host_owns = host_owns_canvas a;
     (committed, c, stroke) \<leftarrow> process_canvas_input input oid owner (active_color a)
       (active_thickness a) host_owns (active_tool a) (surface a) (active_stroke a);
     let a = a\<lparr>surface := c, active_stroke := stroke\<rparr>;
     case committed of
       None \<Rightarrow> Some a
     | Some op \<Rightarrow>
         (let a = (if host_owns then a\<lparr>files := enqueue_if_auto_save op (files a)\<rparr> else a) in
          broadcast_draw op (\<not> host_owns) (a\<lparr>dirty := True\<rparr>)) }"

section \<open>What the server sends\<close>

definition sm_handle_clear :: "app \<Rightarrow> app option" where
  "sm_handle_clear a = do {
     let a = a\<lparr>surface := clear_history (surface a)\<rparr>;
     a \<leftarrow> save_if_auto_save a;
     Some (set_status ''Canvas cleared'' (a\<lparr>dirty := True\<rparr>)) }"

definition sm_handle_notification :: "bytes \<Rightarrow> app \<Rightarrow> app option" where
  "sm_handle_notification p a =
     (if p = [] then Some a
      else if hd p = NOTIF_MEMBER_JOINED then do {
        notif \<leftarrow> parseMemberJoinedNotification p;
        let a = (if ok notif
          then map_mgr (\<lambda>m. m\<lparr>sm_members :=
            AList.update (mj_member_id (val notif)) (mj_name (val notif)) (sm_members m)\<rparr>) a
          else a);
        Some (set_status ''A member joined'' a) }
      else if hd p = NOTIF_MEMBER_LEFT then do {
        notif \<leftarrow> parseMemberLeftNotification p;
        let a = (if ok notif
          then map_mgr (\<lambda>m. m\<lparr>sm_members := AList.delete (ml_member_id (val notif)) (sm_members m)\<rparr>) a
          else a);
        Some (set_status ''A member left'' a) }
      else if hd p = NOTIF_SESSION_CLOSED then
        Some (set_status ''Session closed by host'' (reset_session a))
      else Some a)"

text \<open>A committed operation: onto the canvas, and into the auto-save queue.\<close>

definition apply_and_save :: "draw_operation \<Rightarrow> app \<Rightarrow> (draw_operation \<times> app) option" where
  "apply_and_save op a = do {
     (sq, c) \<leftarrow> canvas_apply op (surface a);
     let op = op\<lparr>seq := sq\<rparr>;
     Some (op, a\<lparr>surface := c, files := enqueue_if_auto_save op (files a)\<rparr>) }"

text \<open>What a client does with an operation it has received.\<close>

definition receive_draw :: "draw_operation \<Rightarrow> session_client \<Rightarrow> app \<Rightarrow> app option" where
  "receive_draw op cl a =
     (if cl_host cl then
        (if \<not> ok (validateDrawOperation op False) then Some a
         else if operation_id op \<noteq> 0 \<and> contains_operation (operation_id op) (surface a) then Some a
         else do {
           (op, a) \<leftarrow> apply_and_save op a;
           (res, cl) \<leftarrow> send_draw_raw op cl;
           Some ((with_client cl a)\<lparr>dirty := True\<rparr>) })
      else if seq op = 0 then Some a
      else
        (let expected = next_sequence (surface a) in
         if seq op > expected then do {
           (res, cl) \<leftarrow> request_canvas_state cl;
           Some (with_client cl a) }
         else if seq op < expected then Some a
         else do {
           (op, a) \<leftarrow> apply_and_save op a;
           Some (a\<lparr>dirty := True\<rparr>) }))"

definition sm_handle_draw :: "bytes \<Rightarrow> app \<Rightarrow> app option" where
  "sm_handle_draw p a = do {
     op_res \<leftarrow> parseDrawOperation p;
     if \<not> ok op_res then Some a
     else do {
       let op = val op_res;
       let a = map_mgr (\<lambda>m. m\<lparr>pending_operations := pending_operations m - {operation_id op}\<rparr>) a;
       case client (mgr a) of
         None \<Rightarrow> Some a
       | Some cl \<Rightarrow> receive_draw op cl a } }"

definition sm_handle_canvas_state :: "bytes \<Rightarrow> app \<Rightarrow> app option" where
  "sm_handle_canvas_state p a = do {
     state_res \<leftarrow> parseCanvasStateMessage p;
     if \<not> ok state_res then Some a
     else do {
       c \<leftarrow> canvas_load (cs_operations (val state_res)) (surface a);
       Some (set_status ''Canvas synchronized''
         (a\<lparr>surface := c, dirty := True, files := mark_synced_for_save (files a)\<rparr>)) } }"

definition leave_acknowledged :: "app \<Rightarrow> app" where
  "leave_acknowledged a = map_mgr (\<lambda>m. m\<lparr>client := map_option mark_session_closed (client m),
     sm_in_session := False, sm_session_id := 0, sm_member_id := 0, sm_is_host := False,
     joining_state := joining_none\<rparr>) a"

definition sm_handle_ack :: "Message \<Rightarrow> app \<Rightarrow> app option" where
  "sm_handle_ack m a =
     (case joining_state (mgr a) of
        joining_creating \<Rightarrow> do {
          ack \<leftarrow> parseCreateAckMessage (payload m);
          if ok ack \<and> ca_ack_code (val ack) = ACK_CREATE_OK then
            (let mid = ca_member_id (val ack); sid = ca_session_id (val ack) in
             Some (set_status (''Hosting session #'' @ to_string (unat sid))
               (map_mgr (\<lambda>m. m\<lparr>client := map_option (set_session_info mid sid True) (client m),
                 sm_member_id := mid, sm_members := AList.update mid ''SketchSync'' (sm_members m),
                 sm_session_id := sid, sm_is_host := True, sm_in_session := True,
                 joining_state := joining_in_session\<rparr>) a)))
          else Some a }
      | joining_joining \<Rightarrow> do {
          ack \<leftarrow> parseJoinAckMessage (payload m);
          if ok ack \<and> ja_ack_code (val ack) = ACK_JOIN_OK then
            (let mid = ja_member_id (val ack); sid = sm_session_id (mgr a);
                 a = map_mgr (\<lambda>m. m\<lparr>client := map_option (set_session_info mid sid False) (client m),
                   sm_member_id := mid, sm_members := AList.update mid ''SketchSync'' (sm_members m),
                   sm_is_host := False, sm_in_session := True, joining_state := joining_in_session\<rparr>) a
             in do {
               a \<leftarrow> (case client (mgr a) of
                       None \<Rightarrow> Some a
                     | Some cl \<Rightarrow> do { (res, cl) \<leftarrow> request_canvas_state cl; Some (with_client cl a) });
               Some (set_status (''Joined session #'' @ to_string (unat sid)) a) })
          else Some a }
      | joining_leaving \<Rightarrow> Some (leave_acknowledged a)
      | joining_closing \<Rightarrow> Some (leave_acknowledged a)
      | _ \<Rightarrow> Some a)"

definition sm_handle_error :: "bytes \<Rightarrow> app \<Rightarrow> app option" where
  "sm_handle_error p a = do {
     e \<leftarrow> parseErrorMessage p;
     if ok e then Some (clear_joining_state (set_status (err_message (val e)) a)) else Some a }"

section \<open>The polling thread\<close>

definition set_disconnected :: "app \<Rightarrow> app" where
  "set_disconnected a = map_net (\<lambda>n. n\<lparr>nm_connected := False, nm_state := state_disconnected\<rparr>) a"

text \<open>One message, received while \<open>client_\<close> is set.\<close>

definition sm_dispatch :: "session_client \<Rightarrow> Message \<Rightarrow> app \<Rightarrow> app option" where
  "sm_dispatch cl m a =
     (let oc = opcode (header m) in
      if oc = OP_NOTIFICATION then sm_handle_notification (payload m) a
      else if oc = OP_DRAW then sm_handle_draw (payload m) a
      else if oc = OP_CANVAS_CLEAR then sm_handle_clear a
      else if oc = OP_CANVAS_STATE then sm_handle_canvas_state (payload m) a
      else if oc = OP_ACK then sm_handle_ack m a
      else if oc = OP_ERROR_MSG then sm_handle_error (payload m) a
      else if oc = OP_CANVAS_STATE_REQUEST then
        (if cl_host cl then do {
           (res, cl) \<leftarrow> send_canvas_state (snapshot (surface a)) cl;
           Some (with_client cl a) }
         else Some a)
      else Some a)"

text \<open>
  One turn of the loop, with the result of the receive, and whether the loop goes on.
  \<open>poll_received\<close> is the turn after the receive has returned: by then a stop may have been
  requested, and a failing receive is no news.
\<close>

definition poll_received :: "Message result \<Rightarrow> app \<Rightarrow> (app \<times> bool) option" where
  "poll_received msg_res a =
     (case client (mgr a) of
        None \<Rightarrow> Some (a, True)
      | Some cl \<Rightarrow>
          if \<not> ok msg_res then
            Some (if stop_poll (net a) then a
              else set_disconnected (reset_session (set_status (''Disconnected: '' @ message msg_res) a)), False)
          else do { a \<leftarrow> sm_dispatch cl (val msg_res) a; Some (a, True) })"

definition poll_turn :: "Message result \<Rightarrow> app \<Rightarrow> (app \<times> bool) option" where
  "poll_turn msg_res a =
     (if stop_poll (net a) then Some (a, False) else poll_received msg_res a)"

text \<open>The loop over what the client receives; the thread is gone when it returns.\<close>

fun poll_session :: "Message result list \<Rightarrow> app \<Rightarrow> app option" where
  "poll_session [] a = Some a"
| "poll_session (r # rs) a = do {
     (a, going_on) \<leftarrow> poll_turn r a;
     if going_on then poll_session rs a else Some (map_net (\<lambda>n. n\<lparr>poll_thread := False\<rparr>) a) }"

end
