(* ===== verification/Session_Lemmas.thy ===== *)
theory Session_Lemmas
  imports Session Server_Lemmas File_Lemmas
begin

text \<open>
  The session of a client: what its requests put on the wire, that no message of the server can
  make it fail, and how the logs of host and members develop. A member follows a host's log while
  its own is a prefix of it; a host numbers what it applies.
\<close>

section \<open>Requests\<close>

definition after_send :: "bytes \<Rightarrow> session_client \<Rightarrow> session_client" where
  "after_send buf cl = (if link_error cl = None then cl\<lparr>sent := sent cl @ [buf]\<rparr> else cl)"

definition send_answer :: "session_client \<Rightarrow> bool result" where
  "send_answer cl = (case link_error cl of
     None \<Rightarrow> success True
   | Some (e, reason) \<Rightarrow> if e = none then success True else failure False e reason)"

lemma after_send_sel [simp]:
  "cl_member_id (after_send buf cl) = cl_member_id cl"
  "cl_session_id (after_send buf cl) = cl_session_id cl"
  "cl_host (after_send buf cl) = cl_host cl" "link_error (after_send buf cl) = link_error cl"
  "link_error cl = None \<Longrightarrow> sent (after_send buf cl) = sent cl @ [buf]"
  by (simp_all add: after_send_def)

lemma send_frame_eq: "send_frame oc p cl = Some (send_answer cl, after_send (frame oc p) cl)"
  by (auto simp: send_frame_def send_message_def serializeMessage_image frame_def send_answer_def
      after_send_def success_def failure_def ok_def split: option.splits)

lemma request_eqs [server_simps]:
  "send_leave cl = Some (send_answer cl, after_send (frame OP_LEAVE []) cl)"
  "send_close_session cl = Some (send_answer cl, after_send (frame OP_CLOSE_SESSION []) cl)"
  "send_canvas_clear cl = Some (send_answer cl, after_send (frame OP_CANVAS_CLEAR []) cl)"
  "request_canvas_state cl =
     Some (if cl_session_id cl = 0 then (failure False rejected ''not in a session'', cl)
       else (send_answer cl, after_send (frame OP_CANVAS_STATE_REQUEST []) cl))"
  by (simp_all add: send_leave_def send_close_session_def send_canvas_clear_def
      request_canvas_state_def send_frame_eq cl_in_session_def)

lemma send_draw_eqs [server_simps]:
  "points_fit op \<Longrightarrow> send_draw_raw op cl =
     Some (send_answer cl, after_send (frame OP_DRAW (draw_image op)) cl)"
  "points_fit op \<Longrightarrow> send_draw op cl =
     Some (send_answer cl, after_send (frame OP_DRAW (draw_image (op\<lparr>member_id := cl_member_id cl\<rparr>))) cl)"
  by (simp_all add: send_draw_raw_def send_draw_def send_frame_eq serializeDrawOperation_image
      points_fit_def)

section \<open>Members\<close>

text \<open>What a session can send a member, when the host's log is \<open>ops\<close>.\<close>

definition from_host :: "draw_operation list \<Rightarrow> Message \<Rightarrow> bool" where
  "from_host ops m \<longleftrightarrow> opcode (header m) \<noteq> OP_CANVAS_CLEAR \<and>
     (opcode (header m) = OP_DRAW \<longrightarrow> (\<exists>op \<in> set ops. payload m = draw_image op)) \<and>
     (opcode (header m) = OP_CANVAS_STATE \<longrightarrow>
       (\<exists>k \<le> length ops. payload m = canvas_state_image (take k ops)))"

definition follows :: "draw_operation list \<Rightarrow> nat \<Rightarrow> app \<Rightarrow> bool" where
  "follows ops k a \<longleftrightarrow>
     (\<exists>cl. client (mgr a) = Some cl \<and> \<not> cl_host cl) \<and> joining_state (mgr a) \<noteq> joining_creating \<and>
     \<not> stop_poll (net a) \<and> canvas_inv (surface a) \<and> k \<le> length ops \<and>
     snapshot (surface a) = take k ops \<and> numbered (take k ops) (next_sequence (surface a))"

text \<open>A log that the session can carry.\<close>

definition good_log :: "draw_operation list \<Rightarrow> bool" where
  "good_log ops \<longleftrightarrow> (\<exists>n. numbered ops n) \<and> distinct_ids ops \<and> list_all points_fit ops"

lemma follows_cong:
  assumes "follows ops k a" and "surface a' = surface a" and "net a' = net a"
    and "\<exists>cl. client (mgr a') = Some cl \<and> \<not> cl_host cl" and "joining_state (mgr a') \<noteq> joining_creating"
  shows "follows ops k a'"
  using assms by (simp add: follows_def)

lemma follows_reset: "follows ops k a \<Longrightarrow> follows ops k (reset_session a)"
  by (auto simp: reset_session_def follows_def mark_session_closed_def)

lemma follows_status [simp]: "follows ops k (a\<lparr>status := t\<rparr>) = follows ops k a"
  "follows ops k (a\<lparr>dirty := b\<rparr>) = follows ops k a"
  "follows ops k (a\<lparr>files := fm\<rparr>) = follows ops k a"
  by (simp_all add: follows_def)

lemma follows_notification:
  assumes "follows ops k a"
  shows "\<exists>a'. sm_handle_notification p a = Some a' \<and> follows ops k a'"
proof -
  have upd: "follows ops k (a\<lparr>mgr := (mgr a)\<lparr>sm_members := ms\<rparr>\<rparr>)" for ms
    using assms by (simp add: follows_def)
  obtain r1 r2 where "parseMemberJoinedNotification p = Some r1" "parseMemberLeftNotification p = Some r2"
    using parse_total(8,9) [of p] by blast
  then show ?thesis
    using assms upd follows_reset [OF assms]
    by (auto simp: sm_handle_notification_def Let_def)
qed

lemma follows_error:
  assumes "follows ops k a"
  shows "\<exists>a'. sm_handle_error p a = Some a' \<and> follows ops k a'"
proof -
  obtain r where "parseErrorMessage p = Some r" using parse_total(5) [of p] by blast
  with assms show ?thesis
    by (auto simp: sm_handle_error_def clear_joining_state_def follows_def)
qed

lemma parse_draw_image: "points_fit op \<Longrightarrow> parseDrawOperation (draw_image op) = Some (success op)"
  using parseDrawOperation_image [of op "[]"] by simp

lemma draw_image_inj:
  assumes "points_fit op" and "points_fit op'" and "draw_image op = draw_image op'"
  shows "op = op'"
proof -
  have "val (the (parseDrawOperation (draw_image op))) = val (the (parseDrawOperation (draw_image op')))"
    by (simp only: assms(3))
  then show ?thesis by (simp add: parse_draw_image assms(1,2) success_def)
qed

text \<open>\<open>sm_handle_draw\<close> of a member that has a client, on an operation with a number.\<close>

lemma member_handle_draw:
  assumes "points_fit op" and "client (mgr a) = Some cl" and "\<not> cl_host cl" and "seq op \<noteq> 0"
  defines "a1 \<equiv> map_mgr (\<lambda>m. m\<lparr>pending_operations := pending_operations m - {operation_id op}\<rparr>) a"
  shows "seq op > next_sequence (surface a) \<Longrightarrow> \<exists>cl'. \<not> cl_host cl' \<and>
      sm_handle_draw (draw_image op) a = Some (with_client cl' a1) \<and>
      (cl_session_id cl \<noteq> 0 \<longrightarrow> cl' = after_send (frame OP_CANVAS_STATE_REQUEST []) cl)"
    and "seq op < next_sequence (surface a) \<Longrightarrow> sm_handle_draw (draw_image op) a = Some a1"
    and "seq op = next_sequence (surface a) \<Longrightarrow> canvas_apply op (surface a) = Some (sq, c) \<Longrightarrow>
      sm_handle_draw (draw_image op) a = Some (a1\<lparr>surface := c,
        files := enqueue_if_auto_save (op\<lparr>seq := sq\<rparr>) (files a), dirty := True\<rparr>)"
  using assms
  by (auto simp: sm_handle_draw_def receive_draw_def parse_draw_image server_simps apply_and_save_def Let_def)

lemma follows_draw:
  assumes "follows ops k a" and good: "good_log ops" and "op \<in> set ops"
  shows "\<exists>a' k'. sm_handle_draw (draw_image op) a = Some a' \<and> follows ops k' a' \<and> k \<le> k' \<and>
    (k < length ops \<and> op = ops ! k \<longrightarrow> k' = Suc k)"
proof -
  obtain n where num: "numbered ops n" and ids: "distinct_ids ops" and fits: "list_all points_fit ops"
    using good by (auto simp: good_log_def)
  obtain cl where cl: "client (mgr a) = Some cl" "\<not> cl_host cl" using assms(1) by (auto simp: follows_def)
  obtain i where i: "i < length ops" "op = ops ! i" using assms(3) by (auto simp: in_set_conv_nth)
  have sq: "unat (seq op) = Suc i" using num i by (simp add: numbered_def)
  then have nz: "seq op \<noteq> 0" by auto
  have fit: "points_fit op" using fits assms(3) by (auto simp: list_all_iff)
  have k: "k \<le> length ops" "snapshot (surface a) = take k ops" "canvas_inv (surface a)"
    and nxt: "numbered (take k ops) (next_sequence (surface a))"
    using assms(1) by (simp_all add: follows_def)
  then have next_eq: "unat (next_sequence (surface a)) = Suc k" by (simp add: numbered_def)
  have only: "k < length ops \<Longrightarrow> op = ops ! k \<Longrightarrow> seq op = next_sequence (surface a)"
    using num next_eq by (simp add: numbered_def word_unat_eq_iff)
  note draw = member_handle_draw [OF fit cl nz]
  consider "seq op > next_sequence (surface a)" | "seq op < next_sequence (surface a)"
    | "seq op = next_sequence (surface a)" by (metis linorder_neqE)
  then show ?thesis
  proof cases
    case 1
    then have "\<not> (k < length ops \<and> op = ops ! k)" using only by auto
    moreover obtain a' where "sm_handle_draw (draw_image op) a = Some a'" "follows ops k a'"
      using draw(1) [OF 1] assms(1) by (auto simp: follows_def)
    ultimately show ?thesis by blast
  next
    case 2
    then have "\<not> (k < length ops \<and> op = ops ! k)" using only by auto
    moreover obtain a' where "sm_handle_draw (draw_image op) a = Some a'" "follows ops k a'"
      using draw(2) [OF 2] assms(1) by (auto simp: follows_def)
    ultimately show ?thesis by blast
  next
    case 3
    from canvas_log.member_append [OF k(3) num ids assms(3), of k] k nxt 3 obtain c where
      c: "canvas_apply op (surface a) = Some (seq op, c)" "canvas_inv c" "operations c = take (Suc k) ops"
        "Suc k \<le> length ops" "numbered (operations c) (next_seq c)"
      by (auto simp: snapshot_def next_sequence_def)
    obtain a' where "sm_handle_draw (draw_image op) a = Some a'" "follows ops (Suc k) a'"
      using draw(3) [OF 3 c(1)] c assms(1) by (auto simp: follows_def snapshot_def next_sequence_def)
    moreover have "k \<le> Suc k" by simp
    ultimately show ?thesis by blast
  qed
qed

lemma follows_state:
  assumes "follows ops k a" and good: "good_log ops" and "j \<le> length ops"
  shows "\<exists>a'. sm_handle_canvas_state (canvas_state_image (take j ops)) a = Some a' \<and> follows ops j a'"
proof -
  obtain n where num: "numbered ops n" and fits: "list_all points_fit ops"
    using good by (auto simp: good_log_def)
  have "unat n < 2 ^ 32" using unsigned_less [of n] by simp
  then have "canvas_state_fits \<lparr>cs_operations = take j ops\<rparr>"
    using num fits assms(3) by (auto simp: canvas_state_fits_def numbered_def list_all_iff dest: in_set_takeD)
  from parseCanvasState_image [OF this, of "[]"]
  have parse: "parseCanvasStateMessage (canvas_state_image (take j ops)) =
      Some (success \<lparr>cs_operations = take j ops\<rparr>)" by simp
  have numj: "numbered (take j ops) (max_sequence (take j ops) + 1)"
    using numbered_simps(2) [OF num assms(3)] .
  have inv: "canvas_inv (surface a)" using assms(1) by (simp add: follows_def)
  from canvas_log.load_numbered [OF inv numj] obtain c where
    c: "canvas_load (take j ops) (surface a) = Some c" "canvas_inv c" "operations c = take j ops"
      "next_seq c = max_sequence (take j ops) + 1" by blast
  with parse numj assms(1,3) show ?thesis
    by (auto simp: sm_handle_canvas_state_def follows_def snapshot_def next_sequence_def)
qed

lemma follows_ack:
  assumes "follows ops k a"
  shows "\<exists>a'. sm_handle_ack m a = Some a' \<and> follows ops k a'"
proof -
  obtain r where "parseJoinAckMessage (payload m) = Some r" using parse_total(7) [of "payload m"] by blast
  with assms show ?thesis
    by (cases "joining_state (mgr a)")
      (auto simp: sm_handle_ack_def follows_def leave_acknowledged_def mark_session_closed_def
        set_session_info_def server_simps Let_def)
qed

text \<open>One message of the session, and any number of them.\<close>

lemma follows_message:
  assumes "follows ops k a" and "good_log ops" and "from_host ops m"
  shows "\<exists>a' k'. poll_turn (success m) a = Some (a', True) \<and> follows ops k' a' \<and>
    (opcode (header m) = OP_DRAW \<longrightarrow> k \<le> k' \<and> (k < length ops \<and> payload m = draw_image (ops ! k) \<longrightarrow> k' = Suc k)) \<and>
    (opcode (header m) = OP_CANVAS_STATE \<longrightarrow> k' \<le> length ops \<and> payload m = canvas_state_image (take k' ops))"
proof -
  obtain cl where cl: "client (mgr a) = Some cl" "\<not> cl_host cl" and go: "\<not> stop_poll (net a)"
    using assms(1) by (auto simp: follows_def)
  let ?oc = "opcode (header m)"
  have turn: "poll_turn (success m) a = do { a \<leftarrow> sm_dispatch cl m a; Some (a, True) }"
    using cl go by (simp add: poll_turn_def poll_received_def)
  consider "?oc = OP_NOTIFICATION" | "?oc = OP_DRAW" | "?oc = OP_CANVAS_STATE" | "?oc = OP_ACK"
    | "?oc = OP_ERROR_MSG"
    | "?oc \<notin> {OP_NOTIFICATION, OP_DRAW, OP_CANVAS_STATE, OP_ACK, OP_ERROR_MSG, OP_CANVAS_CLEAR}"
    using assms(3) by (auto simp: from_host_def)
  then show ?thesis
  proof cases
    case 1
    with follows_notification [OF assms(1), of "payload m"] turn show ?thesis
      by (auto simp: sm_dispatch_def)
  next
    case 2
    then obtain op where op: "op \<in> set ops" "payload m = draw_image op"
      using assms(3) by (auto simp: from_host_def)
    have inj: "op = ops ! k" if "k < length ops" "draw_image op = draw_image (ops ! k)"
    proof -
      have "points_fit op" "points_fit (ops ! k)"
        using assms(2) op(1) that(1) by (auto simp: good_log_def list_all_iff)
      then show ?thesis using that(2) by (rule draw_image_inj)
    qed
    from follows_draw [OF assms(1,2) op(1)] obtain a' k' where
      a': "sm_handle_draw (draw_image op) a = Some a'" "follows ops k' a'" "k \<le> k'"
        "k < length ops \<and> op = ops ! k \<longrightarrow> k' = Suc k" by blast
    moreover have "sm_dispatch cl m a = sm_handle_draw (draw_image op) a"
      using 2 op by (simp add: sm_dispatch_def)
    ultimately have "poll_turn (success m) a = Some (a', True)" using turn by simp
    moreover have "k < length ops \<and> payload m = draw_image (ops ! k) \<longrightarrow> k' = Suc k"
      using a'(4) inj op(2) by metis
    moreover have "?oc \<noteq> OP_CANVAS_STATE" using 2 by simp
    ultimately show ?thesis using a'(2,3) by blast
  next
    case 3
    then obtain j where "j \<le> length ops" "payload m = canvas_state_image (take j ops)"
      using assms(3) by (auto simp: from_host_def)
    with follows_state [OF assms(1,2), of j] 3 turn show ?thesis
      by (auto simp: sm_dispatch_def)
  next
    case 4
    with follows_ack [OF assms(1), of m] turn show ?thesis by (auto simp: sm_dispatch_def)
  next
    case 5
    with follows_error [OF assms(1), of "payload m"] turn show ?thesis by (auto simp: sm_dispatch_def)
  next
    case 6
    with turn cl assms(1) show ?thesis by (auto simp: sm_dispatch_def Let_def)
  qed
qed

lemma follows_messages:
  assumes "follows ops k a" and "good_log ops" and "list_all (from_host ops) ms"
  shows "\<exists>a' k'. poll_session (map success ms) a = Some a' \<and> follows ops k' a'"
  using assms(1,3)
proof (induction ms arbitrary: a k)
  case Nil
  then show ?case by auto
next
  case (Cons m ms)
  then obtain a1 k1 where "poll_turn (success m) a = Some (a1, True)" "follows ops k1 a1"
    using follows_message [OF Cons.prems(1) assms(2), of m] by auto
  with Cons.IH [of k1 a1] Cons.prems(2) show ?case by simp
qed

text \<open>The strokes a member misses, delivered in order.\<close>

definition draw_message :: "draw_operation \<Rightarrow> Message" where
  "draw_message op =
     \<lparr>header = \<lparr>opcode = OP_DRAW, flags = 0, hdr_length = word_of_nat (length (draw_image op))\<rparr>,
      payload = draw_image op\<rparr>"

definition state_message :: "draw_operation list \<Rightarrow> Message" where
  "state_message ops =
     \<lparr>header = \<lparr>opcode = OP_CANVAS_STATE, flags = 0,
        hdr_length = word_of_nat (length (canvas_state_image ops))\<rparr>, payload = canvas_state_image ops\<rparr>"

lemma message_sel [simp]:
  "opcode (header (draw_message op)) = OP_DRAW" "payload (draw_message op) = draw_image op"
  "opcode (header (state_message ops)) = OP_CANVAS_STATE"
  "payload (state_message ops) = canvas_state_image ops"
  by (simp_all add: draw_message_def state_message_def)

lemma from_host_draw: "op \<in> set ops \<Longrightarrow> from_host ops (draw_message op)"
  by (auto simp: from_host_def)

lemma from_host_state: "j \<le> length ops \<Longrightarrow> from_host ops (state_message (take j ops))"
  by (auto simp: from_host_def)

lemma follows_in_order:
  assumes "follows ops k a" and "good_log ops"
  shows "\<exists>a'. poll_session (map (success \<circ> draw_message) (drop k ops)) a = Some a' \<and>
    follows ops (length ops) a'"
  using assms(1)
proof (induction "length ops - k" arbitrary: a k)
  case 0
  then show ?case by (auto simp: follows_def)
next
  case (Suc d)
  then have k: "k < length ops" by simp
  then have cons: "drop k ops = ops ! k # drop (Suc k) ops" by (simp add: Cons_nth_drop_Suc)
  obtain a1 where a1: "poll_turn (success (draw_message (ops ! k))) a = Some (a1, True)"
    "follows ops (Suc k) a1"
    using follows_message [OF Suc.prems assms(2) from_host_draw, of "ops ! k"] k by auto
  from Suc.hyps(1) [OF _ a1(2)] Suc.hyps(2) a1(1) show ?case by (simp add: cons)
qed

lemma follows_full_state:
  assumes "follows ops k a" and "good_log ops"
  shows "\<exists>a'. poll_session [success (state_message ops)] a = Some a' \<and> follows ops (length ops) a'"
proof -
  from assms(1) obtain cl where "client (mgr a) = Some cl" "\<not> stop_poll (net a)"
    by (auto simp: follows_def)
  with follows_state [OF assms order_refl] show ?thesis
    by (auto simp: poll_turn_def poll_received_def sm_dispatch_def)
qed

section \<open>The frame of the canvas\<close>

text \<open>No message changes the size or the background of the canvas.\<close>

definition same_frame :: "canvas \<Rightarrow> canvas \<Rightarrow> bool" where
  "same_frame c d \<longleftrightarrow> width c = width d \<and> height c = height d \<and> background c = background d"

lemma same_frame_refl [simp]: "same_frame c c"
  by (simp add: same_frame_def)

lemma draw_on_frame: "draw_on op c = Some c' \<Longrightarrow> same_frame c' c"
  by (auto simp: draw_on_def same_frame_def elim!: bind_eq_SomeE)

lemma each_draw_on_frame: "each draw_on ops c = Some c' \<Longrightarrow> same_frame c' c"
proof (induction ops arbitrary: c)
  case (Cons op ops)
  then obtain c1 where "draw_on op c = Some c1" "each draw_on ops c1 = Some c'"
    by (auto elim!: bind_eq_SomeE)
  with Cons.IH [of c1] draw_on_frame [of op c c1] show ?case by (simp add: same_frame_def)
qed simp

lemma canvas_load_frame: "canvas_load ops c = Some c' \<Longrightarrow> same_frame c' c"
  using each_draw_on_frame by (fastforce simp: canvas_load_def Let_def same_frame_def split: if_split_asm)

lemma canvas_apply_frame: "canvas_apply op c = Some (sq, c') \<Longrightarrow> same_frame c' c"
  by (auto simp: canvas_apply_def Let_def same_frame_def split: option.split_asm if_split_asm
      elim!: bind_eq_SomeE dest!: draw_on_frame)

lemma clear_history_frame: "same_frame (clear_history c) c"
  by (simp add: clear_history_def same_frame_def)

lemma reset_session_surface [simp]: "surface (reset_session a) = surface a"
  by (simp add: reset_session_def)

lemma save_if_auto_save_surface: "save_if_auto_save a = Some a' \<Longrightarrow> surface a' = surface a"
  by (auto simp: save_if_auto_save_def Let_def split: if_split_asm option.splits elim!: bind_eq_SomeE)

lemma handlers_frame:
  "sm_handle_notification p a = Some a' \<Longrightarrow> surface a' = surface a"
  "sm_handle_error p a = Some a' \<Longrightarrow> surface a' = surface a"
  "sm_handle_ack m a = Some a' \<Longrightarrow> surface a' = surface a"
  "sm_handle_clear a = Some a' \<Longrightarrow> same_frame (surface a') (surface a)"
  "sm_handle_canvas_state p a = Some a' \<Longrightarrow> same_frame (surface a') (surface a)"
  "sm_handle_draw p a = Some a' \<Longrightarrow> same_frame (surface a') (surface a)"
proof -
  show "sm_handle_notification p a = Some a' \<Longrightarrow> surface a' = surface a"
    by (auto simp: sm_handle_notification_def Let_def split: if_split_asm elim!: bind_eq_SomeE)
  show "sm_handle_error p a = Some a' \<Longrightarrow> surface a' = surface a"
    by (auto simp: sm_handle_error_def clear_joining_state_def split: if_split_asm elim!: bind_eq_SomeE)
  show "sm_handle_ack m a = Some a' \<Longrightarrow> surface a' = surface a"
    by (auto simp: sm_handle_ack_def leave_acknowledged_def Let_def
        split: session_joining_state.split_asm if_split_asm option.split_asm elim!: bind_eq_SomeE)
  show "sm_handle_clear a = Some a' \<Longrightarrow> same_frame (surface a') (surface a)"
    by (auto simp: sm_handle_clear_def Let_def clear_history_frame
        elim!: bind_eq_SomeE dest!: save_if_auto_save_surface)
  show "sm_handle_canvas_state p a = Some a' \<Longrightarrow> same_frame (surface a') (surface a)"
    by (auto simp: sm_handle_canvas_state_def split: if_split_asm
        elim!: bind_eq_SomeE dest!: canvas_load_frame)
  show "sm_handle_draw p a = Some a' \<Longrightarrow> same_frame (surface a') (surface a)"
    by (auto simp: sm_handle_draw_def receive_draw_def apply_and_save_def Let_def split: if_split_asm option.split_asm
        elim!: bind_eq_SomeE dest!: canvas_apply_frame)
qed

lemma poll_turn_frame:
  assumes "poll_turn r a = Some (a', go)"
  shows "same_frame (surface a') (surface a)"
  using assms handlers_frame
  by (auto simp: poll_turn_def poll_received_def sm_dispatch_def set_disconnected_def Let_def
      split: if_split_asm option.split_asm elim!: bind_eq_SomeE)

lemma poll_session_frame:
  "poll_session rs a = Some a' \<Longrightarrow> same_frame (surface a') (surface a)"
proof (induction rs arbitrary: a)
  case (Cons r rs)
  then obtain a1 go where turn: "poll_turn r a = Some (a1, go)"
    and rest: "(if go then poll_session rs a1 else Some (map_net (\<lambda>n. n\<lparr>poll_thread := False\<rparr>) a1)) = Some a'"
    by (auto elim!: bind_eq_SomeE)
  from rest Cons.IH [of a1] have "same_frame (surface a') (surface a1)" by (auto split: if_split_asm)
  with poll_turn_frame [OF turn] show ?case by (simp add: same_frame_def)
qed simp

section \<open>The host\<close>

definition app_sent :: "app \<Rightarrow> bytes list" where
  "app_sent a = (case client (mgr a) of None \<Rightarrow> [] | Some cl \<Rightarrow> sent cl)"

definition hosts :: "app \<Rightarrow> bool" where
  "hosts a \<longleftrightarrow>
     (\<exists>cl. client (mgr a) = Some cl \<and> cl_host cl \<and> link_error cl = None) \<and> \<not> stop_poll (net a) \<and>
     canvas_inv (surface a) \<and> numbered (snapshot (surface a)) (next_sequence (surface a)) \<and>
     distinct_ids (snapshot (surface a)) \<and> list_all points_fit (snapshot (surface a))"

text \<open>The operations a host adds to a log when it receives \<open>ops\<close>: new ids only, numbered.\<close>

fun stamped :: "draw_operation list \<Rightarrow> u32 \<Rightarrow> draw_operation list \<Rightarrow> draw_operation list" where
  "stamped hist n [] = []"
| "stamped hist n (op # ops) =
     (if known_id op hist then stamped hist n ops
      else op\<lparr>seq := n\<rparr> # stamped (hist @ [op\<lparr>seq := n\<rparr>]) (n + 1) ops)"

lemma contains_known:
  "canvas_inv c \<Longrightarrow> contains_operation (operation_id op) c \<longleftrightarrow> known_id op (snapshot c)"
  by (auto simp: contains_operation_def known_id_def canvas_inv_def snapshot_def)

lemma distinct_ids_snoc:
  "distinct_ids xs \<Longrightarrow> \<not> known_id op xs \<Longrightarrow> distinct_ids (xs @ [op\<lparr>seq := n\<rparr>])"
  by (auto simp: distinct_ids_def known_id_def ids_of_def)

lemma canvas_apply_host:
  assumes "canvas_inv c" and "numbered (snapshot c) (next_sequence c)" and "seq op = 0"
    and "\<not> known_id op (snapshot c)" and "length (snapshot c) + 2 < 2 ^ 32"
  shows "\<exists>c'. canvas_apply op c = Some (next_sequence c, c') \<and> canvas_inv c' \<and>
    snapshot c' = snapshot c @ [op\<lparr>seq := next_sequence c\<rparr>] \<and>
    numbered (snapshot c') (next_sequence c') \<and> next_sequence c' = next_sequence c + 1"
proof -
  from canvas_log.host_append [OF assms(1) _ assms(3)] assms obtain c' where
    c': "canvas_apply op c = Some (next_seq c, c')" "canvas_inv c'"
      "operations c' = operations c @ [op\<lparr>seq := next_seq c\<rparr>]" "numbered (operations c') (next_seq c')"
    by (auto simp: snapshot_def next_sequence_def)
  moreover have "next_seq c' = next_seq c + 1"
    using canvas_log.append_new [OF assms(1) _ refl, of op] assms(3,4) c'(1)
    by (auto simp: next_after_def snapshot_def)
  ultimately show ?thesis by (simp add: snapshot_def next_sequence_def)
qed

lemma hosts_draw:
  assumes "hosts a" and "valid_operation False op" and "length (snapshot (surface a)) + 2 < 2 ^ 32"
  shows "\<exists>a'. sm_handle_draw (draw_image op) a = Some a' \<and> hosts a' \<and>
    (if known_id op (snapshot (surface a))
     then snapshot (surface a') = snapshot (surface a) \<and> next_sequence (surface a') = next_sequence (surface a) \<and>
       app_sent a' = app_sent a
     else snapshot (surface a') = snapshot (surface a) @ [op\<lparr>seq := next_sequence (surface a)\<rparr>] \<and>
       next_sequence (surface a') = next_sequence (surface a) + 1 \<and>
       app_sent a' = app_sent a @ [frame OP_DRAW (draw_image (op\<lparr>seq := next_sequence (surface a)\<rparr>))])"
proof -
  obtain cl where cl: "client (mgr a) = Some cl" "cl_host cl" "link_error cl = None"
    using assms(1) by (auto simp: hosts_def)
  have inv: "canvas_inv (surface a)" and num: "numbered (snapshot (surface a)) (next_sequence (surface a))"
    using assms(1) by (simp_all add: hosts_def)
  have op: "operation_id op \<noteq> 0" "seq op = 0" "points_fit op" "ok (validateDrawOperation op False)"
    using assms(2) by (simp_all add: valid_operation_def validate_ok_iff)
  show ?thesis
  proof (cases "known_id op (snapshot (surface a))")
    case True
    with op cl contains_known [OF inv, of op] assms(1) show ?thesis
      by (auto simp: sm_handle_draw_def receive_draw_def parse_draw_image Let_def hosts_def app_sent_def)
  next
    case False
    from canvas_apply_host [OF inv num op(2) False assms(3)] obtain c where
      c: "canvas_apply op (surface a) = Some (next_sequence (surface a), c)" "canvas_inv c"
        "snapshot c = snapshot (surface a) @ [op\<lparr>seq := next_sequence (surface a)\<rparr>]"
        "numbered (snapshot c) (next_sequence c)" "next_sequence c = next_sequence (surface a) + 1" by blast
    let ?op = "op\<lparr>seq := next_sequence (surface a)\<rparr>"
    have fit: "points_fit ?op" using op(3) by (simp add: points_fit_def)
    define a' where "a' = (with_client (after_send (frame OP_DRAW (draw_image ?op)) cl)
      (map_mgr (\<lambda>m. m\<lparr>pending_operations := pending_operations m - {operation_id op}\<rparr>) a))\<lparr>surface := c,
        files := enqueue_if_auto_save ?op (files a), dirty := True\<rparr>"
    have "sm_handle_draw (draw_image op) a = Some a'"
      using op cl contains_known [OF inv, of op] False c(1) fit
      by (simp add: sm_handle_draw_def receive_draw_def parse_draw_image Let_def apply_and_save_def server_simps a'_def)
    moreover have "hosts a'"
      using c assms(1) cl fit distinct_ids_snoc [OF _ False] by (auto simp: hosts_def a'_def)
    ultimately show ?thesis using False c cl by (simp add: app_sent_def a'_def)
  qed
qed

lemma hosts_draws:
  assumes "hosts a" and "list_all (valid_operation False) ops"
    and "length (snapshot (surface a)) + length ops + 2 < 2 ^ 32"
  defines "new \<equiv> stamped (snapshot (surface a)) (next_sequence (surface a)) ops"
  shows "\<exists>a'. poll_session (map (success \<circ> draw_message) ops) a = Some a' \<and> hosts a' \<and>
    snapshot (surface a') = snapshot (surface a) @ new \<and>
    app_sent a' = app_sent a @ map (frame OP_DRAW \<circ> draw_image) new"
  using assms(1-3) unfolding new_def
proof (induction ops arbitrary: a)
  case Nil
  then show ?case by simp
next
  case (Cons op ops)
  let ?n = "next_sequence (surface a)"
  obtain cl where cl: "client (mgr a) = Some cl" "\<not> stop_poll (net a)"
    using Cons.prems(1) by (auto simp: hosts_def)
  from hosts_draw [OF Cons.prems(1), of op] Cons.prems(2,3) obtain a1 where
    a1: "sm_handle_draw (draw_image op) a = Some a1" "hosts a1"
    and cases: "if known_id op (snapshot (surface a))
     then snapshot (surface a1) = snapshot (surface a) \<and> next_sequence (surface a1) = ?n \<and> app_sent a1 = app_sent a
     else snapshot (surface a1) = snapshot (surface a) @ [op\<lparr>seq := ?n\<rparr>] \<and> next_sequence (surface a1) = ?n + 1 \<and>
       app_sent a1 = app_sent a @ [frame OP_DRAW (draw_image (op\<lparr>seq := ?n\<rparr>))]"
    by auto
  have turn: "poll_turn (success (draw_message op)) a = Some (a1, True)"
    using cl a1(1) by (simp add: poll_turn_def poll_received_def sm_dispatch_def)
  have "length (snapshot (surface a1)) + length ops + 2 < 2 ^ 32"
    using cases Cons.prems(3) by (auto split: if_splits)
  from Cons.IH [OF a1(2) _ this] Cons.prems(2) turn cases show ?case
    by (cases "known_id op (snapshot (surface a))") auto
qed

section \<open>Strokes of one's own\<close>

lemma next_operation_id_owner:
  "ucast (drop_bit 32 (fst (next_operation_id a))) = member_id_or 1 a"
proof -
  have "ucast (drop_bit 32 (push_bit 32 (ucast (i :: u32)) OR ucast (n :: u32) :: u64)) = i" for i n
    by (rule bit_word_eqI) (auto simp: bit_simps dest: bit_imp_le_length)
  then show ?thesis by (simp add: next_operation_id_def Let_def)
qed

section \<open>No message makes a client fail\<close>

definition queue_fits :: "file_manager \<Rightarrow> bool" where
  "queue_fits fm \<longleftrightarrow> (case operation_log fm of None \<Rightarrow> True | Some w \<Rightarrow> list_all points_fit (queue w))"

definition app_inv :: "app \<Rightarrow> bool" where
  "app_inv a \<longleftrightarrow> canvas_inv (surface a) \<and> list_all points_fit (snapshot (surface a)) \<and> queue_fits (files a)"

lemma update_header_total: "\<exists>buf. update_header_seq v data = Some buf"
  by (simp add: update_header_seq_def seq_field_eq)

lemma writer_drain_total:
  assumes "list_all points_fit (queue w)"
  shows "\<exists>w' d'. writer_drain w d = Some (w', d') \<and> file_path w' = file_path w"
proof (cases "contents d (file_path w)")
  case (Some data)
  obtain buf where "update_header_seq (raise_seq (to_write (start_after_seq w) (queue w)) (saved_seq w))
      (data @ records_image (to_write (start_after_seq w) (queue w))) = Some buf"
    using update_header_total by blast
  with Some drain_queue_eq [OF assms] show ?thesis
    by (auto simp: writer_drain_def split: if_split_asm)
qed (simp add: writer_drain_def)

lemma writer_stop_total:
  assumes "list_all points_fit (queue w)"
  shows "\<exists>d'. writer_stop w d = Some d'"
proof -
  obtain w' d' where "writer_drain w d = Some (w', d')" using writer_drain_total [OF assms] by blast
  moreover obtain buf where "\<And>data. contents d' (file_path w') = Some data \<Longrightarrow>
      update_header_seq (saved_seq w') data = Some buf"
    using update_header_total by (cases "contents d' (file_path w')") auto
  ultimately show ?thesis by (auto simp: writer_stop_def split: option.splits)
qed

lemma close_auto_save_total:
  assumes "queue_fits fm"
  shows "\<exists>d'. close_auto_save fm d = Some (fm\<lparr>operation_log := None\<rparr>, d')"
proof (cases "operation_log fm")
  case None
  then have "fm\<lparr>operation_log := None\<rparr> = fm" by (cases fm) simp
  with None show ?thesis by (simp add: close_auto_save_def)
next
  case (Some w)
  with assms writer_stop_total [of w d] show ?thesis by (auto simp: close_auto_save_def queue_fits_def)
qed

lemma start_auto_save_total: "\<exists>fm' d'. start_auto_save p fm d = Some (fm', d') \<and> queue_fits fm'"
  by (simp add: start_auto_save_def writer_start_def write_header_eq queue_fits_def Let_def)

lemma save_to_file_total:
  assumes "queue_fits fm" and "list_all points_fit (snapshot c)"
  shows "\<exists>t fm' d'. save_to_file p c fm d = Some (t, fm', d') \<and> queue_fits fm'"
proof -
  let ?path = "if path_extension p \<noteq> ''.sketchsync'' then p @ ''.sketchsync'' else p"
  obtain fm1 d1 where close: "(if auto_save_on fm then close_auto_save fm d else Some (fm, d)) = Some (fm1, d1)"
    and fits1: "queue_fits fm1"
    using close_auto_save_total [OF assms(1), of d] assms(1)
    by (cases "auto_save_on fm") (auto simp: queue_fits_def)
  have start: "\<exists>fm' d'. (if auto_save_on fm then start_auto_save q fm2 d2 else Some (fm2, d2)) = Some (fm', d') \<and>
      queue_fits fm'" if "queue_fits fm2" for q fm2 d2
    using start_auto_save_total [of q fm2 d2] that by auto
  define fm2 where "fm2 = fm1\<lparr>file_saved_seq := max_sequence (snapshot c), current_file := ?path\<rparr>"
  have "queue_fits fm2" using fits1 by (simp add: queue_fits_def fm2_def)
  show ?thesis
  proof (cases "writable d1 ?path")
    case False
    with start [OF fits1, of ?path d1] close show ?thesis
      by (auto simp: save_to_file_def Let_def)
  next
    case True
    with start [OF \<open>queue_fits fm2\<close>, of ?path
        "write_file ?path (file_image (max_sequence (snapshot c)) (snapshot c)) d1"]
      close save_content_eq [OF assms(2)] show ?thesis
      unfolding fm2_def by (auto simp: save_to_file_def Let_def)
  qed
qed

lemma save_if_auto_save_total:
  assumes "queue_fits (files a)" and "list_all points_fit (snapshot (surface a))"
  shows "\<exists>a'. save_if_auto_save a = Some a' \<and> queue_fits (files a') \<and> surface a' = surface a"
  using save_to_file_total [OF assms, of "current_file (files a)" "store a"] assms(1)
  by (auto simp: save_if_auto_save_def Let_def split: option.splits)


lemma parse_operations_fit:
  "parse_operations n data off acc = Some r \<Longrightarrow> ok r \<Longrightarrow> list_all points_fit acc \<Longrightarrow>
    list_all points_fit (cs_operations (val r))"
proof (induction n arbitrary: off acc)
  case 0
  then show ?case by (auto simp: success_def)
next
  case (Suc n)
  from Suc.prems(1,2) obtain off' body op_res where
    body: "parseDrawOperation body = Some op_res" "ok op_res"
    and rest: "parse_operations n data off' (acc @ [val op_res]) = Some r"
    by (auto simp: Let_def ok_def failure_def split: if_split_asm elim!: bind_eq_SomeE)
  have "points_fit (val op_res)" by (rule parsed_points_fit [OF body])
  with Suc.IH [OF rest Suc.prems(2)] Suc.prems(3) show ?case by simp
qed

lemma parse_state_fit:
  "parseCanvasStateMessage p = Some r \<Longrightarrow> ok r \<Longrightarrow> list_all points_fit (cs_operations (val r))"
  by (auto simp: parseCanvasStateMessage_def Let_def split: if_split_asm elim!: bind_eq_SomeE
      dest: parse_operations_fit)

lemma queue_fits_enqueue:
  "queue_fits fm \<Longrightarrow> points_fit op \<Longrightarrow> queue_fits (enqueue_if_auto_save op fm)"
  by (auto simp: queue_fits_def enqueue_if_auto_save_def writer_enqueue_def split: option.split)

lemma canvas_apply_fits:
  assumes "canvas_inv c" and "list_all points_fit (snapshot c)" and "points_fit op"
  shows "\<exists>sq c'. canvas_apply op c = Some (sq, c') \<and> canvas_inv c' \<and> list_all points_fit (snapshot c') \<and>
    points_fit (op\<lparr>seq := sq\<rparr>)"
proof (cases "known_id op (operations c)")
  case True
  from canvas_log.append_known [OF assms(1) True] assms show ?thesis by (auto simp: points_fit_def)
next
  case False
  from canvas_log.append_new [OF assms(1) False refl] assms show ?thesis
    by (auto simp: points_fit_def snapshot_def)
qed

lemma apply_and_save_inv:
  assumes "app_inv a" and "points_fit op"
  shows "\<exists>op' a'. apply_and_save op a = Some (op', a') \<and> app_inv a' \<and> points_fit op' \<and> mgr a' = mgr a"
  using canvas_apply_fits [of "surface a" op] assms queue_fits_enqueue [of "files a"]
  by (auto simp: apply_and_save_def app_inv_def Let_def)

lemma app_inv_mgr [simp]: "app_inv (a\<lparr>mgr := m\<rparr>) = app_inv a" "app_inv (a\<lparr>status := t\<rparr>) = app_inv a"
  "app_inv (a\<lparr>dirty := b\<rparr>) = app_inv a" "app_inv (a\<lparr>net := n\<rparr>) = app_inv a"
  "app_inv (reset_session a) = app_inv a"
  by (simp_all add: app_inv_def reset_session_def)

lemma cleared_simps [simp]:
  "snapshot (clear_history c) = []" "next_sequence (clear_history c) = 1"
  by (simp_all add: clear_history_def snapshot_def next_sequence_def)

lemma receive_draw_survives:
  assumes "app_inv a" and "points_fit op"
  shows "\<exists>a'. receive_draw op cl a = Some a' \<and> app_inv a'"
proof -
  from apply_and_save_inv [OF assms] obtain op' a2 where
    "apply_and_save op a = Some (op', a2)" "app_inv a2" "points_fit op'" by blast
  with assms show ?thesis by (auto simp: receive_draw_def server_simps Let_def)
qed

lemma handle_draw_survives:
  assumes "app_inv a"
  shows "\<exists>a'. sm_handle_draw p a = Some a' \<and> app_inv a'"
proof -
  obtain r where r: "parseDrawOperation p = Some r" using parseDrawOperation_total by blast
  show ?thesis
  proof (cases "ok r")
    case False
    with r assms show ?thesis by (simp add: sm_handle_draw_def)
  next
    case True
    have "points_fit (val r)" by (rule parsed_points_fit [OF r True])
    with assms have "\<exists>a'. receive_draw (val r) cl (a\<lparr>mgr := m\<rparr>) = Some a' \<and> app_inv a'" for cl m
      by (intro receive_draw_survives) simp_all
    with r True assms show ?thesis
      by (cases "client (mgr a)") (simp_all add: sm_handle_draw_def Let_def)
  qed
qed

lemma canvas_state_survives:
  assumes "app_inv a"
  shows "\<exists>a'. sm_handle_canvas_state p a = Some a' \<and> app_inv a'"
proof -
  obtain r where r: "parseCanvasStateMessage p = Some r" using parseCanvasState_total by blast
  show ?thesis
  proof (cases "ok r")
    case False
    with r assms show ?thesis by (simp add: sm_handle_canvas_state_def)
  next
    case True
    from assms have "canvas_inv (surface a)" by (simp add: app_inv_def)
    from canvas_log.load_all [OF this, of "cs_operations (val r)"] obtain c where
      "canvas_load (cs_operations (val r)) (surface a) = Some c" "canvas_inv c"
      "operations c = cs_operations (val r)" by blast
    with r True assms parse_state_fit [OF r True] show ?thesis
      by (auto simp: sm_handle_canvas_state_def app_inv_def snapshot_def queue_fits_def
          mark_synced_for_save_def)
  qed
qed

lemma handle_clear_survives:
  assumes "app_inv a"
  shows "\<exists>a'. sm_handle_clear a = Some a' \<and> app_inv a'"
proof -
  have "canvas_inv (clear_history (surface a))" "snapshot (clear_history (surface a)) = []"
    using assms by (simp_all add: app_inv_def canvas_inv_clear)
  with save_if_auto_save_total [of "a\<lparr>surface := clear_history (surface a)\<rparr>"] assms show ?thesis
    by (auto simp: sm_handle_clear_def app_inv_def Let_def)
qed

lemma small_handlers_survive:
  assumes "app_inv a"
  shows "\<exists>a'. sm_handle_notification p a = Some a' \<and> app_inv a'"
    and "\<exists>a'. sm_handle_error p a = Some a' \<and> app_inv a'"
    and "\<exists>a'. sm_handle_ack m a = Some a' \<and> app_inv a'"
proof -
  obtain r1 r2 r3 r4 r5 where
    "parseMemberJoinedNotification p = Some r1" "parseMemberLeftNotification p = Some r2"
    "parseErrorMessage p = Some r3" "parseCreateAckMessage (payload m) = Some r4"
    "parseJoinAckMessage (payload m) = Some r5"
    using parse_total(5,8,9) [of p] parse_total(6,7) [of "payload m"] by blast
  note parsed = this
  show "\<exists>a'. sm_handle_notification p a = Some a' \<and> app_inv a'"
    using assms parsed by (simp add: sm_handle_notification_def Let_def)
  show "\<exists>a'. sm_handle_error p a = Some a' \<and> app_inv a'"
    using assms parsed by (simp add: sm_handle_error_def clear_joining_state_def)
  show "\<exists>a'. sm_handle_ack m a = Some a' \<and> app_inv a'"
    using assms parsed
    by (cases "joining_state (mgr a)"; cases "client (mgr a)")
      (auto simp: sm_handle_ack_def leave_acknowledged_def server_simps Let_def)
qed

lemma poll_turn_survives:
  assumes "app_inv a"
  shows "\<exists>a' go. poll_turn r a = Some (a', go) \<and> app_inv a'"
proof (cases "stop_poll (net a) \<or> client (mgr a) = None \<or> \<not> ok r")
  case True
  with assms show ?thesis
    by (auto simp: poll_turn_def poll_received_def set_disconnected_def split: option.split)
next
  case False
  then obtain cl where cl: "client (mgr a) = Some cl" "\<not> stop_poll (net a)" "ok r" by auto
  have "serializeCanvasStateMessage \<lparr>cs_operations = snapshot (surface a)\<rparr> =
      Some (canvas_state_image (snapshot (surface a)))"
    using assms serializeCanvasState_image [of "\<lparr>cs_operations = snapshot (surface a)\<rparr>"]
    by (simp add: app_inv_def)
  then have state: "\<exists>x cl'. send_canvas_state (snapshot (surface a)) cl = Some (x, cl')"
    by (simp add: send_canvas_state_def send_frame_eq)
  have "\<exists>a'. sm_dispatch cl (val r) a = Some a' \<and> app_inv a'"
    using assms state small_handlers_survive [OF assms] handle_draw_survives [OF assms]
      canvas_state_survives [OF assms] handle_clear_survives [OF assms]
    by (auto simp: sm_dispatch_def Let_def)
  with cl show ?thesis by (auto simp: poll_turn_def poll_received_def)
qed

lemma poll_session_survives:
  "app_inv a \<Longrightarrow> \<exists>a'. poll_session rs a = Some a' \<and> app_inv a'"
proof (induction rs arbitrary: a)
  case (Cons r rs)
  obtain a1 go where "poll_turn r a = Some (a1, go)" "app_inv a1"
    using poll_turn_survives [OF Cons.prems] by blast
  with Cons.IH [of a1] show ?case by (cases go) simp_all
qed simp

text \<open>A receive answers on every stream.\<close>

lemma receive_tcp_total: "\<exists>r. receive_msg_tcp fault stream = Some r"
proof (cases "stream_receive 6 stream")
  case None
  then show ?thesis by (simp add: receive_msg_tcp_def)
next
  case (Some x)
  obtain hdr_bytes rest where x: "x = (hdr_bytes, rest)" by (cases x)
  obtain r where "parseHeader hdr_bytes = Some r" using parse_total(1) by blast
  with Some x show ?thesis by (auto simp: receive_msg_tcp_def Let_def split: option.split)
qed

end
