(* ===== verification/Session_Properties.thy ===== *)
theory Session_Properties
  imports Session_Lemmas Server_Properties Canvas_Properties
begin

text \<open>
  What a shared drawing promises: a member's canvas is always a prefix of the host's history, a
  member that gets what it misses has the host's picture, the host numbers and returns every new
  stroke, and a stroke travels from a member over server and host to every member. And where the
  protocol fails: a clear that comes back to its sender, and strokes drawn outside a session.
\<close>

section \<open>Samples\<close>

text \<open>A program in session 1, as host or as member, with an empty canvas and nothing sent.\<close>

definition quiet_disk :: disk where
  "quiet_disk = \<lparr>contents = (\<lambda>_. None), writable = (\<lambda>_. True), absolute = (\<lambda>_. None)\<rparr>"

definition sample_app :: "u32 \<Rightarrow> bool \<Rightarrow> app" where
  "sample_app mid hosting = (new_app quiet_disk)
     \<lparr>surface := canvas_create 0 0 0xFFFFFFFF empty_canvas,
      mgr := new_session_manager\<lparr>client := Some (set_session_info mid 1 hosting new_client),
        sm_session_id := 1, sm_member_id := mid, sm_is_host := hosting, sm_in_session := True,
        joining_state := joining_in_session\<rparr>\<rparr>"

definition sample_log :: "draw_operation list" where
  "sample_log = [sample_stroke\<lparr>seq := 1, operation_id := 5\<rparr>, sample_stroke\<lparr>seq := 2, operation_id := 6\<rparr>]"

lemma sample_app_simps [simp]:
  "client (mgr (sample_app mid b)) = Some (set_session_info mid 1 b new_client)"
  "stop_poll (net (sample_app mid b)) = False" "joining_state (mgr (sample_app mid b)) = joining_in_session"
  "sm_in_session (mgr (sample_app mid b)) = True"
  "surface (sample_app mid b) = canvas_create 0 0 0xFFFFFFFF empty_canvas"
  by (simp_all add: sample_app_def new_app_def new_session_manager_def new_network_manager_def)

lemma empty_log_simps [simp]:
  "snapshot (canvas_create w h bg c) = []" "next_sequence (canvas_create w h bg c) = 1"
  "numbered [] 1" "distinct_ids []"
  by (simp_all add: canvas_create_def snapshot_def next_sequence_def numbered_def distinct_ids_def)

lemma sample_follows: "follows ops 0 (sample_app 2 False)"
  by (simp add: follows_def canvas_inv_create set_session_info_def new_client_def)

lemma sample_hosts: "hosts (sample_app 1 True)"
  by (simp add: hosts_def canvas_inv_create set_session_info_def new_client_def)

lemma sample_log_good: "good_log sample_log"
proof -
  have "numbered sample_log 3"
    by (simp add: numbered_def sample_log_def less_Suc_eq)
  then show ?thesis
    by (auto simp: good_log_def distinct_ids_def sample_log_def points_fit_def sample_stroke_def)
qed

section \<open>Members\<close>

text \<open>C10: whatever a session sends a member, in any order, twice or not at all - strokes of the
  host's history, states of the past, notifications, errors, acknowledgements - the member's
  polling thread keeps going and its canvas stays a prefix of the host's history, numbered, with
  exactly the pixels of that prefix.\<close>

theorem member_stays_behind_host:
  assumes "follows ops k a" and "good_log ops" and "list_all (from_host ops) ms"
  shows "\<exists>a' k'. poll_session (map success ms) a = Some a' \<and> k' \<le> length ops \<and>
    snapshot (surface a') = take k' ops \<and> canvas_inv (surface a') \<and> client (mgr a') \<noteq> None"
  using follows_messages [OF assms] by (auto simp: follows_def)

lemma member_stays_behind_host_witness:
  "\<exists>a' k'. poll_session (map success [draw_message (sample_log ! 1), draw_message (sample_log ! 0),
      state_message (take 2 sample_log), draw_message (sample_log ! 1)]) (sample_app 2 False) = Some a' \<and>
    k' \<le> length sample_log \<and> snapshot (surface a') = take k' sample_log \<and> canvas_inv (surface a') \<and>
    client (mgr a') \<noteq> None"
proof (rule member_stays_behind_host [OF sample_follows sample_log_good])
  have "2 \<le> length sample_log" by (simp add: sample_log_def)
  then show "list_all (from_host sample_log) [draw_message (sample_log ! 1), draw_message (sample_log ! 0),
      state_message (take 2 sample_log), draw_message (sample_log ! 1)]"
    using from_host_state [of 2 sample_log] from_host_draw [of _ sample_log]
    by (simp add: sample_log_def)
qed

text \<open>A member that receives the strokes it misses, in order, or one state of the whole
  history, ends with the host's history; and when the canvases have the same size and background,
  with the host's picture.\<close>

theorem member_catches_up:
  assumes "follows (snapshot c) k a" and "good_log (snapshot c)" and "canvas_inv c"
    and "width (surface a) = width c" "height (surface a) = height c" "background (surface a) = background c"
    and "ms = map draw_message (drop k (snapshot c)) \<or> ms = [state_message (snapshot c)]"
  shows "\<exists>a'. poll_session (map success ms) a = Some a' \<and> snapshot (surface a') = snapshot c \<and>
    copy_pixels (surface a') = copy_pixels c"
proof -
  let ?ops = "snapshot c"
  have "\<exists>a'. poll_session (map success ms) a = Some a' \<and> follows ?ops (length ?ops) a'"
    using assms(7) follows_in_order [OF assms(1,2)]
      follows_full_state [OF assms(1,2)]
    by (auto simp: o_def)
  then obtain a' where a': "poll_session (map success ms) a = Some a'" "follows ?ops (length ?ops) a'"
    by blast
  have frame: "width (surface a') = width (surface a) \<and> height (surface a') = height (surface a) \<and>
      background (surface a') = background (surface a)"
    using poll_session_frame [OF a'(1)] by (simp add: same_frame_def)
  with a' assms(3-6) have "pixels (surface a') = pixels c"
    by (intro pixels_determined) (simp_all add: follows_def snapshot_def)
  with a' show ?thesis by (auto simp: follows_def copy_pixels_def)
qed

lemma member_catches_up_witness:
  "\<exists>c a'. snapshot c = sample_log \<and>
    poll_session (map success (map draw_message (drop 0 sample_log))) (sample_app 2 False) = Some a' \<and>
    snapshot (surface a') = snapshot c \<and> copy_pixels (surface a') = copy_pixels c"
proof -
  let ?s = "canvas_create 0 0 0xFFFFFFFF empty_canvas"
  have "canvas_inv ?s" by (rule canvas_inv_create) simp_all
  from canvas_log.load_all [OF this, of sample_log] obtain c where
    c: "canvas_load sample_log ?s = Some c" "canvas_inv c" "operations c = sample_log" by blast
  have "same_frame c ?s" by (rule canvas_load_frame [OF c(1)])
  then have frame: "width c = width ?s" "height c = height ?s" "background c = background ?s"
    by (simp_all add: same_frame_def)
  have snap: "snapshot c = sample_log" using c(3) by (simp add: snapshot_def)
  have "\<exists>a'. poll_session (map success (map draw_message (drop 0 (snapshot c)))) (sample_app 2 False) = Some a' \<and>
      snapshot (surface a') = snapshot c \<and> copy_pixels (surface a') = copy_pixels c"
  proof (rule member_catches_up [where k = 0])
    show "follows (snapshot c) 0 (sample_app 2 False)" by (rule sample_follows)
    show "good_log (snapshot c)" using sample_log_good snap by simp
  qed (use c(2) frame in simp_all)
  then show ?thesis using snap by (intro exI [of _ c]) simp
qed

section \<open>The host\<close>

text \<open>C14: a host that receives strokes of its members, valid and without a number, applies exactly
  the new ones, in the order of their arrival, numbers them without a gap and returns each, with
  its number, to the server; a stroke that arrives twice is applied and returned once.\<close>

theorem host_numbers_and_relays:
  assumes "hosts a" and "list_all (valid_operation False) ops"
    and "length (snapshot (surface a)) + length ops + 2 < 2 ^ 32"
  shows "\<exists>a' new. poll_session (map success (map draw_message ops)) a = Some a' \<and>
    new = stamped (snapshot (surface a)) (next_sequence (surface a)) ops \<and>
    snapshot (surface a') = snapshot (surface a) @ new \<and>
    app_sent a' = app_sent a @ map (\<lambda>op. frame OP_DRAW (draw_image op)) new \<and>
    numbered (snapshot (surface a')) (next_sequence (surface a')) \<and> distinct_ids (snapshot (surface a'))"
  using hosts_draws [OF assms] by (auto simp: hosts_def o_def)

definition sample_request :: "u64 \<Rightarrow> draw_operation" where
  "sample_request i = sample_stroke\<lparr>operation_id := i, member_id := 2, seq := 0\<rparr>"

lemma sample_request_valid: "i \<noteq> 0 \<Longrightarrow> valid_operation False (sample_request i)"
  by (simp add: sample_request_def valid_operation_def points_match_tool_def points_fit_def
      sample_stroke_def)

lemma host_numbers_and_relays_witness:
  "\<exists>a' new. poll_session (map success (map draw_message [sample_request 7, sample_request 8, sample_request 7]))
      (sample_app 1 True) = Some a' \<and>
    new = stamped [] 1 [sample_request 7, sample_request 8, sample_request 7] \<and>
    snapshot (surface a') = [] @ new \<and>
    app_sent a' = app_sent (sample_app 1 True) @ map (\<lambda>op. frame OP_DRAW (draw_image op)) new \<and>
    numbered (snapshot (surface a')) (next_sequence (surface a')) \<and> distinct_ids (snapshot (surface a'))"
  using host_numbers_and_relays [OF sample_hosts, of "[sample_request 7, sample_request 8, sample_request 7]"]
  by (simp add: sample_request_valid)

section \<open>From a member to every member\<close>

text \<open>C4: the whole way of a stroke. A member sends it to the server, which hands it to the host
  under the member's own id; the host applies it with the next number and returns it; the server
  hands that to every other registered member; and a member that had the host's history has it
  again, with the host's picture.\<close>

theorem stroke_reaches_everyone:
  assumes "in_session s gctx sess" and "\<not> is_host sess (ctx_member_id gctx)"
    and "in_session s hctx sess" and "is_host sess (ctx_member_id hctx)"
    and "find_connection s (host_id sess) = Some hc"
    and "hosts h" and "length (snapshot (surface h)) + 2 < 2 ^ 32"
    and "points_fit op" and "valid_operation False (op\<lparr>member_id := ctx_member_id gctx, seq := 0\<rparr>)"
    and "\<not> known_id op (snapshot (surface h))"
    and "follows (snapshot (surface h)) (length (snapshot (surface h))) g"
    and "width (surface g) = width (surface h)" "height (surface g) = height (surface h)"
    and "background (surface g) = background (surface h)"
  defines "op1 \<equiv> op\<lparr>member_id := ctx_member_id gctx, seq := 0\<rparr>"
  defines "op2 \<equiv> op1\<lparr>seq := next_sequence (surface h)\<rparr>"
  shows "\<exists>h' g'.
    dispatch (request OP_DRAW (draw_image op)) (draw_image op) c s gctx =
      Some (sends [(hc, frame OP_DRAW (draw_image op1))] s, gctx) \<and>
    poll_session [success (draw_message op1)] h = Some h' \<and>
    app_sent h' = app_sent h @ [frame OP_DRAW (draw_image op2)] \<and>
    dispatch (request OP_DRAW (draw_image op2)) (draw_image op2) hc s hctx =
      Some (sends (broadcast (connections s) (filter (\<lambda>i. i \<noteq> ctx_member_id hctx) (member_ids sess))
        (frame OP_DRAW (draw_image op2))) s, hctx) \<and>
    poll_session [success (draw_message op2)] g = Some g' \<and>
    snapshot (surface h') = snapshot (surface h) @ [op2] \<and> snapshot (surface g') = snapshot (surface h') \<and>
    copy_pixels (surface g') = copy_pixels (surface h')"
proof -
  let ?log = "snapshot (surface h)"
  have valid1: "valid_operation False op1" using assms(9) by (simp add: op1_def)
  have fresh: "\<not> known_id op1 ?log" using assms(10) by (simp add: op1_def known_id_def)
  have "unat (next_sequence (surface h)) = Suc (length ?log)"
    using assms(6) by (simp add: hosts_def numbered_def)
  then have valid2: "valid_operation True op2"
    using valid1 by (auto simp: op2_def valid_operation_def points_fit_def points_match_tool_def)
  have len: "length ?log + length [op1] + 2 < 2 ^ 32 \<or> length ?log + 2 < 2 ^ 32" using assms(7) by simp
  obtain cl where cl: "client (mgr h) = Some cl" "\<not> stop_poll (net h)"
    using assms(6) by (auto simp: hosts_def)
  from hosts_draw [OF assms(6) valid1 assms(7)] fresh obtain h' where
    h': "sm_handle_draw (draw_image op1) h = Some h'" "hosts h'" "snapshot (surface h') = ?log @ [op2]"
      "app_sent h' = app_sent h @ [frame OP_DRAW (draw_image op2)]"
    by (auto simp: op2_def)
  have poll_h: "poll_session [success (draw_message op1)] h = Some h'"
    using cl h'(1) by (simp add: poll_turn_def poll_received_def sm_dispatch_def)
  have good: "good_log (?log @ [op2])" using h'(2,3) by (auto simp: good_log_def hosts_def)
  have "follows (?log @ [op2]) (length ?log) g" using assms(11) by (simp add: follows_def)
  from follows_in_order [OF this good] obtain g' where
    g': "poll_session [success (draw_message op2)] g = Some g'" "follows (?log @ [op2]) (length ?log + 1) g'"
    by (auto simp: o_def)
  have "same_frame (surface g') (surface g)" "same_frame (surface h') (surface h)"
    using poll_session_frame [OF g'(1)] poll_session_frame [OF poll_h] by simp_all
  then have "pixels (surface g') = pixels (surface h')"
    using g'(2) h'(2,3) assms(12-14)
    by (intro pixels_determined) (simp_all add: follows_def hosts_def snapshot_def same_frame_def)
  moreover have "dispatch (request OP_DRAW (draw_image op)) (draw_image op) c s gctx =
      Some (sends [(hc, frame OP_DRAW (draw_image op1))] s, gctx)"
    unfolding op1_def
    by (rule dispatch_member_draw [OF assms(1,2) parse_draw_image [OF assms(8)] assms(9,5)])
  moreover have "points_fit op2" using valid2 by (simp add: valid_operation_def)
  then have "dispatch (request OP_DRAW (draw_image op2)) (draw_image op2) hc s hctx =
      Some (sends (broadcast (connections s) (filter (\<lambda>i. i \<noteq> ctx_member_id hctx) (member_ids sess))
        (frame OP_DRAW (draw_image op2))) s, hctx)"
    using dispatch_host_draw [OF assms(3,4) parse_draw_image valid2] by blast
  ultimately show ?thesis
    using poll_h h'(3,4) g' by (auto simp: follows_def copy_pixels_def)
qed

lemma stroke_reaches_everyone_witness:
  "\<exists>h' g'. poll_session [success (draw_message (sample_request 7))] (sample_app 1 True) = Some h' \<and>
    poll_session [success (draw_message (sample_request 7\<lparr>seq := 1\<rparr>))] (sample_app 2 False) = Some g' \<and>
    snapshot (surface g') = snapshot (surface h') \<and> copy_pixels (surface g') = copy_pixels (surface h')"
proof -
  have "sample_request 7 = (sample_stroke\<lparr>operation_id := 7\<rparr>)\<lparr>member_id := ctx_member_id guest_ctx, seq := 0\<rparr>"
    by (simp add: sample_request_def)
  moreover have "points_fit (sample_stroke\<lparr>operation_id := 7\<rparr>)"
    by (simp add: points_fit_def sample_stroke_def)
  moreover have "follows [] 0 (sample_app 2 False)" by (rule sample_follows)
  ultimately show ?thesis
    using stroke_reaches_everyone [of sample_server guest_ctx sample_session host_ctx 0 "sample_app 1 True"
        "sample_stroke\<lparr>operation_id := 7\<rparr>" "sample_app 2 False" 1]
      sample_request_valid [of 7] sample_hosts
    by (auto simp: in_session_def find_connection_def known_id_def)
qed

section \<open>A clear that comes back\<close>

definition clear_message :: Message where
  "clear_message = \<lparr>header = \<lparr>opcode = OP_CANVAS_CLEAR, flags = 0, hdr_length = 0\<rparr>, payload = []\<rparr>"








definition mouse :: "bool \<Rightarrow> u16 \<Rightarrow> canvas_input_state" where
  "mouse held x = \<lparr>in_inside = True, in_pressed = held, in_down = held, in_released = \<not> held,
     in_position = \<lparr>pt_x = x, pt_y = 0\<rparr>, in_tool = tool_freehand\<rparr>"

section \<open>Strokes outside a session\<close>

text \<open>a client that is connected but in no session - before it joins, after it leaves, after the
  session is closed - does not own its canvas and has nobody to send to: a stroke that is finished
  there is gone, neither on the canvas nor on the wire.\<close>

theorem stroke_outside_session_lost:
  assumes "client (mgr a) = Some cl" and "\<not> cl_host cl" and "cl_session_id cl = 0"
    and "\<not> sm_in_session (mgr a)" and "active_stroke a = Some stroke" and "in_released input"
    and "extend_points (active_tool a) (in_position input) (points stroke) \<noteq> None"
  shows "\<exists>a'. app_process_canvas_input input a = Some a' \<and> active_stroke a' = None \<and>
    surface a' = surface a \<and> client (mgr a') = Some cl"
proof -
  have "\<not> host_owns_canvas (map_mgr f a)" if "client (f (mgr a)) = Some cl" for f
    using assms(2) that by (simp add: host_owns_canvas_def)
  then show ?thesis
    using assms
    by (auto simp: app_process_canvas_input_def next_operation_id_def process_canvas_input_def
        broadcast_draw_def cl_in_session_def Let_def)
qed

lemma stroke_outside_session_lost_witness:
  "\<exists>a'. app_process_canvas_input (mouse False 200)
      ((reset_session (sample_app 2 False))\<lparr>active_stroke := Some sample_stroke\<rparr>) = Some a' \<and>
    active_stroke a' = None \<and>
    surface a' = surface ((reset_session (sample_app 2 False))\<lparr>active_stroke := Some sample_stroke\<rparr>) \<and>
    client (mgr a') = Some (mark_session_closed (set_session_info 2 1 False new_client))"
proof (rule stroke_outside_session_lost)
  show "extend_points (active_tool ((reset_session (sample_app 2 False))\<lparr>active_stroke := Some sample_stroke\<rparr>))
      (in_position (mouse False 200)) (points sample_stroke) \<noteq> None"
    by (simp add: mouse_def sample_app_def new_app_def reset_session_def extend_points_def sample_stroke_def i32_def Let_def)
qed (simp_all add: reset_session_def mark_session_closed_def mouse_def)

section \<open>Any message\<close>

text \<open>C15: whatever a server sends - any opcode, any bytes, in any order, and however a receive
  fails - the polling thread handles it without undefined behaviour, whether the client hosts,
  takes part or is in no session, and with auto-save on or off; the canvas stays the picture of its
  history, and everything on it can be serialized again.\<close>

theorem client_survives_any_message:
  assumes "app_inv a"
  shows "\<exists>a'. poll_session rs a = Some a' \<and> app_inv a'"
  by (rule poll_session_survives [OF assms])

lemma client_survives_any_message_witness:
  "\<exists>a'. poll_session [success (clear_message\<lparr>payload := [1, 2, 3]\<rparr>), success no_message,
      failure no_message closed ''gone''] (sample_app 1 True) = Some a' \<and> app_inv a'"
  by (rule client_survives_any_message)
    (simp add: app_inv_def canvas_inv_create queue_fits_def sample_app_def new_app_def new_file_manager_def)

end
