(* ===== verification/Network.thy ===== *)
theory Network
  imports Session
begin

text \<open>
  \<open>engine/network/network_manager.cpp\<close> and the two calls of
  \<open>engine/session/session_manager.cpp\<close> that start a connection.

  A job of the connect thread is one step. What the world answers meanwhile is in an
  \<open>outcome\<close>: the discovery, the connection attempts, the file system and
  \<open>CreateProcessA\<close>; \<open>at_stopped\<close> tells whether somebody asked the job to stop while
  its socket was connecting. Exceptions of the sockets, timeouts and sleeps are left out.
\<close>

record attempt =
  at_stop :: bool
  at_running :: bool
  at_conn :: "bool result"
  at_stopped :: bool

record outcome =
  oc_discovery :: "(string \<times> u16) result"
  oc_attempt :: "nat \<Rightarrow> attempt"
  oc_path :: string
  oc_exists :: "string \<Rightarrow> bool"
  oc_created :: bool
  oc_last :: "Message result option"

section \<open>Building blocks\<close>

definition request_stop :: "app \<Rightarrow> app" where
  "request_stop a = map_net (\<lambda>n. n\<lparr>stop_poll := True\<rparr>) a"

text \<open>The status line of a job, unless somebody asked it to stop.\<close>

definition report :: "string \<Rightarrow> app \<Rightarrow> app" where
  "report t a = (if stop_poll (net a) then a else set_status t a)"

definition finish_connect_attempt :: "bool \<Rightarrow> app \<Rightarrow> app" where
  "finish_connect_attempt reset_session_if_failed a =
     (let a = map_net (\<lambda>n. n\<lparr>connecting := False\<rparr>) a in
      if nm_connected (net a) then a
      else
        (let a = map_net (\<lambda>n. n\<lparr>nm_state := state_disconnected\<rparr>) a in
         if reset_session_if_failed then clear_joining_state a else a))"

text \<open>Whoever still holds a client can no longer send with it.\<close>

definition close_sockets :: "app \<Rightarrow> app" where
  "close_sockets a = map_mgr (\<lambda>m. m\<lparr>client :=
     map_option (\<lambda>cl. cl\<lparr>link_error := Some (closed, ''socket not connected'')\<rparr>) (client m)\<rparr>) a"

text \<open>
  The thread that is joined comes to its end by \<open>finish\<close>. An attempt begins only when no
  other one is active, so its thread has ended already.
\<close>

definition stop_connect_thread :: "(connect_job \<Rightarrow> app \<Rightarrow> app option) \<Rightarrow> app \<Rightarrow> app option" where
  "stop_connect_thread finish a = do {
     let a = request_stop a;
     a \<leftarrow> (case connect_thread (net a) of None \<Rightarrow> Some a | Some job \<Rightarrow> finish job a);
     Some (map_net (\<lambda>n. n\<lparr>connect_thread := None\<rparr>) a) }"

text \<open>The polling thread ends after the receive it is in, if that answers \<open>last_result\<close>.\<close>

definition join_poll_thread :: "Message result option \<Rightarrow> app \<Rightarrow> app option" where
  "join_poll_thread last_result a = do {
     (a, going_on) \<leftarrow> (case last_result of
        Some r \<Rightarrow> if poll_thread (net a) then poll_received r a else Some (a, False)
      | None \<Rightarrow> Some (a, False));
     Some (map_net (\<lambda>n. n\<lparr>poll_thread := False\<rparr>) a) }"

definition start_poll :: "app \<Rightarrow> app" where
  "start_poll a = map_net (\<lambda>n. n\<lparr>poll_thread := True\<rparr>) a"

definition set_endpoint :: "string \<Rightarrow> string \<Rightarrow> connection_protocol \<Rightarrow> app \<Rightarrow> app" where
  "set_endpoint h p proto a = map_net (\<lambda>n. n\<lparr>nm_host := h, nm_port := p, nm_protocol := proto\<rparr>) a"

definition toggle_protocol :: "app \<Rightarrow> bool \<times> app" where
  "toggle_protocol a =
     (let n = net a in
      if nm_connected n \<or> connecting n then (False, a)
      else if nm_protocol n = protocol_tcp then
        (True, map_net (\<lambda>n. n\<lparr>nm_protocol := protocol_websocket,
           nm_port := if nm_port n = DEFAULT_TCP_PORT_STR then DEFAULT_WS_PORT_STR else nm_port n\<rparr>) a)
      else
        (True, map_net (\<lambda>n. n\<lparr>nm_protocol := protocol_tcp,
           nm_port := if nm_port n = DEFAULT_WS_PORT_STR then DEFAULT_TCP_PORT_STR else nm_port n\<rparr>) a))"

section \<open>Beginning an attempt\<close>

definition begin_attempt :: "string \<Rightarrow> (app \<Rightarrow> app) \<Rightarrow> connect_job \<Rightarrow> app \<Rightarrow> app option" where
  "begin_attempt announcement prepare job a =
     (if connecting (net a) then Some a
      else do {
        a \<leftarrow> stop_connect_thread (\<lambda>_. Some) (map_net (\<lambda>n. n\<lparr>connecting := True, stop_poll := False\<rparr>) a);
        let a = map_net (\<lambda>n. n\<lparr>nm_state := state_connecting\<rparr>) (set_status announcement a);
        Some (map_net (\<lambda>n. n\<lparr>connect_thread := Some job\<rparr>) (prepare a)) })"

definition async_connect_to_server :: "app \<Rightarrow> app option" where
  "async_connect_to_server = begin_attempt ''Connecting...'' (\<lambda>a. a) Connect"

definition async_tcp_discover_and_join :: "u32 \<Rightarrow> app \<Rightarrow> app option" where
  "async_tcp_discover_and_join sid =
     begin_attempt (''Discovering host for session #'' @ to_string (unat sid) @ '' via UDP...'')
       (prepare_join sid) (Discover_And_Join sid)"

definition async_ws_connect_and_join :: "u32 \<Rightarrow> app \<Rightarrow> app option" where
  "async_ws_connect_and_join sid =
     begin_attempt ''Connecting to WebSocket server...'' (prepare_join sid) (Ws_Join sid)"

definition async_ws_connect_and_create :: "app \<Rightarrow> app option" where
  "async_ws_connect_and_create =
     begin_attempt ''Connecting to WebSocket server...'' prepare_create Ws_Create"

definition async_start_local_server :: "app \<Rightarrow> app option" where
  "async_start_local_server = begin_attempt ''Starting local server...'' (\<lambda>a. a) Start_Local_Server"

section \<open>Joining and creating\<close>

definition join_session :: "app \<Rightarrow> app option" where
  "join_session a =
     (case from_chars (session_id_input (mgr a)) of
        None \<Rightarrow> Some (set_status ''Invalid session ID'' a)
      | Some sid \<Rightarrow>
          if sid = 0 then Some (set_status ''Invalid session ID'' a)
          else if sm_in_session (mgr a) then
            Some (set_status ''Already in a session. Leave current session first.'' a)
          else if nm_connected (net a) \<and> has_client a then send_join_request sid a
          else if nm_protocol (net a) = protocol_tcp then async_tcp_discover_and_join sid a
          else async_ws_connect_and_join sid a)"

definition create_session :: "app \<Rightarrow> app option" where
  "create_session a =
     (if sm_in_session (mgr a) then
        Some (set_status ''Already in a session. Leave current session first.'' a)
      else if nm_connected (net a) \<and> has_client a then send_create_request a
      else if nm_protocol (net a) = protocol_websocket then async_ws_connect_and_create a
      else Some (set_status ''Start Local server to host locally, or Join a session'' a))"

section \<open>The jobs\<close>

text \<open>
  The sockets of an earlier connection are closed and its polling thread joined before the new
  client is attached; there is no earlier client then. When a stop came in while the socket was
  connecting, the answer of the socket is the answer of the call.
\<close>

definition connect_to_server :: "attempt \<Rightarrow> app \<Rightarrow> (bool result \<times> app) option" where
  "connect_to_server att a = do {
     let a = map_net (\<lambda>n. n\<lparr>stop_poll := False\<rparr>) a;
     if nm_connected (net a) then Some (failure False rejected ''Already connected'', a)
     else if has_client a then Some (failure False rejected ''Already connected'', a)
     else do {
       let conn_res = at_conn att;
       let a = (if at_stopped att then request_stop a else a);
       if \<not> ok conn_res \<or> stop_poll (net a) then Some (conn_res, a)
       else do {
         let a = close_sockets (request_stop a);
         a \<leftarrow> join_poll_thread None a;
         let a = map_net (\<lambda>n. n\<lparr>nm_connected := True, nm_state := state_connected\<rparr>) a;
         let a = attach_client new_client a;
         let a = start_poll (map_net (\<lambda>n. n\<lparr>stop_poll := False\<rparr>) a);
         Some (success True, set_status (''Connected to '' @ nm_host (net a)) a) } } }"

text \<open>
  The loop of \<open>start_local_server\<close>, with \<open>k\<close> attempts left of 15. By the next
  attempt somebody may have asked to stop, and the server may have ended.
\<close>

definition before_attempt :: "attempt \<Rightarrow> app \<Rightarrow> app" where
  "before_attempt att a = map_net (\<lambda>n. n\<lparr>stop_poll := stop_poll n \<or> at_stop att,
     local_server := (local_server n)\<lparr>process_alive := at_running att\<rparr>\<rparr>) a"

fun connect_attempts ::
  "nat \<Rightarrow> (nat \<Rightarrow> attempt) \<Rightarrow> bool result \<Rightarrow> app \<Rightarrow> (bool result \<times> app) option"
where
  "connect_attempts 0 atts conn a = Some (conn, a)"
| "connect_attempts (Suc k) atts conn a = do {
     let att = atts (14 - k);
     let a = before_attempt att a;
     if stop_poll (net a) \<or> \<not> is_running (local_server (net a)) then Some (conn, a)
     else do {
       (conn, a) \<leftarrow> connect_to_server att a;
       if ok conn then Some (conn, a) else connect_attempts k atts conn a } }"

definition launch_server :: "outcome \<Rightarrow> string \<Rightarrow> app \<Rightarrow> bool result \<times> app" where
  "launch_server oc server_exe a =
     (let (res, sp) = process_start (oc_exists oc) (oc_created oc) server_exe
        (server_arguments (nm_protocol (net a) = protocol_tcp) (nm_port (net a))) (local_server (net a))
      in (res, map_net (\<lambda>n. n\<lparr>stop_poll := False, local_server := sp\<rparr>) a))"

definition kill_server :: "app \<Rightarrow> app" where
  "kill_server a = map_net (\<lambda>n. n\<lparr>local_server := snd (process_stop (local_server n))\<rparr>) a"

definition start_local_server :: "outcome \<Rightarrow> app \<Rightarrow> (bool result \<times> app) option" where
  "start_local_server oc a =
     (if is_running (local_server (net a)) then Some (failure False rejected ''Already running'', a)
      else
        (let server_exe = resolve_server_executable (oc_exists oc) (oc_path oc) in
         if \<not> oc_exists oc server_exe then
           Some (failure False rejected (''server.exe not found at '' @ server_exe), a)
         else do {
           let (res, a) = launch_server oc server_exe a;
           if \<not> ok res then Some (res, a)
           else do {
             (conn, a) \<leftarrow> connect_attempts 15 (oc_attempt oc) (success False) a;
             if \<not> ok conn then Some (conn, kill_server a)
             else do { a \<leftarrow> create_session a; Some (success True, a) } } }))"

text \<open>What a job does once it is connected, and how it reports a failure.\<close>

definition connect_then ::
  "attempt \<Rightarrow> string \<Rightarrow> string \<Rightarrow> (app \<Rightarrow> app option) \<Rightarrow> app \<Rightarrow> app option"
where
  "connect_then att failure_text announcement request a = do {
     (res, a) \<leftarrow> connect_to_server att a;
     if \<not> ok res then Some (finish_connect_attempt True (report (failure_text @ message res) a))
     else do {
       a \<leftarrow> request (report announcement a);
       Some (finish_connect_attempt True a) } }"

definition joining_text :: "u32 \<Rightarrow> string" where
  "joining_text sid = ''Joining session #'' @ to_string (unat sid) @ ''...''"

definition run_connect :: "outcome \<Rightarrow> app \<Rightarrow> app option" where
  "run_connect oc a = do {
     (res, a) \<leftarrow> connect_to_server (oc_attempt oc 0) a;
     Some (finish_connect_attempt False
       (if \<not> ok res then report (''Connection failed: '' @ message res) a else a)) }"

definition run_discover_and_join :: "outcome \<Rightarrow> u32 \<Rightarrow> app \<Rightarrow> app option" where
  "run_discover_and_join oc sid a =
     (let disc = oc_discovery oc in
      if \<not> ok disc then
        Some (finish_connect_attempt True (report (''UDP Discovery failed: '' @ message disc) a))
      else
        (let (host_ip, tcp_port) = val disc; port = to_string (unat tcp_port);
             a = set_endpoint host_ip port protocol_tcp a;
             a = report (''Found host at '' @ host_ip @ '':'' @ port @ '', connecting...'') a
         in connect_then (oc_attempt oc 0) ''TCP connection failed: '' (joining_text sid)
              (send_join_request sid) a))"

definition run_ws_join :: "outcome \<Rightarrow> u32 \<Rightarrow> app \<Rightarrow> app option" where
  "run_ws_join oc sid =
     connect_then (oc_attempt oc 0) ''WebSocket connection failed: '' (joining_text sid) (send_join_request sid)"

definition run_ws_create :: "outcome \<Rightarrow> app \<Rightarrow> app option" where
  "run_ws_create oc =
     connect_then (oc_attempt oc 0) ''WebSocket connection failed: '' ''Creating session...'' send_create_request"

definition run_start_local_server :: "outcome \<Rightarrow> app \<Rightarrow> app option" where
  "run_start_local_server oc a = do {
     (res, a) \<leftarrow> start_local_server oc a;
     Some (finish_connect_attempt False
       (if \<not> ok res then report (''Server start failed: '' @ message res) a else a)) }"

definition job_body :: "outcome \<Rightarrow> connect_job \<Rightarrow> app \<Rightarrow> app option" where
  "job_body oc job a =
     (case job of
        Connect \<Rightarrow> run_connect oc a
      | Discover_And_Join sid \<Rightarrow> run_discover_and_join oc sid a
      | Ws_Join sid \<Rightarrow> run_ws_join oc sid a
      | Ws_Create \<Rightarrow> run_ws_create oc a
      | Start_Local_Server \<Rightarrow> run_start_local_server oc a)"

definition run_job :: "outcome \<Rightarrow> connect_job \<Rightarrow> app \<Rightarrow> app option" where
  "run_job oc job a = do {
     a \<leftarrow> job_body oc job a;
     Some (map_net (\<lambda>n. n\<lparr>connect_thread := None\<rparr>) a) }"

section \<open>Ending a connection\<close>

definition handle_disconnect :: "app \<Rightarrow> app" where
  "handle_disconnect a =
     (let a = close_sockets (request_stop a); a = detach_client (reset_session a) in
      map_net (\<lambda>n. n\<lparr>nm_connected := False, nm_state := state_disconnected\<rparr>) a)"

definition disconnect :: "outcome \<Rightarrow> app \<Rightarrow> app option" where
  "disconnect oc a = do {
     a \<leftarrow> stop_connect_thread (run_job oc) a;
     a \<leftarrow> send_leave_or_close a;
     let a = close_sockets (request_stop a);
     a \<leftarrow> join_poll_thread (oc_last oc) a;
     Some (handle_disconnect a) }"

definition stop_local_server :: "outcome \<Rightarrow> app \<Rightarrow> app option" where
  "stop_local_server oc a = do {
     a \<leftarrow> disconnect oc a;
     Some (set_status ''Local server stopped'' (kill_server a)) }"

text \<open>Nothing of the manager is called after \<open>shutdown\<close>, which also lets go of the session.\<close>

definition shutdown :: "outcome \<Rightarrow> app \<Rightarrow> app option" where
  "shutdown oc a =
     (if nm_shut_down (net a) then Some a
      else do {
        a \<leftarrow> stop_connect_thread (run_job oc) (map_net (\<lambda>n. n\<lparr>nm_shut_down := True\<rparr>) a);
        let a = close_sockets (request_stop a);
        a \<leftarrow> join_poll_thread (oc_last oc) a;
        let a = detach_client (reset_session a);
        let a = map_net (\<lambda>n. n\<lparr>nm_connected := False, nm_state := state_disconnected\<rparr>) a;
        Some (kill_server a) })"

end
