(* ===== verification/Program.thy ===== *)
theory Program
  imports Network
begin

text \<open>
  \<open>engine/engine.cpp\<close>: one frame of the main loop and the steps of the program.

  A frame is given by what the user did in it: the widgets whose \<open>update\<close> answered true, the
  answers of the file dialogs, the text the fields hold after their update, and the mouse on the
  canvas. Drawing the window is left out.
\<close>

record frame_input =
  open_clicked :: bool
  open_choice :: "string option"
  save_clicked :: bool
  save_as_clicked :: bool
  save_choice :: "string option"
  auto_save_clicked :: bool
  clear_clicked :: bool
  connect_clicked :: bool
  local_server_clicked :: bool
  protocol_clicked :: bool
  join_clicked :: bool
  create_clicked :: bool
  leave_clicked :: bool
  host_typed :: "string option"
  port_typed :: "string option"
  session_id_typed :: "string option"
  tool_clicked :: "tool_type option"
  thickness_clicked :: "u8 option"
  color_clicked :: "u32 option"
  minimized :: bool
  mouse_input :: canvas_input_state

definition no_input :: frame_input where
  "no_input =
     \<lparr>open_clicked = False, open_choice = None, save_clicked = False, save_as_clicked = False,
      save_choice = None, auto_save_clicked = False, clear_clicked = False, connect_clicked = False,
      local_server_clicked = False, protocol_clicked = False, join_clicked = False,
      create_clicked = False, leave_clicked = False, host_typed = None, port_typed = None,
      session_id_typed = None, tool_clicked = None, thickness_clicked = None, color_clicked = None,
      minimized = True,
      mouse_input = \<lparr>in_inside = False, in_pressed = False, in_down = False, in_released = False,
        in_position = \<lparr>pt_x = 0, pt_y = 0\<rparr>, in_tool = tool_freehand\<rparr>\<rparr>"

section \<open>The widgets of a frame\<close>

abbreviation on_click :: "bool \<Rightarrow> (app \<Rightarrow> app option) \<Rightarrow> app \<Rightarrow> app option" where
  "on_click clicked act a \<equiv> (if clicked then act a else Some a)"

text \<open>What a call of the file manager leaves: its status line, the manager and the disk.\<close>

definition file_result :: "string option \<Rightarrow> file_manager \<Rightarrow> disk \<Rightarrow> app \<Rightarrow> app" where
  "file_result shown fm d a =
     (let a = a\<lparr>files := fm, store := d\<rparr> in case shown of None \<Rightarrow> a | Some t \<Rightarrow> set_status t a)"

definition press_open :: "string option \<Rightarrow> app \<Rightarrow> app option" where
  "press_open choice a = do {
     (shown, c, fm, d) \<leftarrow> open_and_load choice (surface a) (files a) (store a);
     Some ((file_result shown fm d (a\<lparr>surface := c\<rparr>))\<lparr>active_stroke := None, dirty := True\<rparr>) }"

definition press_save_as :: "string option \<Rightarrow> app \<Rightarrow> app option" where
  "press_save_as choice a = do {
     (shown, fm, d) \<leftarrow> save_as choice (surface a) (files a) (store a);
     Some (file_result shown fm d a) }"

definition save_current :: "app \<Rightarrow> app option" where
  "save_current a = do {
     (shown, fm, d) \<leftarrow> save_to_file (current_file (files a)) (surface a) (files a) (store a);
     Some (file_result shown fm d a) }"

definition press_save :: "string option \<Rightarrow> app \<Rightarrow> app option" where
  "press_save choice a = (if is_untitled (files a) then press_save_as choice a else save_current a)"

definition press_auto_save :: "string option \<Rightarrow> app \<Rightarrow> app option" where
  "press_auto_save choice a = do {
     (shown, fm, d) \<leftarrow> toggle_auto_save choice (surface a) (files a) (store a);
     Some (file_result shown fm d a) }"

definition save_after_sync :: "app \<Rightarrow> app option" where
  "save_after_sync a =
     (let (pending, fm) = consume_synced_save (files a); a = a\<lparr>files := fm\<rparr> in
      if pending then save_current a else Some a)"

definition file_buttons :: "frame_input \<Rightarrow> app \<Rightarrow> app option" where
  "file_buttons inp a = do {
     a \<leftarrow> on_click (open_clicked inp) (press_open (open_choice inp)) a;
     a \<leftarrow> on_click (save_clicked inp) (press_save (save_choice inp)) a;
     a \<leftarrow> on_click (save_as_clicked inp) (press_save_as (save_choice inp)) a;
     a \<leftarrow> on_click (auto_save_clicked inp) (press_auto_save (save_choice inp)) a;
     a \<leftarrow> on_click (clear_clicked inp) clear_canvas a;
     save_after_sync a }"

text \<open>The connection as it was when the frame began decides what the buttons do.\<close>

definition press_connect :: "outcome \<Rightarrow> connection_protocol \<Rightarrow> bool \<Rightarrow> app \<Rightarrow> app option" where
  "press_connect oc proto is_connected a =
     (if is_connected then disconnect oc a
      else if proto = protocol_websocket then async_connect_to_server a
      else Some (set_status ''Enter Session ID and click Join to discover host, or click Start Local'' a))"

definition press_local_server :: "outcome \<Rightarrow> bool \<Rightarrow> app \<Rightarrow> app option" where
  "press_local_server oc server_is_running a =
     (if server_is_running then stop_local_server oc a else async_start_local_server a)"

definition press_protocol :: "app \<Rightarrow> app option" where
  "press_protocol a =
     (let (toggled, a) = toggle_protocol a in
      Some (if \<not> toggled then set_status ''Disconnect before switching protocol'' a else a))"

definition network_buttons ::
  "outcome \<Rightarrow> frame_input \<Rightarrow> connection_protocol \<Rightarrow> bool \<Rightarrow> bool \<Rightarrow> app \<Rightarrow> app option"
where
  "network_buttons oc inp proto is_connected server_is_running a = do {
     a \<leftarrow> on_click (connect_clicked inp) (press_connect oc proto is_connected) a;
     a \<leftarrow> on_click (local_server_clicked inp) (press_local_server oc server_is_running) a;
     on_click (protocol_clicked inp) press_protocol a }"

definition session_buttons :: "frame_input \<Rightarrow> app \<Rightarrow> app option" where
  "session_buttons inp a =
     (if \<not> sm_in_session (mgr a) then do {
        a \<leftarrow> on_click (join_clicked inp) join_session a;
        on_click (create_clicked inp) create_session a }
      else on_click (leave_clicked inp) leave_session a)"

definition typed :: "string option \<Rightarrow> string \<Rightarrow> string" where
  "typed field old = (case field of None \<Rightarrow> old | Some t \<Rightarrow> t)"

definition input_fields :: "frame_input \<Rightarrow> connection_protocol \<Rightarrow> app \<Rightarrow> app" where
  "input_fields inp proto a =
     (let a = (if proto = protocol_websocket
        then map_net (\<lambda>n. n\<lparr>nm_host := typed (host_typed inp) (nm_host n),
          nm_port := typed (port_typed inp) (nm_port n)\<rparr>) a
        else a)
      in map_mgr (\<lambda>m. m\<lparr>session_id_input := typed (session_id_typed inp) (session_id_input m)\<rparr>) a)"

definition drawing_buttons :: "frame_input \<Rightarrow> app \<Rightarrow> app" where
  "drawing_buttons inp a =
     a\<lparr>active_tool := (case tool_clicked inp of None \<Rightarrow> active_tool a | Some t \<Rightarrow> t),
       active_thickness := (case thickness_clicked inp of None \<Rightarrow> active_thickness a | Some t \<Rightarrow> t),
       active_color := (case color_clicked inp of None \<Rightarrow> active_color a | Some c \<Rightarrow> c)\<rparr>"

section \<open>A frame\<close>

text \<open>What the user does in a frame; then the canvas is drawn, and nothing of it is left to draw.\<close>

definition frame_body :: "outcome \<Rightarrow> frame_input \<Rightarrow> app \<Rightarrow> app option" where
  "frame_body oc inp a = do {
     let current_proto = nm_protocol (net a);
     let is_connected = nm_connected (net a);
     let server_is_running = is_running (local_server (net a));
     a \<leftarrow> file_buttons inp a;
     a \<leftarrow> network_buttons oc inp current_proto is_connected server_is_running a;
     a \<leftarrow> session_buttons inp a;
     let a = drawing_buttons inp (input_fields inp current_proto a);
     if minimized inp then Some a
     else app_process_canvas_input ((mouse_input inp)\<lparr>in_tool := active_tool a\<rparr>) a }"

definition run_frame :: "outcome \<Rightarrow> frame_input \<Rightarrow> app \<Rightarrow> app option" where
  "run_frame oc inp a = do {
     a \<leftarrow> frame_body oc inp a;
     Some (a\<lparr>dirty := False\<rparr>) }"

text \<open>\<open>sketch_app::shutdown\<close> without the texture.\<close>

definition shutdown_app :: "outcome \<Rightarrow> app \<Rightarrow> app option" where
  "shutdown_app oc a = do {
     a \<leftarrow> shutdown oc a;
     (fm, d) \<leftarrow> close_auto_save (files a) (store a);
     Some (a\<lparr>files := fm, store := d\<rparr>) }"

section \<open>The steps of the program\<close>

text \<open>
  A frame of the main thread, the connect thread, a turn of the polling thread and a round of the
  auto-save writer. With \<open>servers\<close> the frames may use the button of the local server.
\<close>

inductive program_step :: "bool \<Rightarrow> app \<Rightarrow> app \<Rightarrow> bool" for servers :: bool where
  frame: "servers \<or> \<not> local_server_clicked inp \<Longrightarrow> run_frame oc inp a = Some a' \<Longrightarrow>
    program_step servers a a'"
| job: "connect_thread (net a) = Some j \<Longrightarrow> run_job oc j a = Some a' \<Longrightarrow> program_step servers a a'"
| poll: "poll_thread (net a) \<Longrightarrow> poll_turn r a = Some (a', going_on) \<Longrightarrow>
    program_step servers a (if going_on then a' else map_net (\<lambda>n. n\<lparr>poll_thread := False\<rparr>) a')"
| writer: "operation_log (files a) = Some w \<Longrightarrow> writer_drain w (store a) = Some (w', d') \<Longrightarrow>
    program_step servers a (a\<lparr>files := (files a)\<lparr>operation_log := Some w'\<rparr>, store := d'\<rparr>)"

inductive_cases program_stepE: "program_step servers a a'"

inductive reachable_app :: "disk \<Rightarrow> app \<Rightarrow> bool" for d :: disk where
  start: "reachable_app d (new_app d)"
| step: "reachable_app d a \<Longrightarrow> program_step True a a' \<Longrightarrow> reachable_app d a'"

end
