(* ===== verification/Network_Lemmas.thy ===== *)
theory Network_Lemmas
  imports Program Session_Lemmas
begin

text \<open>
  What the threads of the program keep: \<open>net_inv\<close> relates the connection, the polling
  thread, the connect thread and the session. A handler of the polling thread keeps the network
  manager as it is (\<open>keeps_net\<close>).
\<close>

section \<open>The invariant\<close>

text \<open>The client and the session manager agree about the session they are in.\<close>

definition session_agrees :: "session_manager \<Rightarrow> bool" where
  "session_agrees m \<longleftrightarrow> (sm_in_session m \<longrightarrow>
     (\<exists>cl. client m = Some cl \<and> cl_session_id cl = sm_session_id m \<and>
       cl_member_id cl = sm_member_id m \<and> cl_host cl = sm_is_host m))"

definition link_inv :: "app \<Rightarrow> bool" where
  "link_inv a \<longleftrightarrow>
     (poll_thread (net a) \<longrightarrow> nm_connected (net a)) \<and>
     (nm_connected (net a) \<longrightarrow> client (mgr a) \<noteq> None) \<and>
     (sm_in_session (mgr a) \<longrightarrow> nm_connected (net a)) \<and> session_agrees (mgr a)"

definition net_inv :: "app \<Rightarrow> bool" where
  "net_inv a \<longleftrightarrow> (connecting (net a) \<longleftrightarrow> connect_thread (net a) \<noteq> None) \<and> link_inv a"

definition keeps_net :: "app \<Rightarrow> app \<Rightarrow> bool" where
  "keeps_net a a' \<longleftrightarrow> net a' = net a \<and> (client (mgr a') = None \<longleftrightarrow> client (mgr a) = None) \<and>
     (session_agrees (mgr a) \<longrightarrow> session_agrees (mgr a'))"

text \<open>And nobody enters a session.\<close>

definition keeps_session :: "app \<Rightarrow> app \<Rightarrow> bool" where
  "keeps_session a a' \<longleftrightarrow> keeps_net a a' \<and> (sm_in_session (mgr a') \<longrightarrow> sm_in_session (mgr a))"

lemma keeps_net_refl [simp]: "keeps_net a a" "keeps_session a a"
  by (simp_all add: keeps_net_def keeps_session_def)

lemma keeps_net_trans [trans]: "keeps_net a b \<Longrightarrow> keeps_net b c \<Longrightarrow> keeps_net a c"
  by (simp add: keeps_net_def)

lemma keeps_session_trans [trans]: "keeps_session a b \<Longrightarrow> keeps_session b c \<Longrightarrow> keeps_session a c"
  by (auto simp: keeps_session_def intro: keeps_net_trans)

lemma keeps_session_net: "keeps_session a a' \<Longrightarrow> keeps_net a a'"
  by (simp add: keeps_session_def)

lemma inv_session:
  "link_inv a \<Longrightarrow> keeps_session a a' \<Longrightarrow> link_inv a'" "net_inv a \<Longrightarrow> keeps_session a a' \<Longrightarrow> net_inv a'"
  by (auto simp: net_inv_def link_inv_def keeps_session_def keeps_net_def)

lemma inv_connected: "link_inv a \<Longrightarrow> nm_connected (net a) \<Longrightarrow> keeps_net a a' \<Longrightarrow> link_inv a'"
  by (auto simp: link_inv_def keeps_net_def)

lemma keeps_updates [simp]:
  "keeps_net a (b\<lparr>status := t\<rparr>) = keeps_net a b" "keeps_net a (b\<lparr>dirty := q\<rparr>) = keeps_net a b"
  "keeps_net a (b\<lparr>files := fm\<rparr>) = keeps_net a b" "keeps_net a (b\<lparr>store := d\<rparr>) = keeps_net a b"
  "keeps_net a (b\<lparr>surface := c\<rparr>) = keeps_net a b" "keeps_net a (b\<lparr>active_stroke := s\<rparr>) = keeps_net a b"
  "keeps_session a (b\<lparr>status := t\<rparr>) = keeps_session a b" "keeps_session a (b\<lparr>dirty := q\<rparr>) = keeps_session a b"
  "keeps_session a (b\<lparr>files := fm\<rparr>) = keeps_session a b" "keeps_session a (b\<lparr>store := d\<rparr>) = keeps_session a b"
  "keeps_session a (b\<lparr>surface := c\<rparr>) = keeps_session a b"
  "keeps_session a (b\<lparr>active_stroke := s\<rparr>) = keeps_session a b"
  by (simp_all add: keeps_net_def keeps_session_def)

lemma keeps_updated [simp]:
  "keeps_net (a\<lparr>status := t\<rparr>) b = keeps_net a b"
  "keeps_session (a\<lparr>status := t\<rparr>) b = keeps_session a b"
  "keeps_net (a\<lparr>dirty := q\<rparr>) b = keeps_net a b"
  "keeps_session (a\<lparr>dirty := q\<rparr>) b = keeps_session a b"
  "keeps_net (a\<lparr>files := fm\<rparr>) b = keeps_net a b"
  "keeps_session (a\<lparr>files := fm\<rparr>) b = keeps_session a b"
  "keeps_net (a\<lparr>store := d\<rparr>) b = keeps_net a b"
  "keeps_session (a\<lparr>store := d\<rparr>) b = keeps_session a b"
  "keeps_net (a\<lparr>surface := c\<rparr>) b = keeps_net a b"
  "keeps_session (a\<lparr>surface := c\<rparr>) b = keeps_session a b"
  "keeps_net (a\<lparr>active_stroke := s\<rparr>) b = keeps_net a b"
  "keeps_session (a\<lparr>active_stroke := s\<rparr>) b = keeps_session a b"
  by (simp_all add: keeps_net_def keeps_session_def)

text \<open>A client that has sent something is the same member of the same session.\<close>

definition same_client :: "session_client \<Rightarrow> session_client \<Rightarrow> bool" where
  "same_client cl cl' \<longleftrightarrow> cl_member_id cl' = cl_member_id cl \<and> cl_session_id cl' = cl_session_id cl \<and>
     cl_host cl' = cl_host cl"

lemma keeps_with_client:
  assumes "client (mgr a) = Some cl" and "same_client cl cl'"
  shows "keeps_session a (with_client cl' a)"
  using assms by (auto simp: keeps_session_def keeps_net_def session_agrees_def same_client_def)

lemma send_frame_client: "send_frame oc p cl = Some (r, cl') \<Longrightarrow> same_client cl cl'"
  by (auto simp: send_frame_eq same_client_def)

lemma request_client:
  "send_join sid name cl = Some (r, cl') \<Longrightarrow> same_client cl cl'"
  "send_create name cl = Some (r, cl') \<Longrightarrow> same_client cl cl'"
  "send_draw op cl = Some (r, cl') \<Longrightarrow> same_client cl cl'"
  "send_draw_raw op cl = Some (r, cl') \<Longrightarrow> same_client cl cl'"
  "send_canvas_state ops cl = Some (r, cl') \<Longrightarrow> same_client cl cl'"
  "request_canvas_state cl = Some (r, cl') \<Longrightarrow> same_client cl cl'"
  "send_leave cl = Some (r, cl') \<Longrightarrow> same_client cl cl'"
  "send_close_session cl = Some (r, cl') \<Longrightarrow> same_client cl cl'"
  "send_canvas_clear cl = Some (r, cl') \<Longrightarrow> same_client cl cl'"
  by (auto simp: send_join_def send_create_def send_draw_def send_draw_raw_def send_canvas_state_def
      request_canvas_state_def send_leave_def send_close_session_def send_canvas_clear_def same_client_def
      split: if_split_asm elim!: bind_eq_SomeE dest!: send_frame_client)

section \<open>The calls of the session manager\<close>

lemma keeps_reset: "keeps_session a (reset_session a)" "keeps_session a (clear_joining_state a)"
  "keeps_session a (leave_acknowledged a)"
  by (auto simp: keeps_session_def keeps_net_def session_agrees_def reset_session_def
      clear_joining_state_def leave_acknowledged_def)

lemma save_if_auto_save_keeps: "save_if_auto_save a = Some a' \<Longrightarrow> keeps_session a a'"
  by (auto simp: save_if_auto_save_def Let_def split: if_split_asm option.splits elim!: bind_eq_SomeE)

lemma send_join_request_keeps:
  assumes "send_join_request sid a = Some a'" and "\<not> sm_in_session (mgr a)"
  shows "keeps_session a a'"
  using assms
  by (auto simp: send_join_request_def keeps_session_def keeps_net_def session_agrees_def Let_def
      split: option.split_asm if_split_asm elim!: bind_eq_SomeE)

lemma send_create_request_keeps:
  assumes "send_create_request a = Some a'" and "\<not> sm_in_session (mgr a)"
  shows "keeps_session a a'"
  using assms
  by (auto simp: send_create_request_def keeps_session_def keeps_net_def session_agrees_def Let_def
      split: option.split_asm if_split_asm elim!: bind_eq_SomeE)

lemma send_leave_or_close_keeps: "send_leave_or_close a = Some a' \<Longrightarrow> keeps_session a a'"
  by (auto simp: send_leave_or_close_def Let_def split: option.split_asm if_split_asm
      elim!: bind_eq_SomeE dest!: request_client intro: keeps_with_client)

lemma leave_session_keeps: "leave_session a = Some a' \<Longrightarrow> keeps_session a a'"
  by (auto simp: leave_session_def elim!: bind_eq_SomeE
      intro: keeps_session_trans [OF send_leave_or_close_keeps keeps_reset(1)])

lemma broadcast_keeps:
  "broadcast_draw op b a = Some a' \<Longrightarrow> keeps_session a a'"
  "broadcast_clear a = Some a' \<Longrightarrow> keeps_session a a'"
proof -
  show "broadcast_clear a = Some a' \<Longrightarrow> keeps_session a a'"
    by (auto simp: broadcast_clear_def split: option.split_asm if_split_asm
        elim!: bind_eq_SomeE dest!: request_client intro: keeps_with_client)
  show "broadcast_draw op b a = Some a' \<Longrightarrow> keeps_session a a'"
    by (auto simp: broadcast_draw_def Let_def keeps_session_def keeps_net_def session_agrees_def
        same_client_def split: option.split_asm if_split_asm elim!: bind_eq_SomeE dest!: request_client)
qed

lemma next_operation_id_keeps: "next_operation_id a = (i, a') \<Longrightarrow> keeps_session a a'"
  by (auto simp: next_operation_id_def Let_def keeps_session_def keeps_net_def session_agrees_def)

lemma clear_canvas_keeps: "clear_canvas a = Some a' \<Longrightarrow> keeps_session a a'"
proof -
  assume "clear_canvas a = Some a'"
  then obtain a1 a2 where
    1: "save_if_auto_save (a\<lparr>active_stroke := None, surface := clear_history (surface a)\<rparr>) = Some a1"
    and 2: "broadcast_clear (a1\<lparr>dirty := True\<rparr>) = Some a2" and a': "a' = set_status ''Canvas cleared'' a2"
    by (auto simp: clear_canvas_def Let_def elim!: bind_eq_SomeE)
  from save_if_auto_save_keeps [OF 1] have "keeps_session a a1" by simp
  also from broadcast_keeps(2) [OF 2] have "keeps_session a1 a2" by simp
  finally show ?thesis by (simp add: a')
qed

lemma canvas_input_keeps: "app_process_canvas_input input a = Some a' \<Longrightarrow> keeps_session a a'"
proof -
  assume input: "app_process_canvas_input input a = Some a'"
  obtain oid a1 where id: "next_operation_id a = (oid, a1)" by (cases "next_operation_id a")
  from next_operation_id_keeps [OF id] have k: "keeps_session a a1" .
  have "keeps_session a1 a'"
    using input
    by (auto simp: app_process_canvas_input_def id Let_def split: option.split_asm if_split_asm
        elim!: bind_eq_SomeE dest!: broadcast_keeps(1))
  with k show ?thesis by (rule keeps_session_trans)
qed

section \<open>The handlers of the polling thread\<close>

lemma notification_keeps: "sm_handle_notification p a = Some a' \<Longrightarrow> keeps_session a a'"
  by (auto simp: sm_handle_notification_def Let_def keeps_reset keeps_session_def keeps_net_def
      session_agrees_def reset_session_def split: if_split_asm elim!: bind_eq_SomeE)

lemma clear_keeps: "sm_handle_clear a = Some a' \<Longrightarrow> keeps_session a a'"
  by (auto simp: sm_handle_clear_def Let_def elim!: bind_eq_SomeE
      dest!: save_if_auto_save_keeps)

lemma canvas_state_keeps: "sm_handle_canvas_state p a = Some a' \<Longrightarrow> keeps_session a a'"
  by (auto simp: sm_handle_canvas_state_def split: if_split_asm elim!: bind_eq_SomeE)

lemma error_keeps: "sm_handle_error p a = Some a' \<Longrightarrow> keeps_session a a'"
  by (auto simp: sm_handle_error_def clear_joining_state_def keeps_session_def keeps_net_def
      session_agrees_def split: if_split_asm elim!: bind_eq_SomeE)

lemma apply_and_save_keeps: "apply_and_save op a = Some (op', a') \<Longrightarrow> mgr a' = mgr a \<and> net a' = net a"
  by (auto simp: apply_and_save_def Let_def elim!: bind_eq_SomeE)

lemma receive_draw_keeps:
  assumes "receive_draw op cl a = Some a'" and "client (mgr a) = Some cl"
  shows "keeps_session a a'"
  using assms
  by (auto simp: receive_draw_def Let_def keeps_session_def keeps_net_def session_agrees_def same_client_def
      split: if_split_asm elim!: bind_eq_SomeE dest!: apply_and_save_keeps request_client)

lemma draw_keeps: "sm_handle_draw p a = Some a' \<Longrightarrow> keeps_session a a'"
proof -
  assume draw: "sm_handle_draw p a = Some a'"
  have pending: "keeps_session a (map_mgr (\<lambda>m. m\<lparr>pending_operations := x\<rparr>) a)" for x
    by (simp add: keeps_session_def keeps_net_def session_agrees_def)
  from draw show ?thesis
    by (auto simp: sm_handle_draw_def Let_def pending split: if_split_asm option.split_asm
        elim!: bind_eq_SomeE dest!: receive_draw_keeps intro: keeps_session_trans [OF pending])
qed

lemma ack_keeps: "sm_handle_ack m a = Some a' \<Longrightarrow> client (mgr a) = Some cl \<Longrightarrow> keeps_net a a'"
  by (auto simp: sm_handle_ack_def Let_def keeps_net_def session_agrees_def leave_acknowledged_def
      same_client_def set_session_info_def
      split: session_joining_state.split_asm if_split_asm option.split_asm
      elim!: bind_eq_SomeE dest!: request_client)

lemma dispatch_keeps:
  assumes "sm_dispatch cl m a = Some a'" and "client (mgr a) = Some cl"
  shows "keeps_net a a'"
proof -
  have "keeps_net a (with_client cl' a)" if "send_canvas_state ops cl = Some (r, cl')" for ops r cl'
    using keeps_with_client [OF assms(2) request_client(5) [OF that]] by (rule keeps_session_net)
  with assms show ?thesis
    by (auto simp: sm_dispatch_def Let_def split: if_split_asm elim!: bind_eq_SomeE
        dest!: notification_keeps clear_keeps canvas_state_keeps error_keeps draw_keeps
        intro: keeps_session_net ack_keeps)
qed

section \<open>The connection\<close>

definition same_thread :: "app \<Rightarrow> app \<Rightarrow> bool" where
  "same_thread a a' \<longleftrightarrow> connecting (net a') = connecting (net a) \<and>
     connect_thread (net a') = connect_thread (net a)"

lemma same_thread_refl [simp]: "same_thread a a"
  by (simp add: same_thread_def)

lemma same_thread_trans [trans]: "same_thread a b \<Longrightarrow> same_thread b c \<Longrightarrow> same_thread a c"
  by (simp add: same_thread_def)

lemma keeps_same_thread: "keeps_net a a' \<Longrightarrow> same_thread a a'" "keeps_session a a' \<Longrightarrow> same_thread a a'"
  by (simp_all add: keeps_net_def keeps_session_def same_thread_def)

abbreviation poll_ended :: "app \<Rightarrow> app" where
  "poll_ended a \<equiv> map_net (\<lambda>n. n\<lparr>poll_thread := False\<rparr>) a"

lemma link_inv_poll_ended: "link_inv a \<Longrightarrow> link_inv (poll_ended a)"
  by (simp add: link_inv_def)

lemma poll_received_inv:
  assumes "link_inv a" and "poll_thread (net a)" and "poll_received r a = Some (a', go)"
  shows "link_inv (if go then a' else poll_ended a') \<and> same_thread a a'"
proof -
  obtain cl where cl: "client (mgr a) = Some cl" using assms(1,2) by (auto simp: link_inv_def)
  show ?thesis
  proof (cases "ok r")
    case True
    with assms(3) cl have "sm_dispatch cl (val r) a = Some a'" "go"
      by (auto simp: poll_received_def elim!: bind_eq_SomeE)
    from dispatch_keeps [OF this(1) cl] have kept: "keeps_net a a'" .
    have "nm_connected (net a)" using assms(1,2) by (simp add: link_inv_def)
    from inv_connected [OF assms(1) this kept] keeps_same_thread(1) [OF kept] \<open>go\<close> show ?thesis by simp
  next
    case False
    with assms(3) cl have "\<not> go" "a' = (if stop_poll (net a) then a
        else set_disconnected (reset_session (set_status (''Disconnected: '' @ message r) a)))"
      by (auto simp: poll_received_def)
    with assms(1) show ?thesis
      by (auto simp: set_disconnected_def reset_session_def link_inv_def session_agrees_def same_thread_def)
  qed
qed

lemma join_poll_thread_inv:
  assumes "link_inv a" and "join_poll_thread r a = Some a'"
  shows "link_inv a' \<and> same_thread a a' \<and> \<not> poll_thread (net a')"
proof (cases "\<exists>m. r = Some m \<and> poll_thread (net a)")
  case True
  then obtain m where m: "r = Some m" "poll_thread (net a)" by blast
  with assms(2) obtain a1 go where a1: "poll_received m a = Some (a1, go)" "a' = poll_ended a1"
    by (auto simp: join_poll_thread_def elim!: bind_eq_SomeE)
  from poll_received_inv [OF assms(1) m(2) a1(1)] a1(2) show ?thesis
    by (cases go) (simp_all add: link_inv_poll_ended same_thread_def)
next
  case False
  with assms(2) have "a' = poll_ended a"
    by (auto simp: join_poll_thread_def split: option.split_asm if_split_asm)
  with assms(1) show ?thesis by (simp add: link_inv_poll_ended same_thread_def)
qed

text \<open>The state after a connection has been made.\<close>

definition connected_app :: "app \<Rightarrow> app" where
  "connected_app a = set_status (''Connected to '' @ nm_host (net a))
     (a\<lparr>mgr := (mgr a)\<lparr>client := Some new_client\<rparr>,
        net := (net a)\<lparr>stop_poll := False, nm_connected := True, nm_state := state_connected, poll_thread := True\<rparr>\<rparr>)"

lemma connect_to_server_eq:
  "connect_to_server att a = Some
     (if nm_connected (net a) \<or> has_client a
      then (failure False rejected ''Already connected'', map_net (\<lambda>n. n\<lparr>stop_poll := False\<rparr>) a)
      else if \<not> ok (at_conn att) \<or> at_stopped att
      then (at_conn att, map_net (\<lambda>n. n\<lparr>stop_poll := at_stopped att\<rparr>) a)
      else (success True, connected_app a))"
proof (cases "nm_connected (net a) \<or> has_client a")
  case True
  then show ?thesis by (auto simp: connect_to_server_def Let_def has_client_def)
next
  case False
  then show ?thesis
    by (cases "at_stopped att"; cases "ok (at_conn att)")
      (simp_all add: connect_to_server_def Let_def has_client_def request_stop_def close_sockets_def
        join_poll_thread_def attach_client_def start_poll_def connected_app_def)
qed

lemma connect_to_server_inv:
  assumes "link_inv a" and "connect_to_server att a = Some (r, a')"
  shows "link_inv a' \<and> same_thread a a' \<and> (ok r \<longrightarrow> \<not> sm_in_session (mgr a'))"
  using assms
  by (auto simp: connect_to_server_eq connected_app_def has_client_def link_inv_def session_agrees_def
      same_thread_def split: if_split_asm)

lemma link_inv_simps [simp]:
  "link_inv (a\<lparr>status := t\<rparr>) = link_inv a" "link_inv (request_stop a) = link_inv a"
  "link_inv (report t a) = link_inv a" "link_inv (finish_connect_attempt b a) = link_inv a"
  by (simp_all add: link_inv_def request_stop_def report_def finish_connect_attempt_def Let_def
      clear_joining_state_def session_agrees_def)

lemma same_thread_simps [simp]:
  "same_thread a (b\<lparr>status := t\<rparr>) = same_thread a b" "same_thread a (request_stop b) = same_thread a b"
  "same_thread a (report t b) = same_thread a b"
  by (simp_all add: same_thread_def request_stop_def report_def)

lemma report_simps [simp]: "mgr (report t a) = mgr a" "mgr (a\<lparr>status := t\<rparr>) = mgr a" "net (report t a) = net a"
  by (simp_all add: report_def)

lemma begin_attempt_inv:
  assumes "begin_attempt t prepare j a = Some a'" and "net_inv a" and "\<not> sm_in_session (mgr a)"
    and "prepare = (\<lambda>a. a) \<or> prepare = prepare_create \<or> (\<exists>sid. prepare = prepare_join sid)"
  shows "net_inv a'"
  using assms
  by (auto simp: begin_attempt_def stop_connect_thread_def Let_def request_stop_def net_inv_def link_inv_def
      session_agrees_def prepare_create_def prepare_join_def split: if_split_asm option.split_asm)

lemma net_inv_link: "net_inv a \<Longrightarrow> link_inv a"
  by (simp add: net_inv_def)

lemma net_inv_same: "net_inv a \<Longrightarrow> link_inv a' \<Longrightarrow> same_thread a a' \<Longrightarrow> net_inv a'"
  by (simp add: net_inv_def same_thread_def)

lemma net_inv_status [simp]: "net_inv (a\<lparr>status := t\<rparr>) = net_inv a" "net_inv (request_stop a) = net_inv a"
  "net_inv (report t a) = net_inv a" "net_inv (before_attempt att a) = net_inv a" "net_inv (kill_server a) = net_inv a"
  by (simp_all add: net_inv_def link_inv_def request_stop_def report_def before_attempt_def kill_server_def)

lemma launch_server_inv: "launch_server oc exe a = (r, a') \<Longrightarrow> net_inv a' = net_inv a"
  by (auto simp: launch_server_def net_inv_def link_inv_def split: prod.splits)

section \<open>The jobs\<close>

lemma join_session_inv: "net_inv a \<Longrightarrow> join_session a = Some a' \<Longrightarrow> net_inv a'"
  by (auto simp: join_session_def async_tcp_discover_and_join_def async_ws_connect_and_join_def
      split: option.split_asm if_split_asm
      intro: begin_attempt_inv inv_session(2) [OF _ send_join_request_keeps])

lemma create_session_inv: "net_inv a \<Longrightarrow> create_session a = Some a' \<Longrightarrow> net_inv a'"
  by (auto simp: create_session_def async_ws_connect_and_create_def split: if_split_asm
      intro: begin_attempt_inv inv_session(2) [OF _ send_create_request_keeps])

lemma connect_inv: "net_inv a \<Longrightarrow> connect_to_server att a = Some (r, a') \<Longrightarrow> net_inv a'"
  using connect_to_server_inv [OF net_inv_link] net_inv_same by blast

lemma connect_attempts_inv: "net_inv a \<Longrightarrow> connect_attempts k atts conn a = Some (r, a') \<Longrightarrow> net_inv a'"
proof (induction k arbitrary: conn a)
  case (Suc k)
  then show ?case
    by (auto simp: Let_def split: if_split_asm elim!: bind_eq_SomeE
        dest!: connect_inv [rotated])
qed simp

lemma start_local_server_inv:
  assumes "net_inv a" and "start_local_server oc a = Some (r, a')"
  shows "net_inv a'"
  using assms
  by (auto simp: start_local_server_def Let_def split: if_split_asm prod.splits elim!: bind_eq_SomeE
      dest!: connect_attempts_inv [rotated] create_session_inv [rotated] launch_server_inv)

definition job_ended :: "app \<Rightarrow> bool" where
  "job_ended a \<longleftrightarrow> link_inv a \<and> \<not> connecting (net a)"

lemma job_ended_finish [simp]: "job_ended (finish_connect_attempt b a) = link_inv a"
proof -
  have "\<not> connecting (net (finish_connect_attempt b a))"
    by (simp add: finish_connect_attempt_def Let_def clear_joining_state_def)
  then show ?thesis by (simp add: job_ended_def)
qed

lemma connect_then_inv:
  assumes "link_inv a" and "connect_then att t1 t2 request a = Some a'"
    and request: "\<And>b b'. \<not> sm_in_session (mgr b) \<Longrightarrow> request b = Some b' \<Longrightarrow> keeps_session b b'"
  shows "job_ended a'"
proof -
  from assms(2) obtain r a1 where 1: "connect_to_server att a = Some (r, a1)"
    and rest: "(if \<not> ok r then Some (finish_connect_attempt True (report (t1 @ message r) a1))
      else Option.bind (request (report t2 a1)) (\<lambda>a. Some (finish_connect_attempt True a))) = Some a'"
    by (auto simp: connect_then_def elim!: bind_eq_SomeE)
  note inv = connect_to_server_inv [OF assms(1) 1]
  show ?thesis
  proof (cases "ok r")
    case True
    with rest obtain a2 where a2: "request (report t2 a1) = Some a2" "a' = finish_connect_attempt True a2"
      by (auto elim!: bind_eq_SomeE)
    from request [OF _ a2(1)] inv True have "keeps_session (report t2 a1) a2" by simp
    from inv_session(1) [OF _ this] inv a2(2) show ?thesis by simp
  qed (use rest inv in auto)
qed

lemma run_job_inv:
  assumes "net_inv a" and "run_job oc j a = Some a'"
  shows "net_inv a'"
proof -
  note link = net_inv_link [OF assms(1)]
  have endpoint: "link_inv (set_endpoint h p proto a)" for h p proto
    using link by (simp add: set_endpoint_def link_inv_def)
  from assms(2) obtain b where body: "job_body oc j a = Some b"
    and a': "a' = map_net (\<lambda>n. n\<lparr>connect_thread := None\<rparr>) b"
    by (auto simp: run_job_def elim!: bind_eq_SomeE)
  have "job_ended b"
  proof (cases j)
    case Connect
    with body link show ?thesis
      by (auto simp: job_body_def run_connect_def elim!: bind_eq_SomeE dest!: connect_to_server_inv [rotated])
  next
    case Start_Local_Server
    with body show ?thesis
      by (auto simp: job_body_def run_start_local_server_def elim!: bind_eq_SomeE
          dest!: start_local_server_inv [OF assms(1)] net_inv_link)
  next
    case (Discover_And_Join sid)
    with body link endpoint show ?thesis
      by (auto simp: job_body_def run_discover_and_join_def Let_def split: if_split_asm prod.splits
          intro: connect_then_inv [rotated] send_join_request_keeps)
  qed (use body link in \<open>auto simp: job_body_def run_ws_join_def run_ws_create_def
      intro: connect_then_inv send_join_request_keeps send_create_request_keeps\<close>)
  then show ?thesis by (auto simp: a' net_inv_def link_inv_def job_ended_def)
qed

section \<open>Frames\<close>

lemma close_sockets_keeps: "keeps_session a (close_sockets a)"
  by (auto simp: close_sockets_def keeps_session_def keeps_net_def session_agrees_def)

lemma handle_disconnect_inv: "net_inv a \<Longrightarrow> \<not> poll_thread (net a) \<Longrightarrow> net_inv (handle_disconnect a)"
  by (simp add: handle_disconnect_def Let_def net_inv_def link_inv_def close_sockets_def request_stop_def
      reset_session_def detach_client_def session_agrees_def)

lemma stop_connect_thread_inv:
  assumes "net_inv a" and "stop_connect_thread (run_job oc) a = Some a'"
  shows "net_inv a'"
proof (cases "connect_thread (net a)")
  case None
  with assms show ?thesis by (auto simp: stop_connect_thread_def request_stop_def net_inv_def link_inv_def)
next
  case (Some j)
  with assms(2) obtain b where b: "run_job oc j (request_stop a) = Some b"
    "a' = map_net (\<lambda>n. n\<lparr>connect_thread := None\<rparr>) b"
    by (auto simp: stop_connect_thread_def request_stop_def elim!: bind_eq_SomeE)
  have "connect_thread (net b) = None" using b(1) by (auto simp: run_job_def elim!: bind_eq_SomeE)
  moreover have "net_inv b" using run_job_inv [OF _ b(1)] assms(1) by simp
  ultimately show ?thesis by (simp add: b(2) net_inv_def link_inv_def)
qed

lemma disconnect_inv:
  assumes "net_inv a" and "disconnect oc a = Some a'"
  shows "net_inv a'"
proof -
  from assms(2) obtain a1 a2 a3 where
    1: "stop_connect_thread (run_job oc) a = Some a1" and 2: "send_leave_or_close a1 = Some a2"
    and 3: "join_poll_thread (oc_last oc) (close_sockets (request_stop a2)) = Some a3"
    and a': "a' = handle_disconnect a3"
    by (auto simp: disconnect_def Let_def elim!: bind_eq_SomeE)
  have "net_inv (request_stop a2)"
    using inv_session(2) [OF stop_connect_thread_inv [OF assms(1) 1] send_leave_or_close_keeps [OF 2]] by simp
  from inv_session(2) [OF this close_sockets_keeps] have before: "net_inv (close_sockets (request_stop a2))" .
  from join_poll_thread_inv [OF net_inv_link [OF before] 3] have
    "link_inv a3" "same_thread (close_sockets (request_stop a2)) a3" "\<not> poll_thread (net a3)" by simp_all
  with handle_disconnect_inv [OF net_inv_same [OF before]] show ?thesis by (simp add: a')
qed

lemma file_buttons_keeps: "file_buttons inp a = Some a' \<Longrightarrow> keeps_session a a'"
proof -
  have shown [simp]: "keeps_session a (file_result t fm d b) = keeps_session a b" for a t fm d b
    by (simp add: file_result_def Let_def split: option.split)
  have acts: "press_open ch a = Some a' \<Longrightarrow> keeps_session a a'"
    "press_save ch a = Some a' \<Longrightarrow> keeps_session a a'" "press_save_as ch a = Some a' \<Longrightarrow> keeps_session a a'"
    "press_auto_save ch a = Some a' \<Longrightarrow> keeps_session a a'" "save_after_sync a = Some a' \<Longrightarrow> keeps_session a a'"
    for ch a a'
    by (auto simp: press_open_def press_save_def press_save_as_def press_auto_save_def save_after_sync_def
        save_current_def consume_synced_save_def Let_def split: if_split_asm elim!: bind_eq_SomeE)
  assume "file_buttons inp a = Some a'"
  then obtain a1 a2 a3 a4 a5 where
    "on_click (open_clicked inp) (press_open (open_choice inp)) a = Some a1"
    "on_click (save_clicked inp) (press_save (save_choice inp)) a1 = Some a2"
    "on_click (save_as_clicked inp) (press_save_as (save_choice inp)) a2 = Some a3"
    "on_click (auto_save_clicked inp) (press_auto_save (save_choice inp)) a3 = Some a4"
    "on_click (clear_clicked inp) clear_canvas a4 = Some a5" "save_after_sync a5 = Some a'"
    by (auto simp: file_buttons_def elim!: bind_eq_SomeE)
  then have "keeps_session a a1" "keeps_session a1 a2" "keeps_session a2 a3" "keeps_session a3 a4"
    "keeps_session a4 a5" "keeps_session a5 a'"
    by (auto split: if_split_asm dest: acts clear_canvas_keeps)
  then show ?thesis by (blast intro: keeps_session_trans)
qed

lemma async_start_local_server_inv:
  assumes "net_inv a" and "async_start_local_server a = Some a'"
  shows "net_inv a'"
  using assms
  by (auto simp: async_start_local_server_def begin_attempt_def stop_connect_thread_def Let_def request_stop_def
      net_inv_def link_inv_def split: if_split_asm option.split_asm)

lemma async_connect_inv:
  assumes "net_inv a" and "async_connect_to_server a = Some a'"
  shows "net_inv a'"
  using assms
  by (auto simp: async_connect_to_server_def begin_attempt_def stop_connect_thread_def Let_def request_stop_def
      net_inv_def link_inv_def split: if_split_asm option.split_asm)

lemma network_buttons_inv:
  assumes "net_inv a" and "network_buttons oc inp proto conn running a = Some a'"
  shows "net_inv a'"
proof -
  from assms(2) obtain a1 a2 where
    1: "on_click (connect_clicked inp) (press_connect oc proto conn) a = Some a1"
    and 2: "on_click (local_server_clicked inp) (press_local_server oc running) a1 = Some a2"
    and 3: "on_click (protocol_clicked inp) press_protocol a2 = Some a'"
    by (auto simp: network_buttons_def elim!: bind_eq_SomeE)
  have "net_inv a1" using 1 assms(1)
    by (auto simp: press_connect_def split: if_split_asm intro: disconnect_inv async_connect_inv)
  then have "net_inv a2" using 2
    by (auto simp: press_local_server_def stop_local_server_def split: if_split_asm elim!: bind_eq_SomeE
        intro: disconnect_inv async_start_local_server_inv)
  then show ?thesis using 3
    by (auto simp: press_protocol_def toggle_protocol_def Let_def net_inv_def link_inv_def split: if_split_asm)
qed

lemma session_buttons_inv:
  assumes "net_inv a" and "session_buttons inp a = Some a'"
  shows "net_inv a'"
  using assms
  by (auto simp: session_buttons_def split: if_split_asm elim!: bind_eq_SomeE
      dest!: join_session_inv [rotated] create_session_inv [rotated]
      intro: inv_session(2) [OF _ leave_session_keeps])

lemma run_frame_inv:
  assumes "net_inv a" and "run_frame oc inp a = Some a'"
  shows "net_inv a'"
proof -
  from assms(2) obtain a1 a2 a3 a4 where
    1: "file_buttons inp a = Some a1"
    and 2: "network_buttons oc inp (nm_protocol (net a)) (nm_connected (net a)) (is_running (local_server (net a))) a1 = Some a2"
    and 3: "session_buttons inp a2 = Some a3"
    and 4: "(if minimized inp then Some (drawing_buttons inp (input_fields inp (nm_protocol (net a)) a3))
      else app_process_canvas_input ((mouse_input inp)\<lparr>in_tool :=
        active_tool (drawing_buttons inp (input_fields inp (nm_protocol (net a)) a3))\<rparr>)
        (drawing_buttons inp (input_fields inp (nm_protocol (net a)) a3))) = Some a4"
    and a': "a' = a4\<lparr>dirty := False\<rparr>"
    by (auto simp: run_frame_def frame_body_def Let_def elim!: bind_eq_SomeE)
  have "net_inv a3"
    by (rule session_buttons_inv [OF network_buttons_inv [OF inv_session(2) [OF assms(1) file_buttons_keeps [OF 1]] 2] 3])
  then have "net_inv (drawing_buttons inp (input_fields inp (nm_protocol (net a)) a3))"
    by (simp add: drawing_buttons_def input_fields_def Let_def net_inv_def link_inv_def session_agrees_def)
  then have "net_inv a4" using 4 by (auto split: if_split_asm intro: inv_session(2) [OF _ canvas_input_keeps])
  then show ?thesis by (simp add: a' net_inv_def link_inv_def)
qed

lemma poll_turn_inv:
  assumes "net_inv a" and "poll_thread (net a)" and "poll_turn r a = Some (a', go)"
  shows "net_inv (if go then a' else poll_ended a')"
proof (cases "stop_poll (net a)")
  case True
  with assms show ?thesis by (auto simp: poll_turn_def net_inv_def link_inv_poll_ended)
next
  case False
  with assms(3) have "poll_received r a = Some (a', go)" by (simp add: poll_turn_def)
  from poll_received_inv [OF net_inv_link [OF assms(1)] assms(2) this] assms(1) show ?thesis
    by (cases go) (auto simp: net_inv_def same_thread_def)
qed

lemma program_step_inv: "program_step g a a' \<Longrightarrow> net_inv a \<Longrightarrow> net_inv a'"
proof (induction rule: program_step.induct)
  case (poll a r a' going_on)
  then show ?case using poll_turn_inv [of a r a' going_on] by simp
next
  case (writer a w w' d')
  then show ?case by (simp add: net_inv_def link_inv_def)
qed (blast intro: run_frame_inv run_job_inv)+

lemma new_app_inv: "net_inv (new_app d)"
  by (simp add: net_inv_def link_inv_def new_app_def new_network_manager_def new_session_manager_def
      session_agrees_def)

lemma reachable_net_inv: "reachable_app d a \<Longrightarrow> net_inv a"
  by (induction rule: reachable_app.induct) (auto intro: new_app_inv program_step_inv)

section \<open>A lost connection\<close>

text \<open>The client is still attached, but nothing listens to it, and no server of ours is starting.\<close>

definition lost :: "app \<Rightarrow> bool" where
  "lost a \<longleftrightarrow> net_inv a \<and> client (mgr a) \<noteq> None \<and> \<not> nm_connected (net a) \<and>
     \<not> is_running (local_server (net a)) \<and> connect_thread (net a) \<noteq> Some Start_Local_Server"

lemma lost_session: "lost a \<Longrightarrow> keeps_session a a' \<Longrightarrow> lost a'"
  using inv_session(2) [of a a'] by (auto simp: lost_def keeps_session_def keeps_net_def)

lemma lostD: "lost a \<Longrightarrow> \<not> sm_in_session (mgr a)" "lost a \<Longrightarrow> \<not> poll_thread (net a)"
  "lost a \<Longrightarrow> \<not> nm_connected (net a)"
  by (auto simp: lost_def net_inv_def link_inv_def)

lemma lost_refused:
  "lost a \<Longrightarrow> connect_to_server att a =
     Some (failure False rejected ''Already connected'', map_net (\<lambda>n. n\<lparr>stop_poll := False\<rparr>) a)"
  by (simp add: connect_to_server_eq lost_def has_client_def)

lemma begin_attempt_lost:
  assumes "lost a" and "begin_attempt t prepare j a = Some a'" and "j \<noteq> Start_Local_Server"
    and "prepare = (\<lambda>a. a) \<or> prepare = prepare_create \<or> (\<exists>sid. prepare = prepare_join sid)"
  shows "lost a'"
proof -
  from lostD(1) [OF assms(1)] begin_attempt_inv [OF assms(2) _ _ assms(4)] assms(1) have "net_inv a'" by (simp add: lost_def)
  with assms show ?thesis
    by (auto simp: begin_attempt_def stop_connect_thread_def Let_def request_stop_def lost_def
        prepare_create_def prepare_join_def split: if_split_asm option.split_asm)
qed

lemma lost_frame_updates [simp]:
  "lost (a\<lparr>status := t\<rparr>) = lost a" "lost (a\<lparr>dirty := q\<rparr>) = lost a"
  "lost (drawing_buttons inp a) = lost a" "lost (input_fields inp proto a) = lost a"
  by (simp_all add: lost_def net_inv_def link_inv_def session_agrees_def drawing_buttons_def
      input_fields_def Let_def)

lemma join_create_lost:
  "lost a \<Longrightarrow> join_session a = Some a' \<Longrightarrow> lost a'" "lost a \<Longrightarrow> create_session a = Some a' \<Longrightarrow> lost a'"
  by (auto simp: join_session_def create_session_def async_tcp_discover_and_join_def
      async_ws_connect_and_join_def async_ws_connect_and_create_def lostD
      split: if_split_asm option.split_asm intro: begin_attempt_lost)

lemma lost_frame:
  assumes "lost a" and "\<not> local_server_clicked inp" and "run_frame oc inp a = Some a'"
  shows "lost a'"
proof -
  from assms(3) obtain a1 a2 a3 a4 where
    1: "file_buttons inp a = Some a1"
    and 2: "network_buttons oc inp (nm_protocol (net a)) (nm_connected (net a)) (is_running (local_server (net a))) a1 = Some a2"
    and 3: "session_buttons inp a2 = Some a3"
    and 4: "(if minimized inp then Some (drawing_buttons inp (input_fields inp (nm_protocol (net a)) a3))
      else app_process_canvas_input ((mouse_input inp)\<lparr>in_tool :=
        active_tool (drawing_buttons inp (input_fields inp (nm_protocol (net a)) a3))\<rparr>)
        (drawing_buttons inp (input_fields inp (nm_protocol (net a)) a3))) = Some a4"
    and a': "a' = a4\<lparr>dirty := False\<rparr>"
    by (auto simp: run_frame_def frame_body_def Let_def elim!: bind_eq_SomeE)
  have "lost a1" by (rule lost_session [OF assms(1) file_buttons_keeps [OF 1]])
  from 2 obtain b where
    b: "on_click (connect_clicked inp) (press_connect oc (nm_protocol (net a)) (nm_connected (net a))) a1 = Some b"
    and b2: "on_click (protocol_clicked inp) press_protocol b = Some a2"
    using assms(2) by (auto simp: network_buttons_def elim!: bind_eq_SomeE)
  have "lost b" using b assms(1) \<open>lost a1\<close>
    by (auto simp: press_connect_def lost_def [of a] async_connect_to_server_def split: if_split_asm
        intro: begin_attempt_lost)
  with b2 have "lost a2"
    by (auto simp: press_protocol_def toggle_protocol_def Let_def lost_def net_inv_def link_inv_def split: if_split_asm)
  moreover from this have "\<not> sm_in_session (mgr a2)" by (rule lostD)
  ultimately have "lost a3" using 3
    by (auto simp: session_buttons_def split: if_split_asm elim!: bind_eq_SomeE)
      (metis join_create_lost)+
  then have "lost (drawing_buttons inp (input_fields inp (nm_protocol (net a)) a3))" by simp
  with 4 have "lost a4" using lost_session [OF _ canvas_input_keeps] by (metis option.inject)
  then show ?thesis by (simp add: a')
qed

text \<open>A job finds the client of the lost connection in its way.\<close>

definition stuck :: "app \<Rightarrow> bool" where
  "stuck a \<longleftrightarrow> client (mgr a) \<noteq> None \<and> \<not> nm_connected (net a) \<and> \<not> is_running (local_server (net a))"

lemma stuck_simps [simp]:
  "stuck (a\<lparr>status := t\<rparr>) = stuck a" "stuck (report t a) = stuck a"
  "stuck (map_net (\<lambda>n. n\<lparr>stop_poll := b\<rparr>) a) = stuck a" "stuck (set_endpoint h p proto a) = stuck a"
  "stuck (finish_connect_attempt q a) = stuck a"
  by (simp_all add: stuck_def report_def set_endpoint_def finish_connect_attempt_def Let_def clear_joining_state_def)

lemma stuck_report [simp]: "stuck ((report t a)\<lparr>net := n\<rparr>) = stuck (a\<lparr>net := n\<rparr>)"
  by (simp add: stuck_def)

lemma stuck_refused: "stuck a \<Longrightarrow> connect_to_server att a =
    Some (failure False rejected ''Already connected'', map_net (\<lambda>n. n\<lparr>stop_poll := False\<rparr>) a)"
  by (simp add: connect_to_server_eq stuck_def has_client_def)

lemma stuck_job:
  assumes "stuck a" and "j \<noteq> Start_Local_Server" and "job_body oc j a = Some a'"
  shows "stuck a'"
  using assms
  by (cases j)
    (auto simp: job_body_def run_connect_def run_discover_and_join_def run_ws_join_def run_ws_create_def
      connect_then_def stuck_refused Let_def split: if_split_asm prod.splits)

lemma lost_job:
  assumes "lost a" and "connect_thread (net a) = Some j" and "run_job oc j a = Some a'"
  shows "lost a'"
proof -
  from assms(3) obtain b where b: "job_body oc j a = Some b" "a' = map_net (\<lambda>n. n\<lparr>connect_thread := None\<rparr>) b"
    by (auto simp: run_job_def elim!: bind_eq_SomeE)
  have "stuck b" using stuck_job [OF _ _ b(1)] assms(1,2) by (auto simp: lost_def stuck_def)
  moreover have "net_inv a'" using run_job_inv [OF _ assms(3)] assms(1) by (simp add: lost_def)
  ultimately show ?thesis by (auto simp: lost_def stuck_def b(2))
qed

lemma lost_step: "program_step False a a' \<Longrightarrow> lost a \<Longrightarrow> lost a'"
proof (induction rule: program_step.induct)
  case (poll a r a' going_on)
  with lostD(2) [of a] show ?case by simp
next
  case (writer a w w' d')
  then show ?case by (auto simp: lost_def net_inv_def link_inv_def)
qed (auto intro: lost_frame lost_job)

lemma lost_steps: "(program_step False)\<^sup>*\<^sup>* a a' \<Longrightarrow> lost a \<Longrightarrow> lost a'"
  by (induction rule: rtranclp_induct) (auto intro: lost_step)

lemma poll_failure_loses:
  assumes "net_inv a" and "poll_thread (net a)" and "\<not> stop_poll (net a)" and "\<not> ok r"
    and "\<not> is_running (local_server (net a))" and "connect_thread (net a) \<noteq> Some Start_Local_Server"
    and "poll_turn r a = Some (a', go)"
  shows "\<not> go \<and> lost (poll_ended a') \<and> status a' = ''Disconnected: '' @ message r"
proof -
  obtain cl where cl: "client (mgr a) = Some cl" using assms(1,2) by (auto simp: net_inv_def link_inv_def)
  with assms(3,4,7) have "\<not> go"
    and a': "a' = set_disconnected (reset_session (set_status (''Disconnected: '' @ message r) a))"
    by (auto simp: poll_turn_def poll_received_def)
  moreover from poll_turn_inv [OF assms(1,2,7)] \<open>\<not> go\<close> have "net_inv (poll_ended a')" by simp
  ultimately show ?thesis using cl assms(5,6)
    by (auto simp: lost_def a' set_disconnected_def reset_session_def)
qed

end
