(* ===== verification/Picture_Lemmas.thy ===== *)
theory Picture_Lemmas
  imports Network_Lemmas
begin

text \<open>
  Every step of the program keeps the invariant of the canvas: its pixels are the picture of its
  history, and its size is that of the start.
\<close>

section \<open>The session and the network\<close>

text \<open>Nothing in the program but \<open>canvas.cpp\<close> touches the pixels or the history.\<close>

definition sized_inv :: "u32 \<Rightarrow> u32 \<Rightarrow> canvas \<Rightarrow> bool" where
  "sized_inv w h c \<longleftrightarrow> canvas_inv c \<and> width c = w \<and> height c = h"

definition keeps_canvas :: "app \<Rightarrow> app \<Rightarrow> bool" where
  "keeps_canvas a a' \<longleftrightarrow> (\<forall>w h. sized_inv w h (surface a) \<longrightarrow> sized_inv w h (surface a'))"

lemma keeps_canvas_trans [trans]: "keeps_canvas a b \<Longrightarrow> keeps_canvas b c \<Longrightarrow> keeps_canvas a c"
  by (simp add: keeps_canvas_def)

lemma same_surface: "surface a' = surface a \<Longrightarrow> keeps_canvas a a'"
  by (simp add: keeps_canvas_def)

lemma sized_inv_load: "sized_inv w h c \<Longrightarrow> canvas_load ops c = Some c' \<Longrightarrow> sized_inv w h c'"
  using canvas_load_run [of c ops] canvas_load_inv [of c ops c'] by (auto simp: sized_inv_def canvas_inv_def)

lemma sized_inv_apply:
  assumes "sized_inv w h c" and "canvas_apply op c = Some (sq, c')"
  shows "sized_inv w h c'"
proof -
  from assms(1) have inv: "canvas_inv c" by (simp add: sized_inv_def)
  then have "width c' = width c \<and> height c' = height c"
    using canvas_apply_known [of op c] canvas_apply_new [OF inv, of op] assms(2) by (cases "known op c") auto
  with assms canvas_apply_inv [OF inv] show ?thesis by (simp add: sized_inv_def)
qed

lemma sized_inv_clear: "sized_inv w h c \<Longrightarrow> sized_inv w h (clear_history c)"
  by (auto simp: sized_inv_def canvas_inv_clear) (simp_all add: clear_history_def)

lemma sized_inv_replay:
  assumes "sized_inv w h c" and "load_binary_replay f c v = Some (loaded, c', reason, sq)"
  shows "sized_inv w h c'"
  using assms
  by (auto simp: load_binary_replay_def split: option.split_asm if_split_asm sum.split_asm
      elim!: bind_eq_SomeE) (rule sized_inv_load)

text \<open>What the window depends on, and what most calls leave as it is.\<close>

definition visible :: "app \<Rightarrow> bool \<times> canvas \<times> draw_operation option" where
  "visible a = (dirty a, surface a, active_stroke a)"

lemma visible_simps [simp]:
  "visible (a\<lparr>mgr := m\<rparr>) = visible a" "visible (a\<lparr>net := n\<rparr>) = visible a" "visible (a\<lparr>files := fm\<rparr>) = visible a"
  "visible (a\<lparr>store := d\<rparr>) = visible a" "visible (a\<lparr>status := t\<rparr>) = visible a"
  "visible (request_stop a) = visible a" "visible (report t a) = visible a"
  "visible (finish_connect_attempt b a) = visible a" "visible (close_sockets a) = visible a"
  "visible (set_endpoint h p proto a) = visible a" "visible (handle_disconnect a) = visible a"
  "visible (prepare_join sid a) = visible a" "visible (prepare_create a) = visible a"
  "visible (before_attempt att a) = visible a" "visible (kill_server a) = visible a"
  "visible (connected_app a) = visible a" "visible (leave_acknowledged a) = visible a"
  "visible (drawing_buttons inp a) = visible a" "visible (input_fields inp proto a) = visible a"
  "visible (reset_session a) = visible a" "visible (file_result shown fm d a) = visible a"
  "visible (clear_joining_state a) = visible a"
  by (simp_all add: visible_def request_stop_def report_def finish_connect_attempt_def Let_def clear_joining_state_def
      close_sockets_def set_endpoint_def handle_disconnect_def detach_client_def prepare_join_def prepare_create_def
      before_attempt_def kill_server_def connected_app_def leave_acknowledged_def drawing_buttons_def input_fields_def
      reset_session_def file_result_def split: option.split)

lemma visible_surface: "visible a' = visible a \<Longrightarrow> surface a' = surface a"
  by (simp add: visible_def)

lemmas surface_simps [simp] = visible_simps [THEN visible_surface]

lemma requests_visible:
  "send_join_request sid a = Some a' \<Longrightarrow> visible a' = visible a"
  "send_create_request a = Some a' \<Longrightarrow> visible a' = visible a"
  "send_leave_or_close a = Some a' \<Longrightarrow> visible a' = visible a"
  "broadcast_draw op b a = Some a' \<Longrightarrow> visible a' = visible a"
  "broadcast_clear a = Some a' \<Longrightarrow> visible a' = visible a"
  by (auto simp: send_join_request_def send_create_request_def send_leave_or_close_def broadcast_draw_def
      broadcast_clear_def Let_def split: option.split_asm if_split_asm elim!: bind_eq_SomeE)

lemma begin_attempt_visible:
  assumes "begin_attempt t prepare j a = Some a'" and "\<And>b. visible (prepare b) = visible b"
  shows "visible a' = visible a"
  using assms(1)
  by (auto simp: begin_attempt_def stop_connect_thread_def Let_def assms(2)
      split: if_split_asm option.split_asm)

lemma session_calls_visible:
  "join_session a = Some a' \<Longrightarrow> visible a' = visible a" "create_session a = Some a' \<Longrightarrow> visible a' = visible a"
  "leave_session a = Some a' \<Longrightarrow> visible a' = visible a"
  by (auto simp: join_session_def create_session_def leave_session_def async_tcp_discover_and_join_def
      async_ws_connect_and_join_def async_ws_connect_and_create_def
      split: option.split_asm if_split_asm elim!: bind_eq_SomeE dest: requests_visible begin_attempt_visible)

lemma connect_to_server_visible: "connect_to_server att a = Some (r, a') \<Longrightarrow> visible a' = visible a"
  by (auto simp: connect_to_server_eq split: if_split_asm)

lemma connect_attempts_visible: "connect_attempts k atts conn a = Some (r, a') \<Longrightarrow> visible a' = visible a"
proof (induction k arbitrary: conn a)
  case (Suc k)
  then show ?case
    by (auto simp: Let_def split: if_split_asm elim!: bind_eq_SomeE dest!: connect_to_server_visible)
qed simp

lemma start_local_server_visible: "start_local_server oc a = Some (r, a') \<Longrightarrow> visible a' = visible a"
  by (auto simp: start_local_server_def launch_server_def Let_def split: if_split_asm prod.splits
      elim!: bind_eq_SomeE dest!: connect_attempts_visible session_calls_visible)

lemma connect_then_visible:
  assumes "connect_then att t1 t2 act a = Some a'"
    and "\<And>b b'. act b = Some b' \<Longrightarrow> visible b' = visible b"
  shows "visible a' = visible a"
  using assms(1)
  by (auto simp: connect_then_def split: if_split_asm elim!: bind_eq_SomeE
      dest!: connect_to_server_visible assms(2))

lemma run_job_visible: "run_job oc j a = Some a' \<Longrightarrow> visible a' = visible a"
  by (cases j)
    (auto simp: run_job_def job_body_def run_connect_def run_discover_and_join_def run_ws_join_def
      run_ws_create_def run_start_local_server_def Let_def split: if_split_asm prod.splits
      elim!: bind_eq_SomeE dest!: connect_to_server_visible start_local_server_visible connect_then_visible
      intro: requests_visible)

lemmas requests_surface = requests_visible [THEN visible_surface]

lemmas begin_attempt_surface = begin_attempt_visible [THEN visible_surface]

lemmas session_calls_surface = session_calls_visible [THEN visible_surface]

lemmas run_job_surface = run_job_visible [THEN visible_surface]

lemma poll_received_canvas: "poll_received r a = Some (a', go) \<Longrightarrow> keeps_canvas a a'"
proof -
  have notification: "sm_handle_notification p a = Some a' \<Longrightarrow> surface a' = surface a"
    and error: "sm_handle_error p a = Some a' \<Longrightarrow> surface a' = surface a"
    and ack: "sm_handle_ack m a = Some a' \<Longrightarrow> surface a' = surface a" for p m a a'
    by (rule handlers_frame; assumption)+
  have clear: "sm_handle_clear a = Some a' \<Longrightarrow> keeps_canvas a a'" for a a'
    by (auto simp: sm_handle_clear_def Let_def keeps_canvas_def sized_inv_clear elim!: bind_eq_SomeE
        dest!: save_if_auto_save_surface)
  have state: "sm_handle_canvas_state p a = Some a' \<Longrightarrow> keeps_canvas a a'" for p a a'
    by (auto simp: sm_handle_canvas_state_def keeps_canvas_def split: if_split_asm elim!: bind_eq_SomeE)
      (metis sized_inv_load)
  have draw: "sm_handle_draw p a = Some a' \<Longrightarrow> keeps_canvas a a'" for p a a'
    by (auto simp: sm_handle_draw_def receive_draw_def apply_and_save_def keeps_canvas_def Let_def
        split: if_split_asm option.split_asm elim!: bind_eq_SomeE) (metis sized_inv_apply)+
  assume "poll_received r a = Some (a', go)"
  then show ?thesis
    by (auto simp: poll_received_def sm_dispatch_def set_disconnected_def Let_def
        split: if_split_asm option.split_asm elim!: bind_eq_SomeE
        dest: notification error ack intro: clear state draw same_surface)
qed

lemma poll_turn_canvas: "poll_turn r a = Some (a', go) \<Longrightarrow> keeps_canvas a a'"
  by (auto simp: poll_turn_def same_surface split: if_split_asm intro: poll_received_canvas)

lemma join_poll_thread_canvas: "join_poll_thread r a = Some a' \<Longrightarrow> keeps_canvas a a'"
  by (auto simp: join_poll_thread_def keeps_canvas_def split: option.split_asm if_split_asm
      elim!: bind_eq_SomeE dest!: poll_received_canvas)

lemma disconnect_canvas: "disconnect oc a = Some a' \<Longrightarrow> keeps_canvas a a'"
  by (auto simp: disconnect_def stop_connect_thread_def Let_def keeps_canvas_def split: option.split_asm
      elim!: bind_eq_SomeE dest!: run_job_surface requests_surface join_poll_thread_canvas)

section \<open>Files and drawing\<close>

lemma clear_canvas_canvas: "clear_canvas a = Some a' \<Longrightarrow> keeps_canvas a a'"
  by (auto simp: clear_canvas_def Let_def keeps_canvas_def sized_inv_clear elim!: bind_eq_SomeE
      dest!: save_if_auto_save_surface requests_surface)

lemma open_and_load_canvas:
  assumes "sized_inv w h c" and "open_and_load ch c fm d = Some (t, c', fm', d')"
  shows "sized_inv w h c'"
  using assms
  by (auto simp: open_and_load_def split: option.split_asm if_split_asm elim!: bind_eq_SomeE
      dest: sized_inv_replay)

lemma file_buttons_canvas: "file_buttons inp a = Some a' \<Longrightarrow> keeps_canvas a a'"
proof -
  have "press_open ch a = Some a' \<Longrightarrow> keeps_canvas a a'" for ch a a'
    by (auto simp: press_open_def keeps_canvas_def elim!: bind_eq_SomeE intro: open_and_load_canvas)
  moreover have "press_save ch a = Some a' \<Longrightarrow> keeps_canvas a a'" "press_save_as ch a = Some a' \<Longrightarrow> keeps_canvas a a'"
    "press_auto_save ch a = Some a' \<Longrightarrow> keeps_canvas a a'" "save_after_sync a = Some a' \<Longrightarrow> keeps_canvas a a'"
    for ch a a'
    by (auto simp: press_save_def press_save_as_def press_auto_save_def save_after_sync_def save_current_def
        consume_synced_save_def Let_def same_surface split: if_split_asm elim!: bind_eq_SomeE)
  moreover assume "file_buttons inp a = Some a'"
  ultimately show ?thesis
    by (auto simp: file_buttons_def keeps_canvas_def split: if_split_asm elim!: bind_eq_SomeE
        dest!: clear_canvas_canvas)
qed

lemma process_canvas_input_inv:
  assumes "process_canvas_input input oid mid col th host_owns t c stroke = Some (op, c', stroke')"
    and "sized_inv w h c"
  shows "sized_inv w h c'"
  using assms
  by (auto simp: process_canvas_input_def Let_def split: if_split_asm option.split_asm
      elim!: bind_eq_SomeE dest: sized_inv_apply)

lemma canvas_input_canvas: "app_process_canvas_input input a = Some a' \<Longrightarrow> keeps_canvas a a'"
proof -
  obtain oid a1 where id: "next_operation_id a = (oid, a1)" by (cases "next_operation_id a")
  then have s: "surface a1 = surface a" by (auto simp: next_operation_id_def Let_def)
  assume "app_process_canvas_input input a = Some a'"
  then show ?thesis
    by (auto simp: app_process_canvas_input_def id s Let_def keeps_canvas_def
        split: option.split_asm if_split_asm elim!: bind_eq_SomeE dest!: requests_surface)
      (metis process_canvas_input_inv)+
qed

section \<open>Frames and steps\<close>

lemma network_buttons_canvas:
  assumes "network_buttons oc inp proto conn running a = Some a'"
  shows "keeps_canvas a a'"
proof -
  from assms obtain a1 a2 where
    1: "on_click (connect_clicked inp) (press_connect oc proto conn) a = Some a1"
    and 2: "on_click (local_server_clicked inp) (press_local_server oc running) a1 = Some a2"
    and 3: "on_click (protocol_clicked inp) press_protocol a2 = Some a'"
    by (auto simp: network_buttons_def elim!: bind_eq_SomeE)
  have "keeps_canvas a a1" using 1
    by (auto simp: press_connect_def async_connect_to_server_def same_surface split: if_split_asm
        intro: disconnect_canvas dest!: begin_attempt_surface)
  also have "keeps_canvas a1 a2" using 2
    by (auto simp: press_local_server_def stop_local_server_def async_start_local_server_def same_surface
        keeps_canvas_def split: if_split_asm elim!: bind_eq_SomeE dest!: disconnect_canvas begin_attempt_surface)
  also have "keeps_canvas a2 a'" using 3
    by (auto simp: press_protocol_def toggle_protocol_def Let_def same_surface split: if_split_asm)
  finally show ?thesis .
qed

lemma session_buttons_surface: "session_buttons inp a = Some a' \<Longrightarrow> surface a' = surface a"
  by (auto simp: session_buttons_def split: if_split_asm elim!: bind_eq_SomeE dest!: session_calls_surface)

lemma run_frame_canvas:
  assumes "run_frame oc inp a = Some a'"
  shows "keeps_canvas a a'"
proof -
  from assms obtain a1 a2 a3 a4 where
    1: "file_buttons inp a = Some a1"
    and 2: "network_buttons oc inp (nm_protocol (net a)) (nm_connected (net a)) (is_running (local_server (net a))) a1 = Some a2"
    and 3: "session_buttons inp a2 = Some a3"
    and 4: "(if minimized inp then Some (drawing_buttons inp (input_fields inp (nm_protocol (net a)) a3))
      else app_process_canvas_input ((mouse_input inp)\<lparr>in_tool :=
        active_tool (drawing_buttons inp (input_fields inp (nm_protocol (net a)) a3))\<rparr>)
        (drawing_buttons inp (input_fields inp (nm_protocol (net a)) a3))) = Some a4"
    and a': "a' = a4\<lparr>dirty := False\<rparr>"
    by (auto simp: run_frame_def frame_body_def Let_def elim!: bind_eq_SomeE)
  from 4 have "keeps_canvas a3 a4"
    by (auto simp: same_surface keeps_canvas_def split: if_split_asm dest!: canvas_input_canvas)
  moreover note file_buttons_canvas [OF 1] network_buttons_canvas [OF 2] session_buttons_surface [OF 3]
  ultimately show ?thesis by (simp add: keeps_canvas_def a')
qed

lemma program_step_canvas: "program_step g a a' \<Longrightarrow> keeps_canvas a a'"
proof (induction rule: program_step.induct)
  case (poll a r a' going_on)
  then have "keeps_canvas a a'" by (blast intro: poll_turn_canvas)
  then show ?case by (simp add: keeps_canvas_def)
qed (auto intro: run_frame_canvas same_surface run_job_surface)

lemma reachable_sized: "reachable_app d a \<Longrightarrow> sized_inv 1280 744 (surface a)"
proof (induction rule: reachable_app.induct)
  case start
  show ?case by (simp add: new_app_def sized_inv_def canvas_inv_create) (simp add: canvas_create_def empty_canvas_def)
next
  case (step a a')
  with program_step_canvas [of True a a'] show ?case by (simp add: keeps_canvas_def)
qed

lemma reachable_canvas_inv: "reachable_app d a \<Longrightarrow> canvas_inv (surface a)"
  using reachable_sized by (simp add: sized_inv_def)

end
