(* ===== verification/Network_Properties.thy ===== *)
theory Network_Properties
  imports Picture_Lemmas Session_Properties
begin

text \<open>
  The properties of the program around the canvas: its threads and connections, what joining a
  session does end to end, what a lost connection and a failed start leave behind, and the command
  line of the server.
\<close>

section \<open>A program that has connected\<close>

definition good_outcome :: outcome where
  "good_outcome = \<lparr>oc_discovery = success (''10.0.0.7'', 9000),
     oc_attempt = (\<lambda>_. \<lparr>at_stop = False, at_running = True, at_conn = success True, at_stopped = False\<rparr>),
     oc_path = ''C:'', oc_exists = (\<lambda>_. True), oc_created = True, oc_last = None\<rparr>"

definition ws_app :: "disk \<Rightarrow> app" where
  "ws_app d = (new_app d)\<lparr>net := new_network_manager\<lparr>nm_protocol := protocol_websocket,
     nm_port := DEFAULT_WS_PORT_STR\<rparr>, dirty := False\<rparr>"

definition linked_app :: "disk \<Rightarrow> app" where
  "linked_app d = (new_app d)\<lparr>mgr := new_session_manager\<lparr>client := Some new_client\<rparr>,
     net := new_network_manager\<lparr>nm_protocol := protocol_websocket, nm_port := DEFAULT_WS_PORT_STR,
       nm_connected := True, nm_state := state_connected, poll_thread := True\<rparr>,
     dirty := False, status := ''Connected to 127.0.0.1''\<rparr>"

lemmas frame_defs = run_frame_def frame_body_def file_buttons_def network_buttons_def session_buttons_def
  save_after_sync_def consume_synced_save_def input_fields_def drawing_buttons_def typed_def no_input_def Let_def

lemma ws_app_frame: "run_frame oc (no_input\<lparr>protocol_clicked := True\<rparr>) (new_app d) = Some (ws_app d)"
  by (simp add: frame_defs press_protocol_def toggle_protocol_def ws_app_def new_app_def new_session_manager_def
      new_network_manager_def new_file_manager_def)

lemma linked_app_steps:
  "\<exists>b. run_frame oc (no_input\<lparr>connect_clicked := True\<rparr>) (ws_app d) = Some b \<and>
    connect_thread (net b) = Some Connect \<and> run_job good_outcome Connect b = Some (linked_app d)"
  by (simp add: frame_defs press_connect_def async_connect_to_server_def begin_attempt_def
      stop_connect_thread_def request_stop_def ws_app_def new_app_def new_session_manager_def
      new_network_manager_def new_file_manager_def run_job_def job_body_def run_connect_def
      connect_to_server_eq has_client_def good_outcome_def connected_app_def finish_connect_attempt_def
      linked_app_def)

lemma linked_app_reachable: "reachable_app d (linked_app d)"
proof -
  obtain b where b: "run_frame good_outcome (no_input\<lparr>connect_clicked := True\<rparr>) (ws_app d) = Some b"
    "connect_thread (net b) = Some Connect" "run_job good_outcome Connect b = Some (linked_app d)"
    using linked_app_steps by blast
  have "reachable_app d (ws_app d)"
    using reachable_app.step [OF reachable_app.start program_step.frame [OF _ ws_app_frame]] by simp
  then have "reachable_app d b"
    using reachable_app.step [OF _ program_step.frame [OF _ b(1)]] by simp
  then show ?thesis
    using reachable_app.step [OF _ program_step.job [OF b(2,3)]] by simp
qed

section \<open>Threads and connections\<close>

text \<open>C6: whatever the user does, whatever the server sends and however the threads interleave, a
  connect thread runs exactly while an attempt is under way, the polling thread runs only on a
  connection, a connection has a client, and a program in a session is connected and agrees with
  its client about the session, the member id and the role.\<close>

theorem connection_invariant:
  assumes "reachable_app d a"
  shows "(connecting (net a) \<longleftrightarrow> connect_thread (net a) \<noteq> None) \<and>
    (poll_thread (net a) \<longrightarrow> nm_connected (net a)) \<and> (nm_connected (net a) \<longrightarrow> has_client a) \<and>
    (sm_in_session (mgr a) \<longrightarrow> nm_connected (net a) \<and>
      (\<exists>cl. client (mgr a) = Some cl \<and> cl_session_id cl = sm_session_id (mgr a) \<and>
        cl_member_id cl = sm_member_id (mgr a) \<and> cl_host cl = sm_is_host (mgr a)))"
  using reachable_net_inv [OF assms]
  by (auto simp: net_inv_def link_inv_def session_agrees_def has_client_def)

lemma connection_invariant_witness:
  "nm_connected (net (linked_app quiet_disk)) \<and> has_client (linked_app quiet_disk)"
  using connection_invariant [OF linked_app_reachable [of quiet_disk]] by (simp add: linked_app_def)

text \<open>C7: in every reachable state of the program the pixels of the canvas are the picture of its
  history on a blank canvas, and the index of operation ids belongs to that history.\<close>

theorem program_shows_its_history:
  assumes "reachable_app d a"
  shows "canvas_inv (surface a)"
  by (rule reachable_canvas_inv [OF assms])

lemma program_shows_its_history_witness: "canvas_inv (surface (linked_app quiet_disk))"
  by (rule program_shows_its_history [OF linked_app_reachable])

section \<open>A lost connection\<close>

text \<open>C23: when a receive fails the connection is given up, but its client stays attached, and every
  later attempt finds it in its way: however the user clicks and whatever the threads do, the
  program is never connected again and never in a session, unless the local server is used.\<close>

theorem lost_connection_is_final:
  assumes "reachable_app d a" and "poll_thread (net a)" and "\<not> stop_poll (net a)" and "\<not> ok r"
    and "\<not> is_running (local_server (net a))" and "connect_thread (net a) \<noteq> Some Start_Local_Server"
    and "poll_turn r a = Some (b, going_on)"
    and "(program_step False)\<^sup>*\<^sup>* (map_net (\<lambda>n. n\<lparr>poll_thread := False\<rparr>) b) c"
  shows "\<not> nm_connected (net c) \<and> has_client c \<and> \<not> sm_in_session (mgr c) \<and>
    (\<forall>att. \<exists>c'. connect_to_server att c = Some (failure False rejected ''Already connected'', c'))"
proof -
  from poll_failure_loses [OF reachable_net_inv [OF assms(1)] assms(2-7)]
  have "lost (poll_ended b)" by simp
  from lost_steps [OF assms(8) this] have "lost c" .
  with lost_refused [OF this] lostD [OF this] show ?thesis by (auto simp: lost_def has_client_def)
qed

lemma lost_connection_is_final_witness:
  "\<exists>b. poll_turn (failure no_message receive_failed ''reset'') (linked_app quiet_disk) = Some (b, False) \<and>
    \<not> nm_connected (net b) \<and> has_client b"
proof -
  let ?r = "failure no_message receive_failed ''reset''"
  have "\<exists>b. poll_turn ?r (linked_app quiet_disk) = Some (b, False)"
    by (simp add: poll_turn_def poll_received_def linked_app_def new_network_manager_def new_app_def)
  then obtain b where b: "poll_turn ?r (linked_app quiet_disk) = Some (b, False)" by blast
  have "\<not> is_running (local_server (net (linked_app quiet_disk)))"
    by (simp add: linked_app_def new_network_manager_def is_running_def no_process_def)
  with lost_connection_is_final [OF linked_app_reachable _ _ _ _ _ b rtranclp.rtrancl_refl] b show ?thesis
    by (simp add: linked_app_def new_network_manager_def has_client_def)
qed

section \<open>Receiving\<close>

text \<open>The message of a frame.\<close>

definition message_of :: "u8 \<Rightarrow> bytes \<Rightarrow> Message" where
  "message_of oc p = \<lparr>header = \<lparr>opcode = oc, flags = 0, hdr_length = word_of_nat (length p)\<rparr>, payload = p\<rparr>"

lemma message_of_sel [simp]: "opcode (header (message_of oc p)) = oc" "payload (message_of oc p) = p"
  by (simp_all add: message_of_def)

lemma frame_message: "frame oc p = header_image (header (message_of oc p)) @ p"
  by (simp add: frame_def frame_image_def message_of_def)

lemma message_of_eq: "\<lparr>header = header (message_of oc p), payload = p\<rparr> = message_of oc p"
  by (simp add: message_of_def)

lemma receive_frame_tcp:
  assumes "length p < 2 ^ 32"
  shows "receive_msg_tcp fault (frame oc p @ rest) = Some (success (message_of oc p), rest)"
proof -
  let ?h = "header (message_of oc p)"
  have len: "unat (hdr_length ?h) = length p" using assms by (simp add: message_of_def unat_of_nat)
  have "stream_receive 6 (header_image ?h @ p @ rest) = Some (header_image ?h, p @ rest)"
    by (rule stream_receive_exact) (rule length_header_image)
  moreover have "stream_receive (length p) (p @ rest) = Some (p, rest)" by (rule stream_receive_exact) simp
  moreover have "hdr_length ?h > 0 \<longleftrightarrow> p \<noteq> []" using len by (simp add: word_less_nat_alt)
  ultimately show ?thesis
    using message_of_eq [of oc p]
    by (cases "p = []") (simp_all add: receive_msg_tcp_def frame_message parseHeader_frame len)
qed

lemma receive_frame_ws: "receive_msg_ws (success (frame oc p)) = Some (success (message_of oc p))"
  using message_of_eq [of oc p]
  by (cases "p = []")
    (simp_all add: receive_msg_ws_def frame_message parseHeader_image parseHeader_frame length_header_image)

text \<open>C21: a client reads exactly the messages that were sent to it, whatever the bytes after them,
  over TCP and over a websocket, and it answers on any bytes without undefined behaviour.\<close>

theorem client_receives_frames:
  assumes "length p < 2 ^ 32"
  shows "receive_msg_tcp fault (frame oc p @ rest) = Some (success (message_of oc p), rest) \<and>
    receive_msg_ws (success (frame oc p)) = Some (success (message_of oc p)) \<and>
    (\<forall>stream. \<exists>r. receive_msg_tcp fault stream = Some r)"
  using receive_frame_tcp [OF assms] receive_frame_ws receive_tcp_total by blast

lemma client_receives_frames_witness:
  "receive_msg_tcp (closed, ''gone'') (frame OP_ERROR_MSG [ERR_UNKNOWN, 33] @ [7]) =
    Some (success (message_of OP_ERROR_MSG [ERR_UNKNOWN, 33]), [7])"
  using client_receives_frames [of "[ERR_UNKNOWN, 33]" "(closed, ''gone'')" OP_ERROR_MSG "[7]"] by simp

section \<open>Joining a session\<close>

definition joined_payload :: "u32 \<Rightarrow> string \<Rightarrow> bytes" where
  "joined_payload i name = [NOTIF_MEMBER_JOINED] @ be32 i @ name_image name"

abbreviation show_member :: "u32 \<Rightarrow> string \<Rightarrow> session_manager \<Rightarrow> session_manager" where
  "show_member i name m \<equiv> m\<lparr>sm_members := AList.update i name (sm_members m)\<rparr>"

lemma poll_member_joined:
  assumes "client (mgr a) = Some cl" and "\<not> stop_poll (net a)" and "name_fits name"
  shows "poll_turn (success (message_of OP_NOTIFICATION (joined_payload i name))) a =
    Some (set_status ''A member joined'' (map_mgr (show_member i name) a), True)"
proof -
  have "parseMemberJoinedNotification (joined_payload i name) =
      Some (success \<lparr>mj_notif_code = NOTIF_MEMBER_JOINED, mj_member_id = i, mj_name = name\<rparr>)"
    using parse_named_image(3) [of "\<lparr>mj_notif_code = NOTIF_MEMBER_JOINED, mj_member_id = i, mj_name = name\<rparr>" "[]"]
      assms(3) by (simp add: joined_payload_def)
  moreover have "joined_payload i name \<noteq> []" "hd (joined_payload i name) = NOTIF_MEMBER_JOINED"
    by (simp_all add: joined_payload_def)
  ultimately show ?thesis
    using assms by (simp add: poll_turn_def poll_received_def sm_dispatch_def sm_handle_notification_def Let_def)
qed

text \<open>The members the server tells of, one notification each.\<close>

definition joined_messages :: "member list \<Rightarrow> Message list" where
  "joined_messages ms = map (\<lambda>m. message_of OP_NOTIFICATION (joined_payload (mem_id m) (mem_name m))) ms"

definition show_members :: "member list \<Rightarrow> (u32 \<times> string) list \<Rightarrow> (u32 \<times> string) list" where
  "show_members ms al = fold (\<lambda>m. AList.update (mem_id m) (mem_name m)) ms al"

lemma poll_members_joined:
  assumes "client (mgr a) = Some cl" and "\<not> stop_poll (net a)" and "\<forall>m \<in> set ms. name_fits (mem_name m)"
  shows "\<exists>t. poll_session (map success (joined_messages ms) @ rs) a =
    poll_session rs (set_status t (map_mgr (\<lambda>m. m\<lparr>sm_members := show_members ms (sm_members m)\<rparr>) a))"
  using assms
proof (induction ms arbitrary: a)
  case Nil
  have "set_status (status a) (map_mgr (\<lambda>m. m\<lparr>sm_members := show_members [] (sm_members m)\<rparr>) a) = a"
    by (simp add: show_members_def)
  then show ?case unfolding joined_messages_def by (metis append_Nil list.map(1))
next
  case (Cons m ms)
  let ?b = "set_status ''A member joined'' (map_mgr (show_member (mem_id m) (mem_name m)) a)"
  have turn: "poll_turn (success (message_of OP_NOTIFICATION (joined_payload (mem_id m) (mem_name m)))) a =
      Some (?b, True)"
    using Cons.prems by (intro poll_member_joined) simp_all
  have first: "poll_session (map success (joined_messages (m # ms)) @ rs) a =
      poll_session (map success (joined_messages ms) @ rs) ?b"
    by (simp add: joined_messages_def turn)
  have "\<exists>t. poll_session (map success (joined_messages ms) @ rs) ?b = poll_session rs
      (set_status t (map_mgr (\<lambda>m. m\<lparr>sm_members := show_members ms (sm_members m)\<rparr>) ?b))"
    by (rule Cons.IH) (use Cons.prems in simp_all)
  then show ?case unfolding first by (simp add: show_members_def)
qed

lemma map_of_other_members:
  "i \<notin> mem_id ` set ms \<Longrightarrow> map_of (show_members ms al) i = map_of al i"
  unfolding show_members_def by (induction ms arbitrary: al) (auto simp: update_conv')

lemma map_of_members:
  "distinct (map mem_id ms) \<Longrightarrow> m \<in> set ms \<Longrightarrow> map_of (show_members ms al) (mem_id m) = Some (mem_name m)"
proof (induction ms arbitrary: al)
  case (Cons x xs)
  have "show_members (x # xs) al = show_members xs (AList.update (mem_id x) (mem_name x) al)"
    by (simp add: show_members_def)
  with Cons show ?case by (auto simp: map_of_other_members update_conv')
qed simp

text \<open>The acknowledgement.\<close>

definition join_ack_message :: "u32 \<Rightarrow> Message" where
  "join_ack_message mid = message_of OP_ACK ([ACK_JOIN_OK] @ be32 mid)"

lemma poll_join_ack:
  assumes "client (mgr a) = Some cl" and "\<not> stop_poll (net a)" and "link_error cl = None"
    and "joining_state (mgr a) = joining_joining" and "sm_session_id (mgr a) = sid" and "sid \<noteq> 0"
  shows "\<exists>b. poll_turn (success (join_ack_message mid)) a = Some (b, True) \<and>
    sm_in_session (mgr b) \<and> \<not> sm_is_host (mgr b) \<and> sm_session_id (mgr b) = sid \<and> sm_member_id (mgr b) = mid \<and>
    sm_members (mgr b) = AList.update mid ''SketchSync'' (sm_members (mgr a)) \<and>
    app_sent b = app_sent a @ [frame OP_CANVAS_STATE_REQUEST []]"
proof -
  have "parseJoinAckMessage ([ACK_JOIN_OK] @ be32 mid) = Some (success \<lparr>ja_ack_code = ACK_JOIN_OK, ja_member_id = mid\<rparr>)"
    using parse_plain_image(4) [of "\<lparr>ja_ack_code = ACK_JOIN_OK, ja_member_id = mid\<rparr>" "[]"] by simp
  with assms show ?thesis
    by (simp add: poll_turn_def poll_received_def sm_dispatch_def sm_handle_ack_def join_ack_message_def set_session_info_def
        server_simps app_sent_def Let_def)
qed

text \<open>A successful job of the connect thread: the client is fresh and its join request is out.\<close>

definition join_payload :: "u32 \<Rightarrow> bytes" where
  "join_payload sid = be32 sid @ name_image ''SketchSync''"

lemma send_join_request_fresh:
  assumes "client (mgr a) = Some new_client"
  shows "\<exists>cl t. send_join_request sid a = Some (set_status t (map_mgr (\<lambda>m. m\<lparr>client := Some cl,
      joining_state := joining_joining, sm_session_id := sid\<rparr>) a)) \<and>
    link_error cl = None \<and> sent cl = [frame OP_JOIN (join_payload sid)]"
proof -
  have "send_join sid ''SketchSync'' new_client =
      Some (success True, after_send (frame OP_JOIN (join_payload sid)) new_client)"
    by (simp add: send_join_def serialize_named join_payload_def send_frame_eq send_answer_def new_client_def)
  moreover have "link_error new_client = None" "sent new_client = []" by (simp_all add: new_client_def)
  ultimately show ?thesis
    using assms by (auto simp: send_join_request_def Let_def)
qed

lemma connect_then_join:
  assumes "\<not> nm_connected (net a)" and "\<not> has_client a" and "ok (at_conn att)" and "\<not> at_stopped att"
  shows "\<exists>b cl. connect_then att t1 t2 (send_join_request sid) a = Some b \<and> client (mgr b) = Some cl \<and>
    link_error cl = None \<and> sent cl = [frame OP_JOIN (join_payload sid)] \<and>
    joining_state (mgr b) = joining_joining \<and> sm_session_id (mgr b) = sid \<and>
    nm_connected (net b) \<and> poll_thread (net b) \<and> \<not> stop_poll (net b)"
proof -
  let ?a = "report t2 (connected_app a)"
  have "connect_to_server att a = Some (success True, connected_app a)"
    using assms by (simp add: connect_to_server_eq)
  moreover have "client (mgr ?a) = Some new_client" by (simp add: connected_app_def)
  from send_join_request_fresh [OF this, of sid] obtain cl t where
    "send_join_request sid ?a = Some (set_status t (map_mgr (\<lambda>m. m\<lparr>client := Some cl,
      joining_state := joining_joining, sm_session_id := sid\<rparr>) ?a))"
    "link_error cl = None" "sent cl = [frame OP_JOIN (join_payload sid)]" by blast
  ultimately show ?thesis
    by (simp add: connect_then_def finish_connect_attempt_def Let_def connected_app_def)
qed

lemma join_begins:
  assumes "net_inv a" and "\<not> connecting (net a)" and "\<not> has_client a"
    and "from_chars (session_id_input (mgr a)) = Some sid" and "sid \<noteq> 0"
  shows "\<exists>b j. join_session a = Some b \<and> connect_thread (net b) = Some j \<and>
    (j = Discover_And_Join sid \<or> j = Ws_Join sid) \<and> \<not> nm_connected (net b) \<and> \<not> has_client b"
proof -
  have "connect_thread (net a) = None" "\<not> nm_connected (net a)" "\<not> sm_in_session (mgr a)"
    using assms(1-3) by (auto simp: net_inv_def link_inv_def has_client_def)
  with assms(2-5) show ?thesis
    by (auto simp: join_session_def async_tcp_discover_and_join_def async_ws_connect_and_join_def
        begin_attempt_def stop_connect_thread_def request_stop_def prepare_join_def has_client_def Let_def)
qed

lemma job_joins:
  assumes "\<not> nm_connected (net b)" and "\<not> has_client b" and "j = Discover_And_Join sid \<or> j = Ws_Join sid"
    and "ok (oc_discovery oc)" and "ok (at_conn (oc_attempt oc 0))" and "\<not> at_stopped (oc_attempt oc 0)"
  shows "\<exists>c cl. run_job oc j b = Some c \<and> client (mgr c) = Some cl \<and>
    link_error cl = None \<and> sent cl = [frame OP_JOIN (join_payload sid)] \<and>
    joining_state (mgr c) = joining_joining \<and> sm_session_id (mgr c) = sid \<and>
    nm_connected (net c) \<and> poll_thread (net c) \<and> \<not> stop_poll (net c)"
proof -
  obtain t1 t2 b' where "job_body oc j b = connect_then (oc_attempt oc 0) t1 t2 (send_join_request sid) b'"
    and b': "\<not> nm_connected (net b')" "\<not> has_client b'"
  proof (cases "j = Ws_Join sid")
    case True
    with that [of _ _ b] assms(1,2) show ?thesis by (simp add: job_body_def run_ws_join_def)
  next
    case False
    let ?b = "\<lambda>h p t. report t (set_endpoint h p protocol_tcp b)"
    have "\<not> nm_connected (net (?b h p t))" "\<not> has_client (?b h p t)" for h p t
      using assms(1,2) by (simp_all add: set_endpoint_def has_client_def)
    with that False assms(3,4) show ?thesis
      by (cases "val (oc_discovery oc)") (simp add: job_body_def run_discover_and_join_def Let_def)
  qed
  with connect_then_join [OF b' assms(5,6), of t1 t2 sid] show ?thesis
    by (auto simp: run_job_def)
qed

lemma joined_ids:
  assumes "server_inv s" and "sessions s sid = Some sess"
  shows "distinct (map mem_id (map snd (members sess)))"
    and "m \<in> set (map snd (members sess)) \<Longrightarrow> mem_id m \<noteq> next_member_id s"
    and "map snd (members (joined_session sess (next_member_id s) name)) =
      map snd (members sess) @ [\<lparr>mem_id = next_member_id s, mem_name = name, mem_role = participant,
        mem_session_id = sess_id sess\<rparr>]"
proof -
  have inv: "session_inv s sid sess" by (rule server_invD [OF assms])
  then have eq: "map mem_id (map snd (members sess)) = member_ids sess"
    by (auto simp: session_inv_def member_ids_def)
  show "distinct (map mem_id (map snd (members sess)))"
    unfolding eq by (rule session_invD(5) [OF inv])
  have fresh: "next_member_id s \<notin> set (member_ids sess)" by (rule server_inv_fresh_member [OF assms])
  then show "m \<in> set (map snd (members sess)) \<Longrightarrow> mem_id m \<noteq> next_member_id s"
    unfolding eq [symmetric] by force
  show "map snd (members (joined_session sess (next_member_id s) name)) =
      map snd (members sess) @ [\<lparr>mem_id = next_member_id s, mem_name = name, mem_role = participant,
        mem_session_id = sess_id sess\<rparr>]"
    using fresh by (simp add: joined_session_def emplace_def member_ids_def)
qed

text \<open>C13: joining a session, end to end. Once the session is found and the connection made, the
  client's request makes it the newest member of the session; the server's answers to it, in the
  order they are sent, bring the client into the session under the number of the session and its
  new id, show it every other member by name, and make it ask for the canvas.\<close>

theorem join_handshake:
  assumes "net_inv a" and "\<not> connecting (net a)" and "\<not> has_client a"
    and "from_chars (session_id_input (mgr a)) = Some sid" and "sid \<noteq> 0"
    and "ok (oc_discovery oc)" and "ok (at_conn (oc_attempt oc 0))" and "\<not> at_stopped (oc_attempt oc 0)"
    and "server_inv s" and "sessions s sid = Some sess"
    and "\<forall>m \<in> set (map snd (members sess)). name_fits (mem_name m)"
  shows "\<exists>b j c d s' answers. join_session a = Some b \<and> connect_thread (net b) = Some j \<and>
    run_job oc j b = Some c \<and> app_sent c = [frame OP_JOIN (join_payload sid)] \<and>
    dispatch (request OP_JOIN (join_payload sid)) (join_payload sid) k s ctx =
      Some (s', \<lparr>ctx_member_id = next_member_id s, ctx_session_id = sid\<rparr>) \<and>
    wire s' = wire s @ broadcast (connections s) (member_ids sess) (joined_frame (next_member_id s) ''SketchSync'') @
      map (\<lambda>m. (k, frame_image m)) answers \<and>
    sessions s' sid = Some (joined_session sess (next_member_id s) ''SketchSync'') \<and>
    poll_session (map success answers) c = Some d \<and> sm_in_session (mgr d) \<and> \<not> sm_is_host (mgr d) \<and>
    sm_session_id (mgr d) = sid \<and> sm_member_id (mgr d) = next_member_id s \<and>
    (\<forall>m \<in> set (map snd (members sess)). map_of (sm_members (mgr d)) (mem_id m) = Some (mem_name m)) \<and>
    app_sent d = app_sent c @ [frame OP_CANVAS_STATE_REQUEST []]"
proof -
  let ?mid = "next_member_id s"
  let ?ms = "map snd (members (joined_session sess ?mid ''SketchSync''))"
  let ?ack = "join_ack_message ?mid"
  let ?answers = "joined_messages ?ms @ [?ack]"
  obtain b j where b: "join_session a = Some b" "connect_thread (net b) = Some j"
    "j = Discover_And_Join sid \<or> j = Ws_Join sid" "\<not> nm_connected (net b)" "\<not> has_client b"
    using join_begins [OF assms(1-5)] by blast
  from job_joins [OF b(4,5,3) assms(6-8)] obtain c cl where
    c: "run_job oc j b = Some c" "client (mgr c) = Some cl" "link_error cl = None"
      "sent cl = [frame OP_JOIN (join_payload sid)]" "joining_state (mgr c) = joining_joining"
      "sm_session_id (mgr c) = sid" "\<not> stop_poll (net c)" by blast
  note ids = joined_ids [OF assms(9,10)]
  have parse: "parseJoinMessage (join_payload sid) =
      Some (success \<lparr>jm_session_id = sid, jm_name = ''SketchSync''\<rparr>)"
    using parse_named_image(2) [of "\<lparr>jm_session_id = sid, jm_name = ''SketchSync''\<rparr>" "[]"]
    by (simp add: join_payload_def)
  from dispatch_join_session [OF assms(9) parse assms(10), of k ctx] obtain s' where
    s': "dispatch (request OP_JOIN (join_payload sid)) (join_payload sid) k s ctx =
        Some (s', \<lparr>ctx_member_id = ?mid, ctx_session_id = sid\<rparr>)"
      "wire s' = wire s @ broadcast (connections s) (member_ids sess) (joined_frame ?mid ''SketchSync'') @
        map (\<lambda>m. (k, joined_frame (mem_id m) (mem_name m))) ?ms @ [(k, join_ack_frame ?mid)]"
      "sessions s' sid = Some (joined_session sess ?mid ''SketchSync'')" by simp
  have answers: "map (\<lambda>m. (k, frame_image m)) ?answers =
      map (\<lambda>m. (k, joined_frame (mem_id m) (mem_name m))) ?ms @ [(k, join_ack_frame ?mid)]"
    by (simp add: joined_messages_def joined_frame_def join_ack_frame_def joined_payload_def frame_def
        message_of_def join_ack_message_def)
  have fits: "\<forall>m \<in> set ?ms. name_fits (mem_name m)" using assms(11) by (simp add: ids(3))
  obtain t where t: "poll_session (map success ?answers) c = poll_session [success ?ack]
      (set_status t (map_mgr (\<lambda>m. m\<lparr>sm_members := show_members ?ms (sm_members m)\<rparr>) c))"
    using poll_members_joined [OF c(2,7) fits, of "[success ?ack]"] by auto
  let ?c = "set_status t (map_mgr (\<lambda>m. m\<lparr>sm_members := show_members ?ms (sm_members m)\<rparr>) c)"
  have "client (mgr ?c) = Some cl" "\<not> stop_poll (net ?c)" "joining_state (mgr ?c) = joining_joining"
    "sm_session_id (mgr ?c) = sid" using c by simp_all
  from poll_join_ack [OF this(1,2) c(3) this(3,4) assms(5), of ?mid] obtain d where
    d: "poll_turn (success ?ack) ?c = Some (d, True)" "sm_in_session (mgr d)" "\<not> sm_is_host (mgr d)"
      "sm_session_id (mgr d) = sid" "sm_member_id (mgr d) = ?mid"
      "sm_members (mgr d) = AList.update ?mid ''SketchSync'' (show_members ?ms (sm_members (mgr c)))"
      "app_sent d = app_sent ?c @ [frame OP_CANVAS_STATE_REQUEST []]" by auto
  have "map_of (sm_members (mgr d)) (mem_id m) = Some (mem_name m)" if "m \<in> set (map snd (members sess))" for m
  proof -
    have "show_members ?ms al = AList.update ?mid ''SketchSync'' (show_members (map snd (members sess)) al)" for al
      by (simp add: ids(3) show_members_def)
    with map_of_members [OF ids(1) that] ids(2) [OF that] show ?thesis by (simp add: d(6) update_conv')
  qed
  moreover have "poll_session (map success ?answers) c = Some d" unfolding t by (simp add: d(1))
  moreover have "app_sent ?c = app_sent c" "app_sent c = [frame OP_JOIN (join_payload sid)]"
    using c by (simp_all add: app_sent_def)
  ultimately show ?thesis using b(1,2) c(1) s' answers d(2-5,7) by (metis (no_types, lifting))
qed

definition joining_app :: app where
  "joining_app = map_mgr (\<lambda>m. m\<lparr>session_id_input := ''1''\<rparr>) (new_app quiet_disk)"

lemma joining_app_simps [simp]:
  "net_inv joining_app" "\<not> connecting (net joining_app)" "\<not> has_client joining_app"
  "from_chars (session_id_input (mgr joining_app)) = Some 1" "sm_in_session (mgr joining_app) = False"
  "nm_protocol (net joining_app) = protocol_tcp" "nm_connected (net joining_app) = False"
proof -
  have "from_chars ''1'' = Some 1"
    by (simp add: from_chars_def leading_digits_def is_digit_def digit_value_def digits_value_def)
  then show "from_chars (session_id_input (mgr joining_app)) = Some 1" by (simp add: joining_app_def)
qed (simp_all add: joining_app_def net_inv_def link_inv_def new_app_def new_network_manager_def
    new_session_manager_def session_agrees_def has_client_def)

lemma join_handshake_witness:
  "\<exists>c d answers. poll_session (map success answers) c = Some d \<and> sm_in_session (mgr d) \<and>
    sm_session_id (mgr d) = 1 \<and> sm_member_id (mgr d) = 3 \<and> map_of (sm_members (mgr d)) 1 = Some ''ada'' \<and>
    app_sent d = [frame OP_JOIN (join_payload 1), frame OP_CANVAS_STATE_REQUEST []]"
proof -
  have "map snd (members sample_session) = [\<lparr>mem_id = 1, mem_name = ''ada'', mem_role = host, mem_session_id = 1\<rparr>,
      \<lparr>mem_id = 2, mem_name = ''bob'', mem_role = participant, mem_session_id = 1\<rparr>]"
    by (simp add: sample_session_def joined_session_def new_session_def emplace_def)
  moreover have "sessions sample_server 1 = Some sample_session" "next_member_id sample_server = 3"
    by (simp_all add: sample_server_def)
  ultimately have sample: "map snd (members sample_session) = [\<lparr>mem_id = 1, mem_name = ''ada'', mem_role = host, mem_session_id = 1\<rparr>,
      \<lparr>mem_id = 2, mem_name = ''bob'', mem_role = participant, mem_session_id = 1\<rparr>]"
    "sessions sample_server 1 = Some sample_session" "next_member_id sample_server = 3" by simp_all
  have ok: "ok (oc_discovery good_outcome)" "ok (at_conn (oc_attempt good_outcome 0))"
    "\<not> at_stopped (oc_attempt good_outcome 0)" by (simp_all add: good_outcome_def)
  have fits: "\<forall>m \<in> set (map snd (members sample_session)). name_fits (mem_name m)" by (simp add: sample(1))
  from join_handshake [OF joining_app_simps(1-4) one_neq_zero ok sample_server_inv sample(2) fits, of 4 initial_context]
  obtain c d answers where "app_sent c = [frame OP_JOIN (join_payload 1)]"
    "poll_session (map success answers) c = Some d" "sm_in_session (mgr d)" "sm_session_id (mgr d) = 1"
    "sm_member_id (mgr d) = next_member_id sample_server"
    and shown: "\<forall>m \<in> set (map snd (members sample_session)). map_of (sm_members (mgr d)) (mem_id m) = Some (mem_name m)"
    and "app_sent d = app_sent c @ [frame OP_CANVAS_STATE_REQUEST []]" by blast
  moreover have "map_of (sm_members (mgr d)) 1 = Some ''ada''" using shown by (simp add: sample(1))
  ultimately show ?thesis using sample(3) by auto
qed

section \<open>Failures of the connect thread\<close>

text \<open>C29: a discovery that finds no host is never reported. Beginning an attempt leaves the stop flag
  set, a discovery does not clear it, and a failure is shown only while it is clear: the window says
  that it is looking for the host while the attempt is over and the connection back to
  disconnected.\<close>

theorem discovery_failure_unreported:
  assumes "net_inv a" and "\<not> connecting (net a)" and "\<not> nm_connected (net a)"
    and "nm_protocol (net a) = protocol_tcp" and "\<not> ok (oc_discovery oc)"
    and "from_chars (session_id_input (mgr a)) = Some sid" and "sid \<noteq> 0"
  shows "\<exists>b c. join_session a = Some b \<and> connect_thread (net b) = Some (Discover_And_Join sid) \<and>
    run_job oc (Discover_And_Join sid) b = Some c \<and> \<not> connecting (net c) \<and>
    nm_state (net c) = state_disconnected \<and> joining_state (mgr c) = joining_none \<and>
    status c = ''Discovering host for session #'' @ to_string (unat sid) @ '' via UDP...''"
proof -
  have "connect_thread (net a) = None" "\<not> sm_in_session (mgr a)"
    using assms(1-3) by (auto simp: net_inv_def link_inv_def)
  with assms(2-) show ?thesis
    by (simp add: join_session_def async_tcp_discover_and_join_def begin_attempt_def stop_connect_thread_def
        request_stop_def prepare_join_def run_job_def job_body_def run_discover_and_join_def report_def
        finish_connect_attempt_def clear_joining_state_def Let_def)
qed

lemma discovery_failure_unreported_witness:
  "\<exists>b c. join_session joining_app = Some b \<and>
    run_job (good_outcome\<lparr>oc_discovery := failure (''x'', 0) connect_failed ''not found''\<rparr>)
      (Discover_And_Join 1) b = Some c \<and> status c = ''Discovering host for session #1 via UDP...''"
proof -
  have "to_string 1 = ''1''" by (subst to_string.simps) code_simp
  with discovery_failure_unreported [of joining_app "good_outcome\<lparr>oc_discovery := failure (''x'', 0) connect_failed ''not found''\<rparr>" 1]
  show ?thesis by auto
qed

lemma create_session_waiting:
  assumes "connecting (net a)" and "\<not> sm_in_session (mgr a)" and "\<not> nm_connected (net a)"
  shows "\<exists>b. create_session a = Some b \<and> net b = net a"
  using assms by (simp add: create_session_def async_ws_connect_and_create_def begin_attempt_def)

lemma resolved_executable: "resolve_server_executable f p \<noteq> []"
  by (simp add: resolve_server_executable_def path_append_def Let_def)

lemma launch_server_stopped:
  assumes "\<not> process_running (local_server (net a))" and "oc_created oc" and "oc_exists oc exe" and "exe \<noteq> []"
  shows "\<exists>l. launch_server oc exe a = (success True, map_net (\<lambda>n. n\<lparr>stop_poll := False,
    local_server := \<lparr>process_line = Some l, process_running = True, process_alive = True\<rparr>\<rparr>) a)"
  using assms by (simp add: launch_server_def process_start_def) blast

text \<open>C28: a server that ends as soon as it is started counts as started. The result of the connection
  attempts starts as a success and the loop leaves it so when the process is not running; and since
  the process is never stopped, no server can be started again.\<close>
theorem dead_server_counts_as_started:
  assumes "connecting (net a)" and "\<not> sm_in_session (mgr a)" and "\<not> nm_connected (net a)"
    and "\<not> process_running (local_server (net a))" and "oc_created oc"
    and "oc_exists oc (resolve_server_executable (oc_exists oc) (oc_path oc))"
    and "oc_exists oc' (resolve_server_executable (oc_exists oc') (oc_path oc'))"
    and "\<not> at_running (oc_attempt oc 0)"
  shows "\<exists>b c. start_local_server oc a = Some (success True, b) \<and> \<not> nm_connected (net b) \<and>
    start_local_server oc' b = Some (failure False rejected ''server already running'', c)"
proof -
  let ?exe = "resolve_server_executable (oc_exists oc) (oc_path oc)"
  let ?exe' = "resolve_server_executable (oc_exists oc') (oc_path oc')"
  from launch_server_stopped [OF assms(4,5,6) resolved_executable] obtain l where
    launch: "launch_server oc ?exe a = (success True, map_net (\<lambda>n. n\<lparr>stop_poll := False,
      local_server := \<lparr>process_line = Some l, process_running = True, process_alive = True\<rparr>\<rparr>) a)" by blast
  define d where "d = map_net (\<lambda>n. n\<lparr>stop_poll := at_stop (oc_attempt oc 0),
      local_server := \<lparr>process_line = Some l, process_running = True, process_alive = False\<rparr>\<rparr>) a"
  have loop: "connect_attempts 15 (oc_attempt oc) (success False) (snd (launch_server oc ?exe a)) =
      Some (success False, d)"
    using assms(8) by (simp add: launch d_def before_attempt_def is_running_def numeral_eq_Suc Let_def)
  have "connecting (net d)" "\<not> sm_in_session (mgr d)" "\<not> nm_connected (net d)"
    using assms(1-3) by (simp_all add: d_def)
  from create_session_waiting [OF this] obtain b where b: "create_session d = Some b" "net b = net d" by blast
  have "start_local_server oc a = Some (success True, b)"
    using assms(4,6) loop b(1) by (simp add: start_local_server_def is_running_def launch Let_def)
  moreover have "start_local_server oc' b = Some (failure False rejected ''server already running'',
      snd (launch_server oc' ?exe' b))"
    using assms(7) b(2)
    by (simp add: start_local_server_def is_running_def launch_server_def process_start_def d_def Let_def)
  ultimately show ?thesis using b(2) assms(3) by (auto simp: d_def)
qed

lemma dead_server_counts_as_started_witness:
  "\<exists>b c. start_local_server (good_outcome\<lparr>oc_attempt := \<lambda>_. \<lparr>at_stop = False, at_running = False,
      at_conn = success True, at_stopped = False\<rparr>\<rparr>) (map_net (\<lambda>n. n\<lparr>connecting := True\<rparr>) joining_app) =
      Some (success True, b) \<and> \<not> nm_connected (net b) \<and>
    start_local_server good_outcome b = Some (failure False rejected ''server already running'', c)"
  by (rule dead_server_counts_as_started)
    (simp_all add: good_outcome_def joining_app_def new_app_def new_network_manager_def new_session_manager_def
      no_process_def)

end
