(* ===== verification/Replication.thy ===== *)
theory Replication
  imports Network_Properties
begin

text \<open>
  A session as a whole: the server of \<open>Server\<close>, a host and its members as programs of
  \<open>Program\<close>, and the frames between them. Each step is one frame of a program whose user
  draws, saves or chooses tools, one message that the server takes from a client, or one message
  that a client takes from the server; every connection keeps its order, and the steps interleave
  in any way. Below the steps: what the host and what a member do in one of them.
\<close>

section \<open>The session and its steps\<close>

text \<open>
  \<open>taken\<close> counts the frames of a program that the server has dispatched, \<open>seen\<close> the
  frames for a connection that its program has received.
\<close>

record shared =
  relay :: server
  contexts :: "conn \<Rightarrow> clientContext"
  programs :: "conn \<Rightarrow> app"
  taken :: "conn \<Rightarrow> nat"
  seen :: "conn \<Rightarrow> nat"

definition arrivals :: "conn \<Rightarrow> (conn \<times> bytes) list \<Rightarrow> bytes list" where
  "arrivals c ms = map snd (filter (\<lambda>m. fst m = c) ms)"

definition inbox :: "conn \<Rightarrow> server \<Rightarrow> bytes list" where
  "inbox c s = arrivals c (wire s)"

text \<open>The frames of a program that the server has yet to take, and those it has yet to receive.\<close>

definition pending :: "shared \<Rightarrow> conn \<Rightarrow> bytes list" where
  "pending w c = drop (taken w c) (app_sent (programs w c))"

definition waiting :: "shared \<Rightarrow> conn \<Rightarrow> bytes list" where
  "waiting w c = drop (seen w c) (inbox c (relay w))"

text \<open>A user who draws, chooses tools and saves.\<close>

definition only_draws :: "frame_input \<Rightarrow> bool" where
  "only_draws inp \<longleftrightarrow> \<not> open_clicked inp \<and> \<not> clear_clicked inp \<and> \<not> connect_clicked inp \<and>
     \<not> local_server_clicked inp \<and> \<not> protocol_clicked inp \<and> \<not> join_clicked inp \<and> \<not> create_clicked inp \<and>
     \<not> leave_clicked inp"

text \<open>The counters of a program: frames since its start, and strokes of the history.\<close>

definition counters_left :: "app \<Rightarrow> bool" where
  "counters_left a \<longleftrightarrow> next_operation_number (mgr a) \<noteq> - 1 \<and> length (snapshot (surface a)) + 2 < 2 ^ 32"

inductive shared_step :: "conn set \<Rightarrow> shared \<Rightarrow> shared \<Rightarrow> bool" for cs :: "conn set" where
  draw: "c \<in> cs \<Longrightarrow> only_draws inp \<Longrightarrow> counters_left (programs w c) \<Longrightarrow>
    run_frame oc inp (programs w c) = Some a \<Longrightarrow>
    shared_step cs w (w\<lparr>programs := (programs w)(c := a)\<rparr>)"
| serve: "c \<in> cs \<Longrightarrow> taken w c < length (app_sent (programs w c)) \<Longrightarrow>
    app_sent (programs w c) ! taken w c = header_image h @ p \<Longrightarrow>
    dispatch h p c (relay w) (contexts w c) = Some (s, ctx) \<Longrightarrow>
    shared_step cs w (w\<lparr>relay := s, contexts := (contexts w)(c := ctx), taken := (taken w)(c := Suc (taken w c))\<rparr>)"
| receive: "c \<in> cs \<Longrightarrow> seen w c < length (inbox c (relay w)) \<Longrightarrow> counters_left (programs w c) \<Longrightarrow>
    receive_msg_ws (success (inbox c (relay w) ! seen w c)) = Some r \<Longrightarrow>
    poll_turn r (programs w c) = Some (a, going_on) \<Longrightarrow>
    shared_step cs w (w\<lparr>programs := (programs w)(c := a), seen := (seen w)(c := Suc (seen w c))\<rparr>)"

inductive_cases shared_stepE: "shared_step cs w w'"

section \<open>Operation ids\<close>

definition owner_of :: "u64 \<Rightarrow> u32" where
  "owner_of i = ucast (drop_bit 32 i)"

definition number_of :: "u64 \<Rightarrow> u32" where
  "number_of i = ucast i"

lemma next_operation_id_parts:
  "owner_of (fst (next_operation_id a)) = member_id_or 1 a"
  "number_of (fst (next_operation_id a)) = next_operation_number (mgr a)"
proof -
  show "owner_of (fst (next_operation_id a)) = member_id_or 1 a"
    unfolding owner_of_def by (rule next_operation_id_owner)
  have "ucast (push_bit 32 (ucast (i :: u32)) OR ucast n :: u64) = n" for i n :: u32
    by (rule bit_word_eqI) (auto simp: bit_simps)
  then show "number_of (fst (next_operation_id a)) = next_operation_number (mgr a)"
    by (simp add: number_of_def next_operation_id_def Let_def)
qed

section \<open>A stroke in progress\<close>

text \<open>What the mouse never changes about a stroke.\<close>

definition tag :: "draw_operation \<Rightarrow> u64 \<times> u32 \<times> u32" where
  "tag op = (operation_id op, member_id op, seq op)"

lemma tag_points [simp]: "tag (op\<lparr>points := ps\<rparr>) = tag op"
  by (simp add: tag_def)

lemma process_canvas_input_cases:
  assumes "process_canvas_input input oid mid col thick commit active c tmp = Some (committed, c', stroke)"
  shows "committed = None \<and> c' = c \<and>
      (\<forall>st. stroke = Some st \<longrightarrow> tag st = (oid, mid, 0) \<or> (\<exists>old. tmp = Some old \<and> tag st = tag old)) \<or>
    stroke = None \<and> (\<exists>op. (tag op = (oid, mid, 0) \<or> (\<exists>old. tmp = Some old \<and> tag op = tag old)) \<and>
      (if commit then \<exists>sq. canvas_apply op c = Some (sq, c') \<and> committed = Some (op\<lparr>seq := sq\<rparr>)
       else c' = c \<and> committed = Some op))"
proof -
  define start where "start = (if tmp = None \<and> in_pressed input \<and> in_inside input
    then Some (default_draw_operation\<lparr>operation_id := oid, member_id := mid, tool := active,
      color := col, thickness := thick, points := [in_position input]\<rparr>) else tmp)"
  have tagged: "tag st = (oid, mid, 0) \<or> (\<exists>old. tmp = Some old \<and> tag st = tag old)" if "start = Some st" for st
    using that by (auto simp: start_def tag_def default_draw_operation_def split: if_split_asm)
  show ?thesis
  proof (cases start)
    case None
    with assms show ?thesis unfolding process_canvas_input_def start_def [symmetric] Let_def by simp
  next
    case (Some st)
    define extended where "extended = (if in_down input \<or> (in_released input \<and> in_inside input)
      then do { ps \<leftarrow> extend_points active (in_position input) (points st); Some (Some (st\<lparr>points := ps\<rparr>)) }
      else Some (Some st))"
    have run: "Option.bind extended (\<lambda>temporary. case temporary of
        None \<Rightarrow> Some (None, c, None)
      | Some committed \<Rightarrow>
          if \<not> in_released input then Some (None, c, Some committed)
          else (let committed = (if length (points committed) = 1
              then committed\<lparr>points := points committed @ [hd (points committed)]\<rparr> else committed)
            in if commit then do { (sq, surface) \<leftarrow> canvas_apply committed c; Some (Some (committed\<lparr>seq := sq\<rparr>), surface, None) }
               else Some (Some committed, c, None))) = Some (committed, c', stroke)"
      using assms Some unfolding process_canvas_input_def start_def [symmetric] extended_def by (simp add: Let_def)
    then obtain st1 where st1: "extended = Some (Some st1)" "tag st1 = tag st"
      by (auto simp: extended_def split: if_split_asm elim!: bind_eq_SomeE)
    define op where "op = (if length (points st1) = 1
      then st1\<lparr>points := points st1 @ [hd (points st1)]\<rparr> else st1)"
    have tags: "tag st1 = (oid, mid, 0) \<or> (\<exists>old. tmp = Some old \<and> tag st1 = tag old)"
      "tag op = (oid, mid, 0) \<or> (\<exists>old. tmp = Some old \<and> tag op = tag old)"
      using tagged [OF Some] st1(2) by (simp_all add: op_def)
    show ?thesis
    proof (cases "in_released input")
      case False
      with run st1(1) tags(1) show ?thesis by auto
    next
      case True
      with run st1(1) have "if commit then do { (sq, surface) \<leftarrow> canvas_apply op c; Some (Some (op\<lparr>seq := sq\<rparr>), surface, None) }
          = Some (committed, c', stroke) else Some (Some op, c, None) = Some (committed, c', stroke)"
        unfolding op_def by (simp add: Let_def split: if_split_asm)
      with tags(2) show ?thesis by (auto split: if_split_asm elim!: bind_eq_SomeE)
    qed
  qed
qed

section \<open>A frame in which the user draws\<close>

text \<open>What drawing and receiving look at.\<close>

definition same_session :: "app \<Rightarrow> app \<Rightarrow> bool" where
  "same_session a b \<longleftrightarrow> surface b = surface a \<and> client (mgr b) = client (mgr a) \<and>
     sm_in_session (mgr b) = sm_in_session (mgr a) \<and> joining_state (mgr b) = joining_state (mgr a) \<and>
     next_operation_number (mgr b) = next_operation_number (mgr a) \<and>
     stop_poll (net b) = stop_poll (net a) \<and> active_stroke b = active_stroke a"

lemma same_session_refl [simp]: "same_session a a"
  by (simp add: same_session_def)

lemma same_session_trans: "same_session a b \<Longrightarrow> same_session b c \<Longrightarrow> same_session a c"
  by (simp add: same_session_def)

lemma file_result_same [simp]: "same_session a (file_result shown fm d a)"
  by (cases shown) (simp_all add: file_result_def same_session_def)

lemma saves_same_session:
  "press_save_as ch a = Some b \<Longrightarrow> same_session a b" "save_current a = Some b \<Longrightarrow> same_session a b"
  "press_save ch a = Some b \<Longrightarrow> same_session a b" "press_auto_save ch a = Some b \<Longrightarrow> same_session a b"
  "save_after_sync a = Some b \<Longrightarrow> same_session a b"
proof -
  show as: "press_save_as ch a = Some b \<Longrightarrow> same_session a b" for a b
    by (auto simp: press_save_as_def elim!: bind_eq_SomeE)
  show current: "save_current a = Some b \<Longrightarrow> same_session a b" for a b
    by (auto simp: save_current_def elim!: bind_eq_SomeE)
  show "press_save ch a = Some b \<Longrightarrow> same_session a b"
    using as current by (auto simp: press_save_def split: if_split_asm)
  show "press_auto_save ch a = Some b \<Longrightarrow> same_session a b"
    by (auto simp: press_auto_save_def elim!: bind_eq_SomeE)
  show "save_after_sync a = Some b \<Longrightarrow> same_session a b"
    using current [of "a\<lparr>files := snd (consume_synced_save (files a))\<rparr>" b]
    by (auto simp: save_after_sync_def same_session_def Let_def split: prod.splits if_split_asm)
qed

lemma file_buttons_same_session:
  assumes "only_draws inp" and "file_buttons inp a = Some b"
  shows "same_session a b"
proof -
  obtain a1 a2 a3 where
    "on_click (save_clicked inp) (press_save (save_choice inp)) a = Some a1"
    "on_click (save_as_clicked inp) (press_save_as (save_choice inp)) a1 = Some a2"
    "on_click (auto_save_clicked inp) (press_auto_save (save_choice inp)) a2 = Some a3"
    "save_after_sync a3 = Some b"
    using assms by (auto simp: file_buttons_def only_draws_def elim!: bind_eq_SomeE)
  then have "same_session a a1" "same_session a1 a2" "same_session a2 a3" "same_session a3 b"
    by (auto split: if_split_asm dest: saves_same_session)
  then show ?thesis by (blast intro: same_session_trans)
qed

lemma draws_frame:
  assumes "only_draws inp" and "run_frame oc inp a = Some a'"
  shows "\<exists>b. same_session a b \<and> (a' = b\<lparr>dirty := False\<rparr> \<or>
    (\<exists>input a2. app_process_canvas_input input b = Some a2 \<and> a' = a2\<lparr>dirty := False\<rparr>))"
proof -
  obtain a1 where a1: "file_buttons inp a = Some a1"
    using assms(2) by (auto simp: run_frame_def frame_body_def Let_def elim!: bind_eq_SomeE)
  define b where "b = drawing_buttons inp (input_fields inp (nm_protocol (net a)) a1)"
  have "session_buttons inp a1 = Some a1" using assms(1) by (simp add: session_buttons_def only_draws_def)
  with assms a1 obtain a2 where a2: "(if minimized inp then Some b
      else app_process_canvas_input ((mouse_input inp)\<lparr>in_tool := active_tool b\<rparr>) b) = Some a2" "a' = a2\<lparr>dirty := False\<rparr>"
    unfolding b_def by (auto simp: run_frame_def frame_body_def network_buttons_def only_draws_def Let_def elim!: bind_eq_SomeE)
  have "same_session a1 b" by (simp add: b_def drawing_buttons_def input_fields_def same_session_def Let_def)
  with file_buttons_same_session [OF assms(1) a1] have "same_session a b" by (rule same_session_trans)
  with a2 show ?thesis by (cases "minimized inp") auto
qed

section \<open>The host draws\<close>

lemma serialized_fits: "serializeDrawOperation op = Some p \<Longrightarrow> points_fit op"
  using serializeDrawOperation_overflow [of op] by (cases "points_fit op") simp_all

text \<open>
  A host whose own ids are fresh: what it has numbered so far is behind its counter, and the stroke
  in its hand is not on the canvas.
\<close>

definition host_ready :: "u32 \<Rightarrow> app \<Rightarrow> bool" where
  "host_ready hm a \<longleftrightarrow> hosts a \<and> sm_in_session (mgr a) \<and> member_id_or 1 a = hm \<and>
     (\<forall>op \<in> set (snapshot (surface a)). owner_of (operation_id op) = hm \<longrightarrow>
        number_of (operation_id op) < next_operation_number (mgr a)) \<and>
     (\<forall>st. active_stroke a = Some st \<longrightarrow> owner_of (operation_id st) = hm \<and> member_id st = hm \<and> seq st = 0 \<and>
        number_of (operation_id st) < next_operation_number (mgr a) \<and>
        operation_id st \<notin> operation_id ` set (snapshot (surface a)))"

lemma same_session_host:
  assumes "same_session a b"
  shows "host_ready hm b = host_ready hm a" "counters_left b = counters_left a" "app_sent b = app_sent a"
    "host_owns_canvas b = host_owns_canvas a" "member_id_or d b = member_id_or d a"
    "follows ops k b = follows ops k a"
  using assms
  by (simp_all add: same_session_def host_ready_def hosts_def member_id_or_def counters_left_def
      app_sent_def host_owns_canvas_def follows_def)

lemma dirty_session [simp]: "same_session a (a\<lparr>dirty := d\<rparr>)"
  by (simp add: same_session_def)

text \<open>The log of a host grows by strokes, each sent when it is appended; a state is the whole log.\<close>

definition host_grows :: "app \<Rightarrow> app \<Rightarrow> bool" where
  "host_grows a a' \<longleftrightarrow>
     snapshot (surface a') = snapshot (surface a) \<and> app_sent a' = app_sent a \<or>
     (\<exists>op. snapshot (surface a') = snapshot (surface a) @ [op] \<and>
        app_sent a' = app_sent a @ [frame OP_DRAW (draw_image op)]) \<or>
     snapshot (surface a') = snapshot (surface a) \<and>
       app_sent a' = app_sent a @ [frame OP_CANVAS_STATE (canvas_state_image (snapshot (surface a)))]"

lemma host_commits:
  assumes ready: "hosts a" "sm_in_session (mgr a)" "length (snapshot (surface a)) + 2 < 2 ^ 32"
    and op: "seq op = 0" "member_id op = member_id_or 1 a"
      "operation_id op \<notin> operation_id ` set (snapshot (surface a))"
    and applied: "canvas_apply op (surface a) = Some (sq, c)"
    and sent: "broadcast_draw (op\<lparr>seq := sq\<rparr>) False (a\<lparr>surface := c, active_stroke := None, files := fm, dirty := d\<rparr>) = Some a'"
  shows "hosts a' \<and> sm_in_session (mgr a') \<and> member_id_or 1 a' = member_id_or 1 a \<and> active_stroke a' = None \<and>
    next_operation_number (mgr a') = next_operation_number (mgr a) \<and>
    snapshot (surface a') = snapshot (surface a) @ [op\<lparr>seq := sq\<rparr>] \<and>
    app_sent a' = app_sent a @ [frame OP_DRAW (draw_image (op\<lparr>seq := sq\<rparr>))]"
proof -
  obtain cl where cl: "client (mgr a) = Some cl" "cl_host cl" "link_error cl = None"
    using ready(1) by (auto simp: hosts_def)
  have unknown: "\<not> known_id op (snapshot (surface a))" using op(3) by (auto simp: known_id_def ids_of_def)
  from canvas_apply_host [OF _ _ op(1) unknown ready(3)] ready(1) applied have
    c: "canvas_inv c" "snapshot c = snapshot (surface a) @ [op\<lparr>seq := sq\<rparr>]" "numbered (snapshot c) (next_sequence c)"
    by (auto simp: hosts_def)
  have mine: "op\<lparr>seq := sq, member_id := cl_member_id cl\<rparr> = op\<lparr>seq := sq\<rparr>"
    using op(2) cl(1) by (simp add: member_id_or_def)
  from sent cl(1) ready(2) mine obtain r cl' where
    out: "send_draw (op\<lparr>seq := sq\<rparr>) cl = Some (r, cl')"
    and a': "a' = with_client cl' (a\<lparr>surface := c, active_stroke := None, files := fm, dirty := d\<rparr>)"
    by (auto simp: broadcast_draw_def elim!: bind_eq_SomeE)
  have fit: "points_fit (op\<lparr>seq := sq\<rparr>)"
    using out mine serialized_fits by (auto simp: send_draw_def elim!: bind_eq_SomeE)
  have cl': "cl' = after_send (frame OP_DRAW (draw_image (op\<lparr>seq := sq\<rparr>))) cl"
    using out fit mine by (simp add: send_draw_eqs(2))
  have "distinct_ids (snapshot c)" using distinct_ids_snoc [OF _ unknown] ready(1) c(2) by (simp add: hosts_def)
  moreover have "list_all points_fit (snapshot c)" using ready(1) c(2) fit by (simp add: hosts_def)
  ultimately show ?thesis using c cl ready by (simp add: a' cl' hosts_def member_id_or_def app_sent_def)
qed

lemma host_input:
  assumes ready: "host_ready hm a" and left: "counters_left a"
    and input: "app_process_canvas_input input a = Some a'"
  shows "host_ready hm a' \<and> host_grows a a'"
proof -
  obtain oid b where id: "next_operation_id a = (oid, b)" by (cases "next_operation_id a")
  have b: "b = map_mgr (\<lambda>m. m\<lparr>next_operation_number := next_operation_number (mgr a) + 1\<rparr>) a"
    using id by (auto simp: next_operation_id_def Let_def)
  have oid: "owner_of oid = hm" "number_of oid = next_operation_number (mgr a)"
    using next_operation_id_parts [of a] ready by (simp_all add: id host_ready_def)
  have bump: "next_operation_number (mgr a) < next_operation_number (mgr a) + 1"
    using left by (intro counter_less) (simp add: counters_left_def)
  have owns: "host_owns_canvas b" using ready by (auto simp: host_ready_def hosts_def host_owns_canvas_def b)
  have hosts: "hosts b" "sm_in_session (mgr b)" "member_id_or 1 b = hm"
    using ready by (auto simp: host_ready_def hosts_def member_id_or_def b)
  have room: "length (snapshot (surface b)) + 2 < 2 ^ 32" using left by (simp add: counters_left_def b)
  have old: "number_of (operation_id op) < next_operation_number (mgr a)"
    if "op \<in> set (snapshot (surface a))" "owner_of (operation_id op) = hm" for op
    using ready that by (simp add: host_ready_def)
  then have new: "oid \<notin> operation_id ` set (snapshot (surface a))" using oid by fastforce
  have fresh: "owner_of (operation_id st) = hm \<and> member_id st = hm \<and> seq st = 0 \<and>
      number_of (operation_id st) < next_operation_number (mgr a) + 1 \<and>
      operation_id st \<notin> operation_id ` set (snapshot (surface a))"
    if "tag st = (oid, owner_of oid, 0) \<or> (\<exists>old. active_stroke a = Some old \<and> tag st = tag old)" for st
    using that
  proof (elim disjE exE conjE)
    assume "tag st = (oid, owner_of oid, 0)"
    with oid new bump show ?thesis by (simp add: tag_def)
  next
    fix old assume "active_stroke a = Some old" "tag st = tag old"
    with ready show ?thesis by (simp add: tag_def host_ready_def less_trans [OF _ bump])
  qed
  from input owns obtain committed c stroke where
    run: "process_canvas_input input oid (owner_of oid) (active_color b) (active_thickness b) True
        (active_tool b) (surface b) (active_stroke b) = Some (committed, c, stroke)"
    and out: "(case committed of None \<Rightarrow> Some (b\<lparr>surface := c, active_stroke := stroke\<rparr>)
      | Some op \<Rightarrow> broadcast_draw op False (b\<lparr>surface := c, active_stroke := stroke,
          files := enqueue_if_auto_save op (files b), dirty := True\<rparr>)) = Some a'"
    by (auto simp: app_process_canvas_input_def id owner_of_def Let_def elim!: bind_eq_SomeE cong: option.case_cong)
  have stroke_b: "active_stroke b = active_stroke a" by (simp add: b)
  note cases = process_canvas_input_cases [OF run, unfolded stroke_b if_True]
  from cases show ?thesis
  proof (rule disjE)
    assume "committed = None \<and> c = surface b \<and> (\<forall>st. stroke = Some st \<longrightarrow>
      tag st = (oid, owner_of oid, 0) \<or> (\<exists>old. active_stroke a = Some old \<and> tag st = tag old))"
    then have a': "a' = b\<lparr>active_stroke := stroke\<rparr>" and st: "\<And>st. stroke = Some st \<Longrightarrow>
      tag st = (oid, owner_of oid, 0) \<or> (\<exists>old. active_stroke a = Some old \<and> tag st = tag old)"
      using out by auto
    have "host_grows a a'" by (simp add: host_grows_def a' b app_sent_def)
    moreover have "host_ready hm a'"
      using hosts fresh [OF st] less_trans [OF old bump] by (simp add: host_ready_def hosts_def member_id_or_def a' b)
    ultimately show ?thesis by simp
  next
    assume "stroke = None \<and> (\<exists>op. (tag op = (oid, owner_of oid, 0) \<or>
        (\<exists>old. active_stroke a = Some old \<and> tag op = tag old)) \<and>
      (\<exists>sq. canvas_apply op (surface b) = Some (sq, c) \<and> committed = Some (op\<lparr>seq := sq\<rparr>)))"
    then obtain op sq where "stroke = None"
      and st: "tag op = (oid, owner_of oid, 0) \<or> (\<exists>old. active_stroke a = Some old \<and> tag op = tag old)"
      and sq: "canvas_apply op (surface b) = Some (sq, c)" "committed = Some (op\<lparr>seq := sq\<rparr>)" by blast
    note op = fresh [OF st]
    have sent: "broadcast_draw (op\<lparr>seq := sq\<rparr>) False (b\<lparr>surface := c, active_stroke := None,
        files := enqueue_if_auto_save (op\<lparr>seq := sq\<rparr>) (files b), dirty := True\<rparr>) = Some a'"
      using out \<open>stroke = None\<close> sq(2) by simp
    have "seq op = 0" "member_id op = member_id_or 1 b" "operation_id op \<notin> operation_id ` set (snapshot (surface b))"
      using op hosts(3) by (simp_all add: b)
    from host_commits [OF hosts(1,2) room this sq(1) sent] have
      committed: "hosts a'" "sm_in_session (mgr a')" "member_id_or 1 a' = hm" "active_stroke a' = None"
      "next_operation_number (mgr a') = next_operation_number (mgr a) + 1"
      "snapshot (surface a') = snapshot (surface a) @ [op\<lparr>seq := sq\<rparr>]"
      "app_sent a' = app_sent a @ [frame OP_DRAW (draw_image (op\<lparr>seq := sq\<rparr>))]"
      using hosts(3) by (simp_all add: b app_sent_def)
    have "number_of (operation_id x) < next_operation_number (mgr a) + 1"
      if "x \<in> set (snapshot (surface a'))" "owner_of (operation_id x) = hm" for x
    proof -
      have "x \<in> set (snapshot (surface a)) \<or> x = op\<lparr>seq := sq\<rparr>" using that(1) by (auto simp: committed(6))
      then show "number_of (operation_id x) < next_operation_number (mgr a) + 1"
        using old [OF _ that(2)] op less_trans [OF _ bump] by auto
    qed
    then have "host_ready hm a'" using committed(1-5) by (simp add: host_ready_def)
    moreover have "host_grows a a'" using committed(6,7) by (simp add: host_grows_def)
    ultimately show ?thesis by simp
  qed
qed

lemma host_draws:
  assumes "host_ready hm a" and "counters_left a" and "only_draws inp" and "run_frame oc inp a = Some a'"
  shows "host_ready hm a' \<and> host_grows a a'"
proof -
  from draws_frame [OF assms(3,4)] obtain b where b: "same_session a b" "a' = b\<lparr>dirty := False\<rparr> \<or>
      (\<exists>input a2. app_process_canvas_input input b = Some a2 \<and> a' = a2\<lparr>dirty := False\<rparr>)" by blast
  have same: "snapshot (surface b) = snapshot (surface a)" "app_sent b = app_sent a"
    using b(1) same_session_host(3) [OF b(1)] by (simp_all add: same_session_def)
  have ready: "host_ready hm b" "counters_left b" using assms(1,2) same_session_host [OF b(1)] by simp_all
  from b(2) show ?thesis
  proof (elim disjE exE conjE)
    assume "a' = b\<lparr>dirty := False\<rparr>"
    then show ?thesis using ready(1) same by (simp add: same_session_host(1) [OF dirty_session] host_grows_def app_sent_def)
  next
    fix input a2 assume "app_process_canvas_input input b = Some a2" and a': "a' = a2\<lparr>dirty := False\<rparr>"
    from host_input [OF ready this(1)] same show ?thesis
      by (simp add: a' same_session_host(1) [OF dirty_session] host_grows_def same_session_host(3) [OF dirty_session])
  qed
qed

section \<open>The host receives\<close>

text \<open>What no stroke, state or error changes.\<close>

definition same_member :: "app \<Rightarrow> app \<Rightarrow> bool" where
  "same_member a a' \<longleftrightarrow> sm_in_session (mgr a') = sm_in_session (mgr a) \<and> active_stroke a' = active_stroke a \<and>
     next_operation_number (mgr a') = next_operation_number (mgr a) \<and> (\<forall>d. member_id_or d a' = member_id_or d a)"

lemma draw_same_member:
  assumes "sm_handle_draw p a = Some a'"
  shows "same_member a a'"
proof -
  have saved: "active_stroke b' = active_stroke b \<and> mgr b' = mgr b" if "apply_and_save op b = Some (op', b')" for op b op' b'
    using that by (auto simp: apply_and_save_def Let_def elim!: bind_eq_SomeE)
  have received: "same_member b b'" if "receive_draw op cl b = Some b'" "client (mgr b) = Some cl" for op cl b b'
    using that
    by (auto simp: receive_draw_def Let_def same_member_def member_id_or_def same_client_def
        split: if_split_asm elim!: bind_eq_SomeE dest!: saved request_client)
  have pending: "same_member a b' \<longleftrightarrow> same_member (map_mgr (\<lambda>m. m\<lparr>pending_operations := x\<rparr>) a) b'" for b' x
    by (simp add: same_member_def member_id_or_def)
  from assms show ?thesis
    by (auto simp: sm_handle_draw_def Let_def split: if_split_asm option.split_asm elim!: bind_eq_SomeE
        dest!: received intro: pending [THEN iffD2]) (simp_all add: same_member_def member_id_or_def)
qed

lemma state_same_member: "sm_handle_canvas_state p a = Some a' \<Longrightarrow> same_member a a'"
  by (auto simp: sm_handle_canvas_state_def same_member_def member_id_or_def split: if_split_asm elim!: bind_eq_SomeE)

lemma error_same_member: "sm_handle_error p a = Some a' \<Longrightarrow> same_member a a'"
  by (auto simp: sm_handle_error_def clear_joining_state_def same_member_def member_id_or_def
      split: if_split_asm elim!: bind_eq_SomeE)

lemma error_keeps_app:
  assumes "sm_handle_error p a = Some a'"
  shows "surface a' = surface a" "client (mgr a') = client (mgr a)" "net a' = net a"
  using assms by (auto simp: sm_handle_error_def clear_joining_state_def split: if_split_asm elim!: bind_eq_SomeE)

text \<open>What the server passes to the host when the members draw.\<close>

definition to_host :: "u32 \<Rightarrow> bytes \<Rightarrow> bool" where
  "to_host hm f \<longleftrightarrow>
     (\<exists>op. valid_operation False op \<and> owner_of (operation_id op) \<noteq> hm \<and> f = frame OP_DRAW (draw_image op)) \<or>
     f = frame OP_CANVAS_STATE_REQUEST [] \<or> (\<exists>e t. f = error_frame e t)"

lemma receive_turn:
  assumes "receive_msg_ws (success (frame oc p)) = Some r" and "poll_turn r a = Some (a', go)"
    and "client (mgr a) = Some cl" and "\<not> stop_poll (net a)"
  shows "sm_dispatch cl (message_of oc p) a = Some a'"
  using assms by (auto simp: receive_frame_ws poll_turn_def poll_received_def elim!: bind_eq_SomeE)

lemma host_receives:
  assumes ready: "host_ready hm a" and left: "counters_left a" and f: "to_host hm f"
    and msg: "receive_msg_ws (success f) = Some r" "poll_turn r a = Some (a', go)"
  shows "host_ready hm a' \<and> host_grows a a'"
proof -
  obtain cl where cl: "client (mgr a) = Some cl" "cl_host cl" "link_error cl = None" and go: "\<not> stop_poll (net a)"
    using ready by (auto simp: host_ready_def hosts_def)
  note turn = receive_turn [OF _ msg(2) cl(1) go]
  from f consider (draw) op where "valid_operation False op" "owner_of (operation_id op) \<noteq> hm" "f = frame OP_DRAW (draw_image op)"
    | (request) "f = frame OP_CANVAS_STATE_REQUEST []" | (error) e t where "f = error_frame e t"
    unfolding to_host_def by blast
  then show ?thesis
  proof cases
    case draw
    have step: "sm_handle_draw (draw_image op) a = Some a'" using turn [of OP_DRAW "draw_image op"] msg(1) draw(3) by (simp add: sm_dispatch_def)
    note same = draw_same_member [OF step]
    have h: "hosts a" "length (snapshot (surface a)) + 2 < 2 ^ 32"
      using ready left by (simp_all add: host_ready_def counters_left_def)
    from hosts_draw [OF h(1) draw(1) h(2)] step have after: "hosts a'"
      "snapshot (surface a') = snapshot (surface a) \<and> app_sent a' = app_sent a \<or>
        snapshot (surface a') = snapshot (surface a) @ [op\<lparr>seq := next_sequence (surface a)\<rparr>] \<and>
        app_sent a' = app_sent a @ [frame OP_DRAW (draw_image (op\<lparr>seq := next_sequence (surface a)\<rparr>))]"
      by (auto split: if_split_asm)
    have "host_ready hm a'" using ready same after(1,2) draw(2) by (auto simp: host_ready_def same_member_def)
    with after(2) show ?thesis by (auto simp: host_grows_def)
  next
    case request
    have fits: "list_all points_fit (snapshot (surface a))" using ready by (simp add: host_ready_def hosts_def)
    have "send_canvas_state (snapshot (surface a)) cl = Some (send_answer cl,
        after_send (frame OP_CANVAS_STATE (canvas_state_image (snapshot (surface a)))) cl)"
      using cl serializeCanvasState_image [of "\<lparr>cs_operations = snapshot (surface a)\<rparr>"] fits
      by (simp add: send_canvas_state_def send_frame_eq)
    then have a': "a' = with_client (after_send (frame OP_CANVAS_STATE (canvas_state_image (snapshot (surface a)))) cl) a"
      using turn [of OP_CANVAS_STATE_REQUEST "[]"] msg(1) request cl by (simp add: sm_dispatch_def)
    show ?thesis using ready cl by (simp add: a' host_ready_def hosts_def member_id_or_def host_grows_def app_sent_def)
  next
    case error
    have step: "sm_handle_error (e # str_bytes t) a = Some a'"
      using turn [of OP_ERROR_MSG "e # str_bytes t"] msg(1) error by (simp add: sm_dispatch_def error_frame_def)
    show ?thesis using ready error_same_member [OF step] error_keeps_app [OF step]
      by (simp add: host_ready_def hosts_def same_member_def host_grows_def app_sent_def)
  qed
qed

section \<open>A member draws and receives\<close>

definition member_ready :: "u32 \<Rightarrow> app \<Rightarrow> bool" where
  "member_ready hm a \<longleftrightarrow> member_id_or 1 a \<noteq> hm \<and>
     (\<forall>st. active_stroke a = Some st \<longrightarrow> owner_of (operation_id st) \<noteq> hm)"

text \<open>What a member sends when it draws or finds that it misses a stroke.\<close>

definition from_member :: "u32 \<Rightarrow> bytes \<Rightarrow> bool" where
  "from_member hm f \<longleftrightarrow>
     (\<exists>op. points_fit op \<and> owner_of (operation_id op) \<noteq> hm \<and> f = frame OP_DRAW (draw_image op)) \<or>
     f = frame OP_CANVAS_STATE_REQUEST []"

definition member_sends :: "u32 \<Rightarrow> app \<Rightarrow> app \<Rightarrow> bool" where
  "member_sends hm a a' \<longleftrightarrow> (\<exists>fs. app_sent a' = app_sent a @ fs \<and> list_all (from_member hm) fs)"

lemma same_member_ready: "same_member a a' \<Longrightarrow> member_ready hm a' = member_ready hm a"
  by (simp add: same_member_def member_ready_def)

lemma member_sends_nothing: "app_sent a' = app_sent a \<Longrightarrow> member_sends hm a a'"
  by (simp add: member_sends_def)

lemma member_dirty [simp]:
  "member_ready hm (a\<lparr>dirty := d\<rparr>) = member_ready hm a" "app_sent (a\<lparr>dirty := d\<rparr>) = app_sent a"
  "member_sends hm a (b\<lparr>dirty := d\<rparr>) = member_sends hm a b"
  by (simp_all add: member_ready_def member_id_or_def app_sent_def member_sends_def)

lemma member_input:
  assumes ready: "member_ready hm a" "follows L k a"
    and input: "app_process_canvas_input input a = Some a'"
  shows "member_ready hm a' \<and> follows L k a' \<and> member_sends hm a a'"
proof -
  obtain cl where cl: "client (mgr a) = Some cl" "\<not> cl_host cl" using ready(2) by (auto simp: follows_def)
  obtain oid b where id: "next_operation_id a = (oid, b)" by (cases "next_operation_id a")
  have b: "b = map_mgr (\<lambda>m. m\<lparr>next_operation_number := next_operation_number (mgr a) + 1\<rparr>) a"
    using id by (auto simp: next_operation_id_def Let_def)
  have oid: "owner_of oid \<noteq> hm" using next_operation_id_parts(1) [of a] ready(1) by (simp add: id member_ready_def)
  have owns: "\<not> host_owns_canvas b" using cl by (simp add: host_owns_canvas_def b)
  have strokes: "owner_of (operation_id st) \<noteq> hm"
    if "tag st = (oid, owner_of oid, 0) \<or> (\<exists>old. active_stroke a = Some old \<and> tag st = tag old)" for st
    using that oid ready(1) by (auto simp: tag_def member_ready_def)
  from input owns obtain committed c stroke where
    run: "process_canvas_input input oid (owner_of oid) (active_color b) (active_thickness b) False
        (active_tool b) (surface b) (active_stroke b) = Some (committed, c, stroke)"
    and out: "(case committed of None \<Rightarrow> Some (b\<lparr>surface := c, active_stroke := stroke\<rparr>)
      | Some op \<Rightarrow> broadcast_draw op True (b\<lparr>surface := c, active_stroke := stroke, dirty := True\<rparr>)) = Some a'"
    by (auto simp: app_process_canvas_input_def id owner_of_def Let_def elim!: bind_eq_SomeE cong: option.case_cong)
  have stroke_b: "active_stroke b = active_stroke a" by (simp add: b)
  from process_canvas_input_cases [OF run, unfolded stroke_b] have c: "c = surface b"
    and st: "\<And>st. stroke = Some st \<Longrightarrow> owner_of (operation_id st) \<noteq> hm"
    and op: "\<And>op. committed = Some op \<Longrightarrow> owner_of (operation_id op) \<noteq> hm"
    using strokes by auto
  define d where "d = b\<lparr>surface := c, active_stroke := stroke\<rparr>"
  have d: "member_ready hm d" "follows L k d" "app_sent d = app_sent a"
    using ready st by (auto simp: member_ready_def member_id_or_def follows_def app_sent_def c b d_def)
  show ?thesis
  proof (cases committed)
    case None
    with out have "a' = d" by (simp add: d_def)
    with d show ?thesis by (simp add: member_sends_nothing)
  next
    case (Some op0)
    have dc: "client (mgr d) = Some cl" using cl by (simp add: d_def b)
    have out': "broadcast_draw op0 True (d\<lparr>dirty := True\<rparr>) = Some a'" using out Some by (simp add: d_def)
    show ?thesis
    proof (cases "sm_in_session (mgr d) \<or> cl_in_session cl")
      case False
      with out' dc have "a' = d\<lparr>dirty := True\<rparr>" by (simp add: broadcast_draw_def)
      with d show ?thesis by (simp add: member_ready_def member_id_or_def member_sends_def app_sent_def)
    next
      case True
      with out' dc obtain r cl' m where sent: "send_draw op0 cl = Some (r, cl')"
        and a': "a' = with_client cl' (map_mgr (\<lambda>m. m\<lparr>pending_operations := insert (operation_id op0) (pending_operations m)\<rparr>) (d\<lparr>dirty := True\<rparr>))"
        by (auto simp: broadcast_draw_def Let_def elim!: bind_eq_SomeE)
      let ?op = "op0\<lparr>member_id := cl_member_id cl\<rparr>"
      have fit: "points_fit ?op" using sent serialized_fits by (auto simp: send_draw_def elim!: bind_eq_SomeE)
      then have cl': "cl' = after_send (frame OP_DRAW (draw_image ?op)) cl"
        using sent by (simp add: send_draw_eqs(2) points_fit_def)
      have "from_member hm (frame OP_DRAW (draw_image ?op))" using fit op [OF Some] by (force simp: from_member_def)
      then have "member_sends hm a a'"
        using d(3) dc by (cases "link_error cl = None") (simp_all add: member_sends_def app_sent_def a' cl' after_send_def)
      moreover have "member_ready hm a' \<and> follows L k a'"
        using d dc by (simp add: member_ready_def member_id_or_def follows_def a' cl')
      ultimately show ?thesis by simp
    qed
  qed
qed

lemma member_draws:
  assumes "member_ready hm a" and "follows L k a" and "only_draws inp" and "run_frame oc inp a = Some a'"
  shows "member_ready hm a' \<and> follows L k a' \<and> member_sends hm a a'"
proof -
  from draws_frame [OF assms(3,4)] obtain b where b: "same_session a b" "a' = b\<lparr>dirty := False\<rparr> \<or>
      (\<exists>input a2. app_process_canvas_input input b = Some a2 \<and> a' = a2\<lparr>dirty := False\<rparr>)" by blast
  have sent: "app_sent b = app_sent a" "follows L k b" using assms(2) same_session_host [OF b(1)] by simp_all
  have ready: "member_ready hm b" using assms(1) b(1) same_session_host(5) [OF b(1)] by (simp add: member_ready_def same_session_def)
  from b(2) show ?thesis
  proof (elim disjE exE conjE)
    assume "a' = b\<lparr>dirty := False\<rparr>"
    then show ?thesis using ready sent by (simp add: member_sends_nothing)
  next
    fix input a2 assume "app_process_canvas_input input b = Some a2" and a': "a' = a2\<lparr>dirty := False\<rparr>"
    from member_input [OF ready sent(2) this(1)] have "member_ready hm a2" "follows L k a2" "member_sends hm b a2"
      by simp_all
    then show ?thesis using sent(1) by (simp add: a' member_sends_def)
  qed
qed

lemma frame_inj: "frame oc p = frame oc' p' \<Longrightarrow> oc = oc' \<and> p = p'"
  using receive_frame_ws [of oc p] receive_frame_ws [of oc' p'] by (auto simp: message_of_def success_def)

lemma state_parses:
  assumes "good_log L" and "k \<le> length L"
  shows "parseCanvasStateMessage (canvas_state_image (take k L)) = Some (success \<lparr>cs_operations = take k L\<rparr>)"
proof -
  obtain n where num: "numbered L n" and fits: "list_all points_fit L" using assms(1) by (auto simp: good_log_def)
  have "unat n < 2 ^ 32" using unsigned_less [of n] by simp
  then have "canvas_state_fits \<lparr>cs_operations = take k L\<rparr>"
    using num fits assms(2) by (auto simp: canvas_state_fits_def numbered_def list_all_iff dest: in_set_takeD)
  from parseCanvasState_image [OF this, of "[]"] show ?thesis by simp
qed

lemma state_inj:
  assumes "good_log L" and "k \<le> length L" "j \<le> length L"
    and "canvas_state_image (take j L) = canvas_state_image (take k L)"
  shows "j = k"
proof -
  have "take j L = take k L"
    using state_parses [OF assms(1,2)] state_parses [OF assms(1,3)] assms(4) by (simp add: success_def)
  then have "length (take j L) = length (take k L)" by simp
  with assms(2,3) show ?thesis by simp
qed

text \<open>What the server passes to a member: strokes and states of the host's log, and errors.\<close>

definition host_frame :: "draw_operation list \<Rightarrow> bytes \<Rightarrow> bool" where
  "host_frame L f \<longleftrightarrow> (\<exists>i < length L. f = frame OP_DRAW (draw_image (L ! i))) \<or>
     (\<exists>k \<le> length L. f = frame OP_CANVAS_STATE (canvas_state_image (take k L)))"

definition to_member :: "draw_operation list \<Rightarrow> bytes \<Rightarrow> bool" where
  "to_member L f \<longleftrightarrow> host_frame L f \<or> (\<exists>e t. f = error_frame e t)"

lemma member_draw_sends:
  assumes "sm_handle_draw p a = Some a'" and "client (mgr a) = Some cl" and "\<not> cl_host cl"
  shows "member_sends hm a a'"
  using assms
  by (auto simp: sm_handle_draw_def receive_draw_def apply_and_save_def Let_def member_sends_def app_sent_def
      request_eqs after_send_def from_member_def split: if_split_asm elim!: bind_eq_SomeE)

lemma member_receives:
  assumes ready: "member_ready hm a" "follows L k a" "good_log L" and f: "to_member L f"
    and msg: "receive_msg_ws (success f) = Some r" "poll_turn r a = Some (a', go)"
  shows "member_ready hm a' \<and> member_sends hm a a' \<and> (\<exists>k'. follows L k' a' \<and>
    (k < length L \<and> f = frame OP_DRAW (draw_image (L ! k)) \<longrightarrow> k' = Suc k) \<and>
    (f = frame OP_CANVAS_STATE (canvas_state_image (take k L)) \<longrightarrow> k' = k) \<and>
    ((\<exists>e t. f = error_frame e t) \<longrightarrow> k' = k))"
proof -
  obtain cl where cl: "client (mgr a) = Some cl" "\<not> cl_host cl" and go: "\<not> stop_poll (net a)"
    using ready(2) by (auto simp: follows_def)
  note turn = receive_turn [OF _ msg(2) cl(1) go]
  have fits: "points_fit (L ! i)" if "i < length L" for i
    using ready(3) that by (simp add: good_log_def list_all_length)
  have k: "k \<le> length L" using ready(2) by (simp add: follows_def)
  from f consider (draw) i where "i < length L" "f = frame OP_DRAW (draw_image (L ! i))"
    | (state) j where "j \<le> length L" "f = frame OP_CANVAS_STATE (canvas_state_image (take j L))"
    | (error) e t where "f = error_frame e t" unfolding to_member_def host_frame_def by blast
  then show ?thesis
  proof cases
    case draw
    have step: "sm_handle_draw (draw_image (L ! i)) a = Some a'"
      using turn [of OP_DRAW "draw_image (L ! i)"] msg(1) draw(2) by (simp add: sm_dispatch_def)
    from follows_draw [OF ready(2,3), of "L ! i"] draw(1) step obtain k' where
      k': "follows L k' a'" "k < length L \<and> L ! i = L ! k \<longrightarrow> k' = Suc k" by auto
    have "k' = Suc k" if "k < length L" "f = frame OP_DRAW (draw_image (L ! k))"
    proof -
      have "draw_image (L ! i) = draw_image (L ! k)" using frame_inj that(2) unfolding draw(2) by blast
      with draw_image_inj [OF fits [OF draw(1)] fits [OF that(1)]] k'(2) that(1) show ?thesis by simp
    qed
    moreover have "f \<noteq> frame OP_CANVAS_STATE q" "f \<noteq> error_frame e t" for q e t
      using frame_inj unfolding draw(2) error_frame_def by fastforce+
    moreover have "member_ready hm a'" "member_sends hm a a'"
      using ready(1) same_member_ready [OF draw_same_member [OF step]] member_draw_sends [OF step cl] by simp_all
    ultimately show ?thesis using k'(1) by blast
  next
    case state
    have step: "sm_handle_canvas_state (canvas_state_image (take j L)) a = Some a'"
      using turn [of OP_CANVAS_STATE "canvas_state_image (take j L)"] msg(1) state(2) by (simp add: sm_dispatch_def)
    from follows_state [OF ready(2,3) state(1)] step have "follows L j a'" by simp
    moreover have "j = k" if "f = frame OP_CANVAS_STATE (canvas_state_image (take k L))"
    proof -
      have "canvas_state_image (take j L) = canvas_state_image (take k L)" using frame_inj that unfolding state(2) by blast
      then show ?thesis by (rule state_inj [OF ready(3) k state(1)])
    qed
    moreover have "f \<noteq> frame OP_DRAW q" "f \<noteq> error_frame e t" for q e t
      using frame_inj unfolding state(2) error_frame_def by fastforce+
    moreover have "app_sent a' = app_sent a"
      using step by (auto simp: sm_handle_canvas_state_def app_sent_def split: if_split_asm elim!: bind_eq_SomeE)
    ultimately show ?thesis
      using ready(1) same_member_ready [OF state_same_member [OF step]] by (blast intro: member_sends_nothing)
  next
    case error
    have step: "sm_handle_error (e # str_bytes t) a = Some a'"
      using turn [of OP_ERROR_MSG "e # str_bytes t"] msg(1) error by (simp add: sm_dispatch_def error_frame_def)
    from follows_error [OF ready(2), of "e # str_bytes t"] step have "follows L k a'" by simp
    moreover have "f \<noteq> frame OP_DRAW q" "f \<noteq> frame OP_CANVAS_STATE q" for q
      using frame_inj unfolding error error_frame_def by fastforce+
    moreover have "app_sent a' = app_sent a" using error_keeps_app [OF step] by (simp add: app_sent_def)
    ultimately show ?thesis
      using ready(1) same_member_ready [OF error_same_member [OF step]] by (blast intro: member_sends_nothing)
  qed
qed

end
