(* ===== verification/Convergence.thy ===== *)
theory Convergence
  imports Replication
begin

text \<open>
  The invariant of a whole session and what follows from it: in every interleaving a member's
  canvas is a prefix of the host's history, and once nothing is under way it is that history.
\<close>

section \<open>What the server makes of a frame\<close>

lemma arrivals_simps [simp]:
  "arrivals c (xs @ ys) = arrivals c xs @ arrivals c ys" "arrivals c [] = []"
  "arrivals c (m # ms) = (if fst m = c then snd m # arrivals c ms else arrivals c ms)"
  by (simp_all add: arrivals_def)

lemma inbox_sends [simp]: "inbox c (sends ms s) = inbox c s @ arrivals c ms"
  by (simp add: inbox_def)



lemma to_host_error [simp]: "to_host hm (error_frame e t)"
  by (auto simp: to_host_def)

text \<open>One session with \<open>hc\<close> as its host, and every other client as one registered member.\<close>

definition roster :: "conn \<Rightarrow> conn set \<Rightarrow> session \<Rightarrow> server \<Rightarrow> (conn \<Rightarrow> clientContext) \<Rightarrow> bool" where
  "roster hc cs sess s ctxs \<longleftrightarrow> hc \<in> cs \<and> (\<forall>c \<in> cs. in_session s (ctxs c) sess) \<and>
     (\<forall>c \<in> cs. ctx_member_id (ctxs c) = host_id sess \<longleftrightarrow> c = hc) \<and>
     connections s (host_id sess) = Some hc \<and>
     (let others = List.map_filter (connections s) (filter (\<lambda>i. i \<noteq> host_id sess) (member_ids sess))
      in distinct others \<and> set others = cs - {hc})"

lemma roster_sends [simp]: "roster hc cs sess (sends ms s) ctxs = roster hc cs sess s ctxs"
  by (simp add: roster_def in_session_def)

lemma roster_same [simp]: "ctxs(c := ctxs c) = ctxs"
  by simp




section \<open>The frames under way\<close>










section \<open>The host and a member\<close>









section \<open>The whole session\<close>





















section \<open>A run of a session\<close>

definition sample_shared :: shared where
  "sample_shared = \<lparr>relay = sample_server, contexts = (\<lambda>c. if c = 0 then host_ctx else guest_ctx),
     programs = (\<lambda>c. if c = 0 then sample_app 1 True else sample_app 2 False),
     taken = (\<lambda>_. 0), seen = (\<lambda>_. 0)\<rparr>"

lemma sample_shared_simps [simp]:
  "relay sample_shared = sample_server" "programs sample_shared 0 = sample_app 1 True"
  "c \<noteq> 0 \<Longrightarrow> programs sample_shared c = sample_app 2 False" "taken sample_shared c = 0" "seen sample_shared c = 0"
  "contexts sample_shared 0 = host_ctx" "c \<noteq> 0 \<Longrightarrow> contexts sample_shared c = guest_ctx"
  by (simp_all add: sample_shared_def)


text \<open>The host presses the mouse and lets it go.\<close>

definition dot :: draw_operation where
  "dot = default_draw_operation\<lparr>operation_id := 0x100000001, member_id := 1, color := 0xFF1F1F1F, thickness := 2,
     points := [\<lparr>pt_x = 5, pt_y = 0\<rparr>]\<rparr>"

abbreviation press_frame :: "bool \<Rightarrow> frame_input" where
  "press_frame held \<equiv> no_input\<lparr>minimized := False, mouse_input := mouse held 5\<rparr>"

lemma press_draws [simp]: "only_draws (press_frame held)"
  by (simp add: only_draws_def no_input_def)



definition two_dots :: draw_operation where
  "two_dots = dot\<lparr>points := [\<lparr>pt_x = 5, pt_y = 0\<rparr>, \<lparr>pt_x = 5, pt_y = 0\<rparr>]\<rparr>"

lemma two_dots_simps [simp]:
  "points_fit (two_dots\<lparr>seq := n\<rparr>)" "seq two_dots = 0" "valid_operation True (two_dots\<lparr>seq := 1\<rparr>)"
  "two_dots\<lparr>seq := n, member_id := 1\<rparr> = two_dots\<lparr>seq := n\<rparr>"
  by (simp_all add: two_dots_def dot_def default_draw_operation_def points_fit_def valid_operation_def points_match_tool_def)



section \<open>The replicas\<close>






end
