(* ===== verification/Udp.thy ===== *)
theory Udp
  imports Server_Properties Ports
begin

text \<open>
  \<open>common/udp/udpDiscovery.cpp\<close>: the datagrams of the discovery, the responder of the
  server and the search of the client.

  The sockets are what they deliver: a datagram that was received, with its sender. A receive
  that fails, and the sends, which the code does not look at, are left out.
\<close>

section \<open>Datagrams\<close>

abbreviation (input) UDP_DISCOVER :: u8 where "UDP_DISCOVER \<equiv> 1"
abbreviation (input) UDP_OFFER :: u8 where "UDP_OFFER \<equiv> 2"
abbreviation (input) MAGIC_SIZE :: nat where "MAGIC_SIZE \<equiv> 6"
abbreviation (input) UDP_HEADER_SIZE :: nat where "UDP_HEADER_SIZE \<equiv> 7"

definition UDP_MAGIC :: bytes where
  "UDP_MAGIC = [83, 75, 83, 89, 78, 67]"

record UdpHeader =
  udp_opcode :: u8

record Packet =
  packet_header :: UdpHeader
  packet_payload :: bytes

record DiscoverMessage =
  dm_session_id :: u32

record OfferMessage =
  om_session_id :: u32
  om_tcp_port :: u16

definition parseUdpHeader :: "bytes \<Rightarrow> UdpHeader result option" where
  "parseUdpHeader data =
     (if length data < UDP_HEADER_SIZE then
        Some (failure \<lparr>udp_opcode = 0\<rparr> malformed ''Packet too short for UDP header'')
      else if take MAGIC_SIZE data \<noteq> UDP_MAGIC then
        Some (failure \<lparr>udp_opcode = 0\<rparr> malformed ''Invalid UDP magic header'')
      else do {
        (oc, off) \<leftarrow> read8 data MAGIC_SIZE;
        Some (success \<lparr>udp_opcode = oc\<rparr>) })"

definition serializePacket :: "Packet \<Rightarrow> bytes option" where
  "serializePacket packet = do {
     buf \<leftarrow> memcpy (replicate (UDP_HEADER_SIZE + length (packet_payload packet)) 0) 0 UDP_MAGIC;
     (buf, off) \<leftarrow> write8 buf MAGIC_SIZE (udp_opcode (packet_header packet));
     if packet_payload packet \<noteq> [] then memcpy buf off (packet_payload packet) else Some buf }"

definition serializeDiscoverMessage :: "DiscoverMessage \<Rightarrow> bytes option" where
  "serializeDiscoverMessage msg = do {
     (pl, off) \<leftarrow> write32 (replicate 4 0) 0 (dm_session_id msg);
     serializePacket \<lparr>packet_header = \<lparr>udp_opcode = UDP_DISCOVER\<rparr>, packet_payload = pl\<rparr> }"

definition parseDiscoverMessage :: "bytes \<Rightarrow> DiscoverMessage result option" where
  "parseDiscoverMessage data = do {
     hdr \<leftarrow> parseUdpHeader data;
     if \<not> ok hdr then Some (failure \<lparr>dm_session_id = 0\<rparr> (err hdr) (message hdr))
     else if udp_opcode (val hdr) \<noteq> UDP_DISCOVER then
       Some (failure \<lparr>dm_session_id = 0\<rparr> malformed ''Not a DISCOVER opcode'')
     else if length data < UDP_HEADER_SIZE + 4 then
       Some (failure \<lparr>dm_session_id = 0\<rparr> malformed ''DISCOVER payload too short'')
     else do {
       (sid, off) \<leftarrow> read32 data UDP_HEADER_SIZE;
       Some (success \<lparr>dm_session_id = sid\<rparr>) } }"

definition serializeOfferMessage :: "OfferMessage \<Rightarrow> bytes option" where
  "serializeOfferMessage msg = do {
     (pl, off) \<leftarrow> write32 (replicate (4 + 2) 0) 0 (om_session_id msg);
     (pl, off) \<leftarrow> write16 pl off (om_tcp_port msg);
     serializePacket \<lparr>packet_header = \<lparr>udp_opcode = UDP_OFFER\<rparr>, packet_payload = pl\<rparr> }"

definition parseOfferMessage :: "bytes \<Rightarrow> OfferMessage result option" where
  "parseOfferMessage data = do {
     hdr \<leftarrow> parseUdpHeader data;
     if \<not> ok hdr then Some (failure \<lparr>om_session_id = 0, om_tcp_port = 0\<rparr> (err hdr) (message hdr))
     else if udp_opcode (val hdr) \<noteq> UDP_OFFER then
       Some (failure \<lparr>om_session_id = 0, om_tcp_port = 0\<rparr> malformed ''Not an OFFER opcode'')
     else if length data < UDP_HEADER_SIZE + 4 + 2 then
       Some (failure \<lparr>om_session_id = 0, om_tcp_port = 0\<rparr> malformed ''OFFER payload too short'')
     else do {
       (sid, off) \<leftarrow> read32 data UDP_HEADER_SIZE;
       (port, off) \<leftarrow> read16 data off;
       Some (success \<lparr>om_session_id = sid, om_tcp_port = port\<rparr>) } }"

section \<open>The responder\<close>

text \<open>What the responder sends back for one datagram.\<close>

definition respond :: "(u32 \<Rightarrow> u16 option) \<Rightarrow> bytes \<Rightarrow> bytes option option" where
  "respond lookup datagram = do {
     req \<leftarrow> parseDiscoverMessage datagram;
     if \<not> ok req then Some None
     else
       (case lookup (dm_session_id (val req)) of
          None \<Rightarrow> Some None
        | Some tcp_p \<Rightarrow> do {
            offer \<leftarrow> serializeOfferMessage \<lparr>om_session_id = dm_session_id (val req), om_tcp_port = tcp_p\<rparr>;
            Some (Some offer) }) }"


section \<open>The search\<close>

record sender =
  address :: string
  is_unspecified :: bool
  is_loopback :: bool

definition host_ip :: "sender \<Rightarrow> string" where
  "host_ip s = (if is_unspecified s \<or> is_loopback s then ''127.0.0.1'' else address s)"

text \<open>The receive handler, over what arrives before the timer expires.\<close>

fun await_offer :: "u32 \<Rightarrow> (sender \<times> bytes) list \<Rightarrow> (string \<times> u16) option option" where
  "await_offer sid [] = Some None"
| "await_offer sid ((s, datagram) # rest) = do {
     offer \<leftarrow> parseOfferMessage datagram;
     if ok offer \<and> om_session_id (val offer) = sid
     then Some (Some (host_ip s, om_tcp_port (val offer)))
     else await_offer sid rest }"

text \<open>What opening, configuring and binding the socket comes to, from the four error codes.\<close>

definition socket_setup ::
  "string option \<Rightarrow> string option \<Rightarrow> string option \<Rightarrow> string option \<Rightarrow> string option"
where
  "socket_setup open_ec broadcast_ec reuse_ec bind_ec =
     (case open_ec of Some m \<Rightarrow> Some (''Failed to open UDP socket: '' @ m)
      | None \<Rightarrow> case broadcast_ec of Some m \<Rightarrow> Some (''Failed to set broadcast option: '' @ m)
      | None \<Rightarrow> case reuse_ec of Some m \<Rightarrow> Some (''Failed to set reuse address option: '' @ m)
      | None \<Rightarrow> case bind_ec of Some m \<Rightarrow> Some (''Failed to bind UDP client: '' @ m)
      | None \<Rightarrow> None)"


text \<open>
  The broadcast address of an interface, from its address and prefix length; a shift by 32 or
  more is undefined.
\<close>

definition directed_broadcast :: "u32 \<Rightarrow> u8 \<Rightarrow> u32 option" where
  "directed_broadcast host_address prefix =
     (if prefix = 32 then Some (host_address OR NOT 0xFFFFFFFF)
      else if prefix = 0 \<or> prefix > 32 then None
      else Some (host_address OR NOT (push_bit (32 - unat prefix) 0xFFFFFFFF)))"

text \<open>The interfaces of the machine as the system lists them, and the addresses to ask.\<close>

record unicast =
  is_inet :: bool
  host_address :: u32
  prefix_length :: u8

record adapter =
  is_up :: bool
  unicasts :: "unicast list"

fun unicast_broadcasts :: "unicast list \<Rightarrow> u32 set \<Rightarrow> u32 set option" where
  "unicast_broadcasts [] addresses = Some addresses"
| "unicast_broadcasts (u # us) addresses =
     (if \<not> is_inet u then unicast_broadcasts us addresses
      else do {
        broadcast \<leftarrow> directed_broadcast (host_address u) (prefix_length u);
        unicast_broadcasts us (if broadcast \<noteq> 0x7FFFFFFF then insert broadcast addresses else addresses) })"

fun directed_broadcast_endpoints :: "adapter list \<Rightarrow> u32 set \<Rightarrow> u32 set option" where
  "directed_broadcast_endpoints [] addresses = Some addresses"
| "directed_broadcast_endpoints (a # adapters) addresses =
     (if \<not> is_up a then directed_broadcast_endpoints adapters addresses
      else do {
        addresses \<leftarrow> unicast_broadcasts (unicasts a) addresses;
        directed_broadcast_endpoints adapters addresses })"

section \<open>The life of the responder\<close>

text \<open>\<open>rs_socket\<close> is \<open>None\<close> without a socket, else whether it is open.\<close>

record responder =
  rs_socket :: "bool option"
  rs_worker :: bool
  rs_stop :: bool

definition new_responder :: responder where
  "new_responder = \<lparr>rs_socket = None, rs_worker = False, rs_stop = False\<rparr>"

text \<open>From the error codes of opening, the two options and binding.\<close>

definition responder_start ::
  "string option \<Rightarrow> string option \<Rightarrow> string option \<Rightarrow> string option \<Rightarrow> responder \<Rightarrow> responder"
where
  "responder_start open_ec reuse_ec broadcast_ec bind_ec r =
     (if rs_socket r = Some True then r
      else
        (let r = r\<lparr>rs_stop := False, rs_socket := Some False\<rparr> in
         if open_ec \<noteq> None then r
         else
           (let r = r\<lparr>rs_socket := Some True\<rparr> in
            if reuse_ec \<noteq> None then r
            else if broadcast_ec \<noteq> None then r
            else if bind_ec \<noteq> None then r\<lparr>rs_socket := Some False\<rparr>
            else r\<lparr>rs_worker := True\<rparr>)))"

definition responder_stop :: "responder \<Rightarrow> responder" where
  "responder_stop r = r\<lparr>rs_stop := True, rs_worker := False, rs_socket := None\<rparr>"

section \<open>Lemmas\<close>

definition packet_image :: "u8 \<Rightarrow> bytes \<Rightarrow> bytes" where
  "packet_image oc p = UDP_MAGIC @ [oc] @ p"

lemma serializePacket_image:
  "serializePacket \<lparr>packet_header = \<lparr>udp_opcode = oc\<rparr>, packet_payload = p\<rparr> = Some (packet_image oc p)"
  unfolding serializePacket_def wbuf_start
  by (simp add: wire_simps UDP_MAGIC_def packet_image_def)

lemma serialize_udp:
  "serializeDiscoverMessage dm = Some (packet_image UDP_DISCOVER (be32 (dm_session_id dm)))"
  "serializeOfferMessage om = Some (packet_image UDP_OFFER (be32 (om_session_id om) @ be16 (om_tcp_port om)))"
  unfolding serializeDiscoverMessage_def serializeOfferMessage_def wbuf_start
  by (simp_all add: wire_simps serializePacket_image)

lemma parseUdpHeader_image: "parseUdpHeader (packet_image oc p) = Some (success \<lparr>udp_opcode = oc\<rparr>)"
  by (simp add: parseUdpHeader_def packet_image_def UDP_MAGIC_def read8_def)

lemma parse_udp:
  "parseDiscoverMessage (packet_image UDP_DISCOVER (be32 (dm_session_id dm)) @ rest) = Some (success dm)"
  "parseOfferMessage (packet_image UDP_OFFER (be32 (om_session_id om) @ be16 (om_tcp_port om)) @ rest) =
     Some (success om)"
proof -
  have app: "packet_image oc p @ rest = packet_image oc (p @ rest)" for oc p by (simp add: packet_image_def)
  have drops: "drop 7 (packet_image oc p) = p" "length (packet_image oc p) = 7 + length p" for oc p
    by (simp_all add: packet_image_def UDP_MAGIC_def)
  have "drop 11 (packet_image oc p) = drop 4 p" for oc p
    using drops(1) [of oc p] drop_drop [of 4 7 "packet_image oc p"] by simp
  note drops = drops this
  show "parseDiscoverMessage (packet_image UDP_DISCOVER (be32 (dm_session_id dm)) @ rest) = Some (success dm)"
    by (simp add: app parseDiscoverMessage_def parseUdpHeader_image drops wire_simps)
  show "parseOfferMessage (packet_image UDP_OFFER (be32 (om_session_id om) @ be16 (om_tcp_port om)) @ rest) =
      Some (success om)"
    by (simp add: app parseOfferMessage_def parseUdpHeader_image drops wire_simps)
qed

lemma parseUdpHeader_total: "\<exists>r. parseUdpHeader data = Some r"
  using read_total(1) [of 6 data] by (auto simp: parseUdpHeader_def)

lemma parse_udp_total:
  "\<exists>r. parseDiscoverMessage data = Some r" "\<exists>r. parseOfferMessage data = Some r"
proof -
  obtain h where h: "parseUdpHeader data = Some h" using parseUdpHeader_total by blast
  show "\<exists>r. parseDiscoverMessage data = Some r"
    using h read_total(3) [of 7 data] by (auto simp: parseDiscoverMessage_def)
  show "\<exists>r. parseOfferMessage data = Some r"
    using h read_total(3) [of 7 data] read_total(2) [of 11 data] by (auto simp: parseOfferMessage_def)
qed

interpretation discover_msg: prefix_codec serializeDiscoverMessage parseDiscoverMessage "\<lambda>_. True"
  by (rule prefix_codecI [OF parse_udp_total(1) serialize_udp(1) parse_udp(1)])

interpretation offer_msg: prefix_codec serializeOfferMessage parseOfferMessage "\<lambda>_. True"
  by (rule prefix_codecI [OF parse_udp_total(2) serialize_udp(2) parse_udp(2)])

lemma respond_total: "\<exists>r. respond lookup datagram = Some r"
proof -
  obtain q where "parseDiscoverMessage datagram = Some q" using parse_udp_total(1) by blast
  then show ?thesis by (auto simp: respond_def serialize_udp split: option.split)
qed

lemma await_offer_total: "\<exists>r. await_offer sid received = Some r"
proof (induction received)
  case (Cons x xs)
  obtain s d where x: "x = (s, d)" by (cases x)
  obtain q where "parseOfferMessage d = Some q" using parse_udp_total(2) by blast
  with Cons x show ?case by auto
qed simp



text \<open>The broadcast address has the bits of the network and ones for the host.\<close>

lemma directed_broadcast_bits:
  assumes "0 < unat prefix" and "unat prefix \<le> 32"
  shows "\<exists>b. directed_broadcast a prefix = Some b \<and>
    (\<forall>i < 32. bit b i \<longleftrightarrow> bit a i \<or> i < 32 - unat prefix)"
proof (cases "prefix = 32")
  case True
  have zero: "NOT (0xFFFFFFFF :: u32) = 0" by code_simp
  have "directed_broadcast a prefix = Some a"
    unfolding directed_broadcast_def zero using True by simp
  with True show ?thesis by simp
next
  case False
  with assms have "prefix \<noteq> 0" "\<not> prefix > 32" by (auto simp: word_less_nat_alt)
  have ones: "(0xFFFFFFFF :: u32) = - 1" by code_simp
  show ?thesis
    unfolding directed_broadcast_def ones
    using False \<open>prefix \<noteq> 0\<close> \<open>\<not> prefix > 32\<close> by (auto simp: bit_simps)
qed

lemma unicast_broadcasts_defined:
  "\<forall>u \<in> set us. is_inet u \<longrightarrow> 0 < unat (prefix_length u) \<and> unat (prefix_length u) \<le> 32 \<Longrightarrow>
    \<exists>r. unicast_broadcasts us addresses = Some r"
proof (induction us arbitrary: addresses)
  case (Cons u us)
  show ?case
  proof (cases "is_inet u")
    case True
    with Cons.prems have "0 < unat (prefix_length u)" "unat (prefix_length u) \<le> 32" by simp_all
    from directed_broadcast_bits [OF this, of "host_address u"] obtain b where
      "directed_broadcast (host_address u) (prefix_length u) = Some b" by blast
    with True Cons show ?thesis by simp
  qed (use Cons in simp)
qed simp

lemma directed_broadcast_endpoints_defined:
  "\<forall>a \<in> set adapters. \<forall>u \<in> set (unicasts a).
      is_inet u \<longrightarrow> 0 < unat (prefix_length u) \<and> unat (prefix_length u) \<le> 32 \<Longrightarrow>
    \<exists>r. directed_broadcast_endpoints adapters addresses = Some r"
proof (induction adapters arbitrary: addresses)
  case (Cons a adapters)
  show ?case
  proof (cases "is_up a")
    case True
    from Cons.prems unicast_broadcasts_defined [of "unicasts a" addresses] obtain r where
      "unicast_broadcasts (unicasts a) addresses = Some r" by auto
    with True Cons show ?thesis by simp
  qed (use Cons in simp)
qed simp

text \<open>
  The responder runs after a start without errors; one that could not set an option keeps an open
  socket, and starting it again does nothing.
\<close>

lemma responder_started: "rs_worker (responder_start None None None None new_responder)"
  by (simp add: responder_start_def new_responder_def)

lemma responder_stuck:
  assumes "reuse_ec \<noteq> None \<or> broadcast_ec \<noteq> None"
  shows "\<not> rs_worker (responder_start o2 r2 b2 i2 (responder_start None reuse_ec broadcast_ec bind_ec new_responder))"
  using assms by (auto simp: responder_start_def new_responder_def Let_def)

lemma responder_restarted: "rs_worker (responder_start None None None None (responder_stop r))"
  by (simp add: responder_start_def responder_stop_def)

section \<open>Properties\<close>



end
