(* ===== verification/Udp_Socket.thy ===== *)
theory Udp_Socket
  imports Udp
begin

text \<open>
  \<open>common/udp/udpSocket.cpp\<close>, over what Boost answers (an error code is its message,
  \<open>None\<close> for no error). No other part of the program uses this class.
\<close>

record udp_packet =
  packet_data :: bytes
  sender_ip :: string
  sender_port :: u16

definition no_packet :: udp_packet where
  "no_packet = \<lparr>packet_data = [], sender_ip = [], sender_port = 0\<rparr>"

text \<open>The socket is whether it is open. Every operation below answers with it.\<close>

definition udp_open :: "string option \<Rightarrow> bool \<Rightarrow> bool result \<times> bool" where
  "udp_open open_ec is_open =
     (if \<not> is_open then
        (case open_ec of Some m \<Rightarrow> (failure False connect_failed m, is_open) | None \<Rightarrow> (success True, True))
      else (success True, is_open))"

definition set_option :: "error \<Rightarrow> string option \<Rightarrow> bool \<Rightarrow> bool result \<times> bool" where
  "set_option e option_ec is_open =
     (case option_ec of Some m \<Rightarrow> (failure False e m, is_open) | None \<Rightarrow> (success True, is_open))"

definition udp_bind ::
  "string option \<Rightarrow> string option \<Rightarrow> string option \<Rightarrow> string option \<Rightarrow> bool \<Rightarrow> bool \<Rightarrow> bool \<Rightarrow> bool result \<times> bool"
where
  "udp_bind open_ec reuse_ec broadcast_ec bind_ec bcast reuse_addr is_open =
     (let (opened, is_open) = udp_open open_ec is_open in
      if \<not> ok opened then (opened, is_open)
      else case if reuse_addr then reuse_ec else None of
        Some m \<Rightarrow> (failure False connect_failed m, is_open)
      | None \<Rightarrow>
          (case if bcast then broadcast_ec else None of
             Some m \<Rightarrow> (failure False connect_failed m, is_open)
           | None \<Rightarrow>
               (case bind_ec of
                  Some m \<Rightarrow> (failure False connect_failed m, is_open)
                | None \<Rightarrow> (success True, is_open))))"

definition set_broadcast :: "string option \<Rightarrow> string option \<Rightarrow> bool \<Rightarrow> bool result \<times> bool" where
  "set_broadcast open_ec option_ec is_open =
     (let (opened, is_open) = udp_open open_ec is_open in
      if \<not> ok opened then (opened, is_open) else set_option send_failed option_ec is_open)"

definition set_reuse_address :: "string option \<Rightarrow> string option \<Rightarrow> bool \<Rightarrow> bool result \<times> bool" where
  "set_reuse_address open_ec option_ec is_open =
     (let (opened, is_open) = udp_open open_ec is_open in
      if \<not> ok opened then (opened, is_open) else set_option connect_failed option_ec is_open)"

text \<open>What the system makes of a datagram.\<close>

definition datagram_sent :: "string option \<Rightarrow> bytes \<Rightarrow> nat result" where
  "datagram_sent send_ec data =
     (case send_ec of Some m \<Rightarrow> failure 0 send_failed m | None \<Rightarrow> success (length data))"

definition send_to_endpoint :: "string option \<Rightarrow> string option \<Rightarrow> bytes \<Rightarrow> bool \<Rightarrow> nat result \<times> bool" where
  "send_to_endpoint open_ec send_ec data is_open =
     (let (opened, is_open) = udp_open open_ec is_open in
      if \<not> ok opened then (failure 0 (err opened) (message opened), is_open)
      else (datagram_sent send_ec data, is_open))"

text \<open>The name resolves to an error or to endpoints; the message of no error is a text of its own.\<close>

definition send_to_host ::
  "string \<Rightarrow> string option \<Rightarrow> string + 'ep list \<Rightarrow> string option \<Rightarrow> bytes \<Rightarrow> bool \<Rightarrow> nat result \<times> bool"
where
  "send_to_host no_error open_ec resolved send_ec data is_open =
     (let (opened, is_open) = udp_open open_ec is_open in
      if \<not> ok opened then (failure 0 (err opened) (message opened), is_open)
      else case resolved of
        Inl m \<Rightarrow> (failure 0 resolve_failed m, is_open)
      | Inr [] \<Rightarrow> (failure 0 resolve_failed no_error, is_open)
      | Inr (endpoint # _) \<Rightarrow> (datagram_sent send_ec data, is_open))"

definition send_broadcast ::
  "string option \<Rightarrow> string option \<Rightarrow> string option \<Rightarrow> bytes \<Rightarrow> bool \<Rightarrow> nat result \<times> bool"
where
  "send_broadcast open_ec option_ec send_ec data is_open =
     (let (opened, is_open) = udp_open open_ec is_open in
      if \<not> ok opened then (failure 0 (err opened) (message opened), is_open)
      else
        (let (broadcast_res, is_open) = set_broadcast open_ec option_ec is_open in
         if \<not> ok broadcast_res then (failure 0 (err broadcast_res) (message broadcast_res), is_open)
         else (datagram_sent send_ec data, is_open)))"

text \<open>A datagram with its sender; what does not fit is cut off, unless the system reports an error.\<close>

definition packet_from :: "nat \<Rightarrow> sender \<Rightarrow> u16 \<Rightarrow> bytes \<Rightarrow> udp_packet" where
  "packet_from max_size s port data =
     \<lparr>packet_data = take max_size data, sender_ip = host_ip s, sender_port = port\<rparr>"

definition receive_from :: "nat \<Rightarrow> string + sender \<times> u16 \<times> bytes \<Rightarrow> bool \<Rightarrow> udp_packet result" where
  "receive_from max_size arrival is_open =
     (if \<not> is_open then failure no_packet error.closed ''Socket not open''
      else case arrival of
        Inl m \<Rightarrow> failure no_packet receive_failed m
      | Inr (s, port, data) \<Rightarrow> success (packet_from max_size s port data))"

text \<open>With a time limit; \<open>None\<close> is a receive whose handler did not run in time.\<close>

definition receive_from_timeout ::
  "nat \<Rightarrow> (string + sender \<times> u16 \<times> bytes) option \<Rightarrow> bool \<Rightarrow> udp_packet result"
where
  "receive_from_timeout max_size arrival is_open =
     (if \<not> is_open then failure no_packet error.closed ''Socket not open''
      else case arrival of
        None \<Rightarrow> failure no_packet receive_failed ''UDP receive timed out''
      | Some (Inl m) \<Rightarrow> failure no_packet receive_failed m
      | Some (Inr (s, port, data)) \<Rightarrow> success (packet_from max_size s port data))"

definition udp_close :: "bool \<Rightarrow> bool result \<times> bool" where
  "udp_close is_open = (success True, False)"

section \<open>Lemmas\<close>

lemma udp_open_ok: "ok (fst (udp_open open_ec is_open)) = snd (udp_open open_ec is_open)"
  by (simp add: udp_open_def split: option.split)

text \<open>Whatever succeeds leaves the socket open, and a closed one opens by itself for a send only.\<close>

lemma udp_success_open:
  "ok (fst (udp_bind open_ec reuse_ec broadcast_ec bind_ec b r s)) \<Longrightarrow>
    snd (udp_bind open_ec reuse_ec broadcast_ec bind_ec b r s)"
  "ok (fst (set_broadcast open_ec option_ec s)) \<Longrightarrow> snd (set_broadcast open_ec option_ec s)"
  "ok (fst (set_reuse_address open_ec option_ec s)) \<Longrightarrow> snd (set_reuse_address open_ec option_ec s)"
  "ok (fst (send_to_endpoint open_ec send_ec data s)) \<Longrightarrow> snd (send_to_endpoint open_ec send_ec data s)"
  "ok (fst (send_broadcast open_ec option_ec send_ec data s)) \<Longrightarrow> snd (send_broadcast open_ec option_ec send_ec data s)"
  by (auto simp: udp_bind_def set_broadcast_def set_reuse_address_def send_to_endpoint_def send_broadcast_def
      set_option_def udp_open_def Let_def split: option.splits if_splits)

lemma udp_receive_needs_open:
  "ok (receive_from n arrival s) \<Longrightarrow> s" "ok (receive_from_timeout n arrival' s) \<Longrightarrow> s"
  by (auto simp: receive_from_def receive_from_timeout_def split: if_splits)

text \<open>A datagram sent to an open socket with room for it is received as it was sent.\<close>

lemma udp_datagram_received:
  "length data \<le> n \<Longrightarrow> receive_from n (Inr (s, port, data)) True =
    success \<lparr>packet_data = data, sender_ip = host_ip s, sender_port = port\<rparr>"
  by (simp add: receive_from_def packet_from_def)

end
