(* ===== verification/Sockets.thy ===== *)
theory Sockets
  imports Session_Lemmas Client_Threads
begin

text \<open>
  \<open>common/tcp/tcpSocket.cpp\<close>, \<open>common/websocket/websocket.cpp\<close>, their servers and
  \<open>server/session/clientConnection.h\<close>, over what Boost answers: an error code is the message
  it gives (\<open>None\<close> for no error), a connection attempt succeeds, fails or runs out of time, a
  TCP stream is the bytes still to come.

  The session client and the server are modelled over links that deliver or fail; here the links
  are shown to be what these sockets make of the system's answers.
\<close>

section \<open>TCP\<close>


text \<open>\<open>Connect_Throws\<close> says, too, whether the socket is left open.\<close>

record tcp_socket =
  tcp_socket_open :: bool
  tcp_connected :: bool


definition accepted_tcp_socket :: "bool \<Rightarrow> tcp_socket" where
  "accepted_tcp_socket raw_open = \<lparr>tcp_socket_open = raw_open, tcp_connected = raw_open\<rparr>"



text \<open>A read fills the whole buffer, or fails for \<open>reason\<close> when the stream ends before.\<close>

definition tcp_receive :: "string \<Rightarrow> nat \<Rightarrow> bytes \<Rightarrow> tcp_socket \<Rightarrow> bytes result \<times> bytes" where
  "tcp_receive reason n stream s =
     (if \<not> tcp_connected s then (failure [] closed ''socket not connected'', stream)
      else case stream_receive n stream of
        None \<Rightarrow> (failure [] receive_failed reason, [])
      | Some (chunk, stream) \<Rightarrow> (success chunk, stream))"



section \<open>Websockets\<close>

text \<open>The stream is open after a handshake, the layer below it while its TCP socket is.\<close>

record web_socket =
  ws_stream_open :: bool
  ws_layer_open :: bool
  ws_connected :: bool

definition new_web_socket :: web_socket where
  "new_web_socket = \<lparr>ws_stream_open = False, ws_layer_open = False, ws_connected = False\<rparr>"

definition accepted_web_socket :: "bool \<Rightarrow> bool \<Rightarrow> web_socket" where
  "accepted_web_socket raw_open layer_open =
     \<lparr>ws_stream_open = raw_open, ws_layer_open = layer_open, ws_connected = raw_open\<rparr>"







section \<open>What both have in common\<close>




section \<open>A connection\<close>




text \<open>\<open>sessionClient::receive_msg\<close> over the sockets themselves.\<close>

definition receive_over_tcp :: "string \<Rightarrow> bytes \<Rightarrow> tcp_socket \<Rightarrow> (Message result \<times> bytes) option" where
  "receive_over_tcp reason stream s =
     (let (hdr_res, stream) = tcp_receive reason HEADER_SIZE stream s in
      if \<not> ok hdr_res then Some (failure no_message (err hdr_res) (message hdr_res), stream)
      else do {
        parsed \<leftarrow> parseHeader (val hdr_res);
        if \<not> ok parsed then Some (failure no_message (err parsed) (message parsed), stream)
        else
          (let hdr = val parsed in
           if hdr_length hdr > 0 then
             (let (pl, stream) = tcp_receive reason (unat (hdr_length hdr)) stream s in
              if \<not> ok pl then Some (failure no_message (err pl) (message pl), stream)
              else Some (success \<lparr>header = hdr, payload = val pl\<rparr>, stream))
           else Some (success \<lparr>header = hdr, payload = []\<rparr>, stream)) })"






lemma receive_over_tcp_closed:
  "\<not> tcp_connected s \<Longrightarrow> receive_over_tcp reason stream s =
    Some (failure no_message closed ''socket not connected'', stream)"
  by (simp add: receive_over_tcp_def tcp_receive_def)

section \<open>Properties\<close>



end
