(* ===== verification/Accept_Loops.thy ===== *)
theory Accept_Loops
  imports Sockets
begin

text \<open>
  \<open>common/tcp/tcpServer.cpp\<close>, \<open>common/websocket/websocketServer.cpp\<close> and the threads
  of \<open>server/server.cpp\<close>: accepting clients, starting their threads and shutting down.

  A call that never returns is a value of the model, and so is a thread that never ends. What a
  client thread does is in \<open>Server\<close>.
\<close>

section \<open>Accepting\<close>


definition tcp_accept :: "string + 'peer \<Rightarrow> 'peer option result" where
  "tcp_accept answer =
     (case answer of Inl reason \<Rightarrow> failure None accept_failed reason | Inr peer \<Rightarrow> success (Some peer))"



text \<open>A client thread: whom it serves, and whether it was asked to stop.\<close>

record 'peer client_thread =
  ct_peer :: 'peer
  stop_flag :: bool

definition start_thread :: "'peer \<Rightarrow> 'peer client_thread" where
  "start_thread peer = \<lparr>ct_peer = peer, stop_flag = False\<rparr>"

text \<open>
  The accept loops over what their calls answer until the server is told to stop: the threads they
  start, and, for websockets, whether the loop comes back from all of these calls.
\<close>

fun run_tcp_accept_loop :: "(string + 'peer) list \<Rightarrow> 'peer client_thread list" where
  "run_tcp_accept_loop [] = []"
| "run_tcp_accept_loop (answer # answers) =
     (let r = tcp_accept answer in
      if err r \<noteq> none then run_tcp_accept_loop answers
      else start_thread (the (val r)) # run_tcp_accept_loop answers)"


section \<open>Running and shutting down\<close>






section \<open>Lemmas\<close>

lemma ct_peer_start [simp]: "ct_peer (start_thread p) = p"
  by (simp add: start_thread_def)

lemma tcp_accept_loop_append:
  "run_tcp_accept_loop (xs @ ys) = run_tcp_accept_loop xs @ run_tcp_accept_loop ys"
  by (induction xs) (simp_all add: Let_def)






section \<open>Properties\<close>



end
