(* ===== verification/Render.thy ===== *)
theory Render
  imports Network_Properties
begin

text \<open>
  \<open>engine/engine.cpp\<close>, the end of a frame: when the canvas has changed its pixels go into a
  texture, which is what the window shows. Everything that changes the canvas raises \<open>dirty\<close>; the
  main thread looks at it, copies the pixels and lowers it, and the polling thread may change the
  canvas between any two of these. \<open>clear_canvas\<close> rebuilds the texture at once; it also raises the
  flag, so the same frame does it again, and the first time is left out.
\<close>

section \<open>The texture\<close>

text \<open>\<open>None\<close> is a texture that could not be made, or was unloaded: its \<open>id\<close> is 0.\<close>

type_synonym texture = "u32 list option"

definition sync_texture :: "u32 list \<Rightarrow> texture \<Rightarrow> texture" where
  "sync_texture ps t = (if ps \<noteq> [] then map_option (\<lambda>_. ps) t else t)"

definition rebuild_render_texture :: "canvas \<Rightarrow> texture \<Rightarrow> texture" where
  "rebuild_render_texture c t = (if t = None then t else sync_texture (copy_pixels c) t)"

definition is_pixel_tool :: "tool_type \<Rightarrow> bool" where
  "is_pixel_tool t \<longleftrightarrow> t = tool_freehand \<or> t = tool_brush \<or> t = tool_eraser"

definition preview_texture :: "app \<Rightarrow> texture \<Rightarrow> texture option" where
  "preview_texture a t =
     (case active_stroke a of
        None \<Rightarrow> Some t
      | Some st \<Rightarrow>
          if is_pixel_tool (tool st) then do {
            ps \<leftarrow> copy_pixels_with_preview st (surface a);
            Some (sync_texture ps t) }
          else Some t)"

section \<open>A frame, step by step\<close>

text \<open>
  The main thread has handled the events of the frame (\<open>events_done\<close>), has seen that it must
  rebuild the texture, has rebuilt it and must lower the flag, or may draw. In between the polling
  thread takes its turns, unless \<open>patient\<close> keeps it from doing so before the flag is lowered.
\<close>

datatype render_point = between_frames | events_done | rebuild_due | flag_due | drawing_due

record view =
  program :: app
  texture :: texture
  point :: render_point

inductive view_step :: "bool \<Rightarrow> view \<Rightarrow> view \<Rightarrow> bool" for patient :: bool where
  events: "point v = between_frames \<Longrightarrow> frame_body oc inp (program v) = Some a \<Longrightarrow>
    view_step patient v (v\<lparr>program := a, point := events_done\<rparr>)"
| look: "point v = events_done \<Longrightarrow>
    view_step patient v (v\<lparr>point := (if dirty (program v) then rebuild_due else drawing_due)\<rparr>)"
| rebuild: "point v = rebuild_due \<Longrightarrow>
    view_step patient v (v\<lparr>texture := rebuild_render_texture (surface (program v)) (texture v), point := flag_due\<rparr>)"
| lower: "point v = flag_due \<Longrightarrow>
    view_step patient v (v\<lparr>program := (program v)\<lparr>dirty := False\<rparr>, point := drawing_due\<rparr>)"
| draw: "point v = drawing_due \<Longrightarrow> preview_texture (program v) (texture v) = Some t \<Longrightarrow>
    view_step patient v (v\<lparr>texture := t, point := between_frames\<rparr>)"
| poll: "\<not> (patient \<and> point v = flag_due) \<Longrightarrow> poll_turn r (program v) = Some (a, going_on) \<Longrightarrow>
    view_step patient v (v\<lparr>program := a\<rparr>)"

inductive_cases view_stepE: "view_step patient v v'"

section \<open>Every change of the canvas raises the flag\<close>


definition pixel_stroke :: "app \<Rightarrow> bool" where
  "pixel_stroke a \<longleftrightarrow> (case active_stroke a of None \<Rightarrow> False | Some st \<Rightarrow> is_pixel_tool (tool st))"

text \<open>A step keeps a raised flag and raises it when it changes the canvas or ends a previewed stroke.\<close>

definition marks :: "app \<Rightarrow> app \<Rightarrow> bool" where
  "marks a a' \<longleftrightarrow> (dirty a \<longrightarrow> dirty a') \<and>
     (dirty a' \<or> surface a' = surface a \<and> (pixel_stroke a \<longrightarrow> pixel_stroke a'))"



lemma marks_refl [simp]: "marks a a"
  by (simp add: marks_def)











section \<open>Files, buttons and the frame\<close>






section \<open>What the window shows\<close>














end
