(* ===== verification/Widgets.thy ===== *)
theory Widgets
  imports Floats Draw_Operation
begin

text \<open>
  \<open>engine/ui/ui.cpp\<close> and \<open>engine/ui/components.cpp\<close>: the point of the canvas that
  belongs to a position of the mouse, the colour of a widget, and what the buttons and text fields
  make of the mouse and the keyboard. The test whether a point is in a rectangle, and what raylib
  reports of mouse and keys, are arguments.
\<close>

section \<open>Mouse positions\<close>

text \<open>A \<open>Vector2\<close> and a \<open>Rectangle\<close> of raylib: floats.\<close>

record vector2 =
  v_x :: rat
  v_y :: rat

record rectangle =
  rect_x :: rat
  rect_y :: rat
  rect_width :: rat
  rect_height :: rat

definition clamp_to_canvas :: "vector2 \<Rightarrow> rectangle \<Rightarrow> vector2" where
  "clamp_to_canvas p r =
     \<lparr>v_x = clamp (v_x p) (rect_x r) (fl32 (rect_x r + rect_width r)),
      v_y = clamp (v_y p) (rect_y r) (fl32 (rect_y r + rect_height r))\<rparr>"

text \<open>
  A division by zero gives an infinity, which is clamped, or, of zero by zero, no number; the cast
  of that is undefined.
\<close>

definition divide32 :: "rat \<Rightarrow> rat \<Rightarrow> rat option" where
  "divide32 a b =
     (if b \<noteq> 0 then Some (clamp (fl32 (a / b)) 0 1)
      else if a < 0 then Some 0 else if a > 0 then Some 1 else None)"

definition float_to_u16 :: "rat \<Rightarrow> u16 option" where
  "float_to_u16 x = (let z = trunc x in if 0 \<le> z \<and> z < 65536 then Some (word_of_int z) else None)"

definition normalize_point :: "vector2 \<Rightarrow> rectangle \<Rightarrow> canvas_point option" where
  "normalize_point p r = do {
     x \<leftarrow> divide32 (fl32 (v_x p - rect_x r)) (rect_width r);
     y \<leftarrow> divide32 (fl32 (v_y p - rect_y r)) (rect_height r);
     px \<leftarrow> float_to_u16 (fl32 (x * 65535));
     py \<leftarrow> float_to_u16 (fl32 (y * 65535));
     Some \<lparr>pt_x = px, pt_y = py\<rparr> }"

record rgba =
  rgba_r :: u8
  rgba_g :: u8
  rgba_b :: u8
  rgba_a :: u8

definition argb_to_color :: "u32 \<Rightarrow> rgba" where
  "argb_to_color argb =
     \<lparr>rgba_r = ucast (argb AND 0xFF), rgba_g = ucast (drop_bit 8 argb AND 0xFF),
      rgba_b = ucast (drop_bit 16 argb AND 0xFF), rgba_a = ucast (drop_bit 24 argb AND 0xFF)\<rparr>"

section \<open>Buttons and fields\<close>

text \<open>
  The structures of \<open>components.h\<close>. The string a text field is bound to belongs to another part
  of the program, so the operations of a field take it as an argument.
\<close>

record widget =
  bounds :: rectangle

record labelled = widget +
  label :: string

record button = labelled +
  btn_active :: bool
  btn_down :: bool

record text_field = labelled +
  focused :: bool

record tool_button = labelled +
  tool_id :: tool_type
  tool_selected :: bool
  tool_down :: bool

record color_swatch = widget +
  swatch_color :: u32
  swatch_selected :: bool

record panel = widget +
  bg_color :: rgba

text \<open>The mouse in one frame; \<open>hit\<close> is \<open>CheckCollisionPointRec\<close>.\<close>

record mouse_state =
  mouse_at :: vector2
  mouse_pressed :: bool
  mouse_down :: bool
  mouse_released :: bool

type_synonym hit_test = "vector2 \<Rightarrow> rectangle \<Rightarrow> bool"

text \<open>\<open>is_down\<close> before and after, and whether the button was clicked.\<close>

definition press_release :: "mouse_state \<Rightarrow> bool \<Rightarrow> bool \<Rightarrow> bool \<times> bool" where
  "press_release m hovered was_down =
     (let was_down = (if mouse_pressed m \<and> hovered then True else was_down) in
      if mouse_released m then (False, was_down \<and> hovered) else (was_down, False))"

definition button_update :: "hit_test \<Rightarrow> mouse_state \<Rightarrow> button \<Rightarrow> button \<times> bool" where
  "button_update hit m b =
     (let (now_down, clicked) = press_release m (hit (mouse_at m) (bounds b)) (btn_down b)
      in (b\<lparr>btn_down := now_down\<rparr>, clicked))"

definition tool_button_update :: "hit_test \<Rightarrow> mouse_state \<Rightarrow> tool_button \<Rightarrow> tool_button \<times> bool" where
  "tool_button_update hit m b =
     (let (now_down, clicked) = press_release m (hit (mouse_at m) (bounds b)) (tool_down b)
      in (b\<lparr>tool_down := now_down\<rparr>, clicked))"

definition swatch_update :: "hit_test \<Rightarrow> mouse_state \<Rightarrow> color_swatch \<Rightarrow> bool" where
  "swatch_update hit m b \<longleftrightarrow> hit (mouse_at m) (bounds b) \<and> mouse_pressed m"

text \<open>
  The keys typed since the last frame are a queue, which the first focused field empties: it takes
  keys up to the first that is not positive, which is what \<open>GetCharPressed\<close> answers at the end.
\<close>

fun type_keys :: "int list \<Rightarrow> string \<Rightarrow> string \<times> int list" where
  "type_keys [] t = (t, [])"
| "type_keys (key # ks) t =
     (if \<not> key > 0 then (t, ks)
      else type_keys ks (if 32 \<le> key \<and> key \<le> 125 \<and> length t < 32 then t @ [char_of (nat key)] else t))"

definition text_field_update ::
  "hit_test \<Rightarrow> mouse_state \<Rightarrow> bool \<Rightarrow> int list \<Rightarrow> string \<Rightarrow> text_field \<Rightarrow> text_field \<times> string \<times> int list"
where
  "text_field_update hit m backspace ks t f =
     (let f = (if mouse_pressed m then f\<lparr>focused := hit (mouse_at m) (bounds f)\<rparr> else f) in
      if focused f then
        (let (t, ks) = type_keys ks t in (f, if backspace \<and> t \<noteq> [] then butlast t else t, ks))
      else (f, t, ks))"

section \<open>Lemmas\<close>

lemma round_half_even_nonneg: "0 \<le> x \<Longrightarrow> 0 \<le> round_half_even x"
  by (auto simp: round_half_even_def Let_def)

lemma fl32_nonneg: "0 \<le> x \<Longrightarrow> 0 \<le> fl32 x"
  using round_half_even_nonneg [of "x / ulp 24 (- 149) x"]
  by (simp add: fl32_def round_to_def less_imp_le)

lemma fl32_below_65536:
  assumes "0 \<le> x" and "x \<le> 65535"
  shows "fl32 x < 65536"
proof (cases "x = 0")
  case False
  with assms(1) have pos: "0 < x" by simp
  have "(2 :: rat) powi log2_floor x < 2 powi 16"
    using log2_floor_bounds(1) [OF pos] assms(2) by (simp add: power_int_def)
  then have "log2_floor x < 16"
    using powi_le [of 16 "log2_floor x"] by linarith
  then have "ulp 24 (- 149) x \<le> 2 powi 0"
    using pos unfolding ulp_def by (intro powi_le) simp
  then have "\<bar>fl32 x - x\<bar> \<le> 1 / 2"
    using round_to_error [of 24 "- 149" x] by (simp add: fl32_def)
  with assms(2) show ?thesis by linarith
qed simp

lemma float_to_u16_defined:
  assumes "0 \<le> x" and "x \<le> 65535"
  shows "\<exists>v. float_to_u16 (fl32 x) = Some v"
proof -
  have "0 \<le> fl32 x" "fl32 x < 65536" using fl32_nonneg [OF assms(1)] fl32_below_65536 [OF assms] by simp_all
  then have "0 \<le> trunc (fl32 x)" "trunc (fl32 x) < 65536"
    by (auto simp: trunc_def floor_less_iff)
  then show ?thesis by (simp add: float_to_u16_def)
qed

lemma divide32_range: "divide32 a b = Some x \<Longrightarrow> 0 \<le> x \<and> x \<le> 1"
  by (auto simp: divide32_def clamp_def split: if_split_asm)

lemma normalize_coordinate:
  assumes "divide32 a b = Some x"
  shows "\<exists>v. float_to_u16 (fl32 (x * 65535)) = Some v"
  using divide32_range [OF assms] by (intro float_to_u16_defined) simp_all

lemma float_to_u16_of_nat: "n < 65536 \<Longrightarrow> float_to_u16 (of_nat n) = Some (word_of_nat n)"
  using trunc_of_int [of "int n"] by (simp add: float_to_u16_def Let_def)

lemma type_keys_length: "length t \<le> 32 \<Longrightarrow> length (fst (type_keys ks t)) \<le> 32"
  by (induction ks t rule: type_keys.induct) auto

text \<open>
  \<open>is_down\<close> of a button through a series of frames, each with whether the mouse is over it.
\<close>

fun press_history :: "(mouse_state \<times> bool) list \<Rightarrow> bool \<Rightarrow> bool" where
  "press_history [] was_down = was_down"
| "press_history ((m, hovered) # ms) was_down = press_history ms (fst (press_release m hovered was_down))"

section \<open>Properties\<close>

text \<open>A position of the mouse, anywhere on the screen, is a point of the canvas without undefined
  behaviour as long as the canvas is shown with some extent; its edges are the first and the last
  coordinate. Only a canvas without extent, with the mouse on it, makes the cast undefined.\<close>

theorem normalize_point_defined:
  assumes "rect_width r \<noteq> 0" and "rect_height r \<noteq> 0"
  shows "(\<exists>q. normalize_point p r = Some q) \<and>
    normalize_point \<lparr>v_x = rect_x r, v_y = rect_y r\<rparr> r = Some \<lparr>pt_x = 0, pt_y = 0\<rparr> \<and>
    (fl32 (v_x p - rect_x r) = rect_width r \<and> fl32 (v_y p - rect_y r) = rect_height r \<longrightarrow>
      normalize_point p r = Some \<lparr>pt_x = 65535, pt_y = 65535\<rparr>)"
proof -
  obtain x y where xy: "divide32 (fl32 (v_x p - rect_x r)) (rect_width r) = Some x"
    "divide32 (fl32 (v_y p - rect_y r)) (rect_height r) = Some y"
    using assms by (simp add: divide32_def)
  then have "\<exists>q. normalize_point p r = Some q"
    using normalize_coordinate [OF xy(1)] normalize_coordinate [OF xy(2)]
    by (auto simp: normalize_point_def)
  moreover have ends: "float_to_u16 0 = Some 0" "float_to_u16 65535 = Some 65535" "fl32 65535 = 65535"
    using float_to_u16_of_nat [of 0] float_to_u16_of_nat [of 65535] fl_of_int(1) [of 65535] by simp_all
  moreover have "divide32 0 (rect_width r) = Some 0" "divide32 0 (rect_height r) = Some 0"
    "divide32 (rect_width r) (rect_width r) = Some 1" "divide32 (rect_height r) (rect_height r) = Some 1"
    using assms by (simp_all add: divide32_def clamp_def)
  ultimately show ?thesis by (simp add: normalize_point_def)
qed

lemma normalize_point_defined_witness:
  "normalize_point \<lparr>v_x = 220, v_y = 50\<rparr> \<lparr>rect_x = 220, rect_y = 50, rect_width = 800, rect_height = 465\<rparr> =
    Some \<lparr>pt_x = 0, pt_y = 0\<rparr>"
  using normalize_point_defined [of "\<lparr>rect_x = 220, rect_y = 50, rect_width = 800, rect_height = 465\<rparr>"] by simp

end
