(* ===== verification/Layout.thy ===== *)
theory Layout
  imports Widgets Sketch_File
begin

text \<open>
  \<open>AppLayout::update_layout\<close> of \<open>engine/ui/app_layout.cpp\<close> and the rectangle of the
  canvas in the window, from \<open>engine/engine.cpp\<close>: where the widgets are, in floats. A press is taken for a widget or for the canvas by the rectangles alone, so
  these must not meet.
\<close>

section \<open>The widgets\<close>

abbreviation (input) LEFT_PANEL_WIDTH :: rat where "LEFT_PANEL_WIDTH \<equiv> 220"
abbreviation (input) RIGHT_PANEL_WIDTH :: rat where "RIGHT_PANEL_WIDTH \<equiv> 220"
abbreviation (input) BOTTOM_PANEL_HEIGHT :: rat where "BOTTOM_PANEL_HEIGHT \<equiv> 160"
abbreviation (input) TOP_BAR_HEIGHT :: rat where "TOP_BAR_HEIGHT \<equiv> 50"

record app_layout =
  left_panel :: panel
  right_panel :: panel
  bottom_panel :: panel
  open_btn :: button
  save_btn :: button
  save_as_btn :: button
  auto_save_btn :: button
  clear_btn :: button
  host_field :: text_field
  port_field :: text_field
  protocol_toggle :: button
  connect_btn :: button
  local_server_btn :: button
  session_id_field :: text_field
  join_btn :: button
  create_btn :: button
  leave_btn :: button
  tool_buttons :: "tool_button list"
  thickness_buttons :: "button list"
  color_swatches :: "color_swatch list"

definition rect :: "rat \<Rightarrow> rat \<Rightarrow> rat \<Rightarrow> rat \<Rightarrow> rectangle" where
  "rect x y w h = \<lparr>rect_x = x, rect_y = y, rect_width = w, rect_height = h\<rparr>"

text \<open>What the lists are filled with.\<close>

definition tools :: "(tool_type \<times> string) list" where
  "tools = [(tool_freehand, ''Freehand''), (tool_brush, ''Brush''), (tool_line, ''Line''), (tool_rect, ''Rect''),
     (tool_filled_rect, ''Fill Rect''), (tool_ellipse, ''Ellipse''), (tool_filled_ellipse, ''Fill Ellipse''),
     (tool_eraser, ''Eraser''), (tool_bucket_fill, ''Bucket Fill'')]"

definition new_tool_buttons :: "tool_button list" where
  "new_tool_buttons = map (\<lambda>(t, name). \<lparr>bounds = rect 0 0 0 0, label = name, tool_id = t,
     tool_selected = False, tool_down = False\<rparr>) tools"

definition thicknesses :: "u8 list" where
  "thicknesses = [1, 2, 4, 8]"

definition new_button :: "string \<Rightarrow> button" where
  "new_button name = \<lparr>bounds = rect 0 0 0 0, label = name, btn_active = False, btn_down = False\<rparr>"

definition new_thickness_buttons :: "button list" where
  "new_thickness_buttons = map (\<lambda>t. new_button (to_string (unat t))) thicknesses"

definition palette :: "u32 list" where
  "palette = [0xFF000000, 0xFFE53935, 0xFFFFB300, 0xFF43A047, 0xFF1E88E5, 0xFF5E35B1, 0xFF795548, 0xFFFFFFFF]"

definition new_color_swatches :: "color_swatch list" where
  "new_color_swatches = map (\<lambda>c. \<lparr>bounds = rect 0 0 0 0, swatch_color = c, swatch_selected = False\<rparr>) palette"

text \<open>A widget at its place, with its label.\<close>

definition moved :: "rectangle \<Rightarrow> 'a widget_scheme \<Rightarrow> 'a widget_scheme" where
  "moved r w = w\<lparr>bounds := r\<rparr>"

definition named :: "rectangle \<Rightarrow> string \<Rightarrow> 'a labelled_scheme \<Rightarrow> 'a labelled_scheme" where
  "named r name w = w\<lparr>bounds := r, label := name\<rparr>"

text \<open>The text fields move only while they are shown, which is for websockets.\<close>

definition network_bounds :: "rat \<Rightarrow> bool \<Rightarrow> app_layout \<Rightarrow> app_layout" where
  "network_bounds wh websocket l =
     (if websocket then
        l\<lparr>host_field := named (rect 15 (fl32 (wh - 120)) 200 30) ''Server Address'' (host_field l),
          port_field := named (rect 15 (fl32 (wh - 65)) 200 30) ''Port'' (port_field l),
          protocol_toggle := moved (rect 230 (fl32 (wh - 120)) 90 30) (protocol_toggle l),
          connect_btn := moved (rect 230 (fl32 (wh - 70)) 110 35) (connect_btn l),
          local_server_btn := moved (rect 350 (fl32 (wh - 70)) 150 35) (local_server_btn l)\<rparr>
      else
        l\<lparr>protocol_toggle := moved (rect 15 (fl32 (wh - 120)) 90 30) (protocol_toggle l),
          connect_btn := moved (rect 15 (fl32 (wh - 70)) 110 35) (connect_btn l),
          local_server_btn := moved (rect 135 (fl32 (wh - 70)) 150 35) (local_server_btn l)\<rparr>)"

text \<open>The left edge of the tools, and the rows below them.\<close>

definition tools_x :: "rat \<Rightarrow> rat" where
  "tools_x ww = fl32 (fl32 (ww - RIGHT_PANEL_WIDTH) + 15)"

definition rows_y :: "nat \<Rightarrow> rat" where
  "rows_y n = fl32 (fl32 (TOP_BAR_HEIGHT + 55) + fl32 (fl32 (of_nat n) * 35))"

definition tool_bounds :: "rat \<Rightarrow> nat \<Rightarrow> rectangle" where
  "tool_bounds ww i = rect (tools_x ww) (fl32 (fl32 (TOP_BAR_HEIGHT + 45) + fl32 (fl32 (of_nat i) * 35)))
     (fl32 (RIGHT_PANEL_WIDTH - 30)) 30"

definition thickness_bounds :: "rat \<Rightarrow> nat \<Rightarrow> nat \<Rightarrow> rectangle" where
  "thickness_bounds ww n i = rect (fl32 (tools_x ww + fl32 (fl32 (of_nat i) * 45))) (fl32 (rows_y n + 25)) 40 30"

definition swatch_bounds :: "rat \<Rightarrow> nat \<Rightarrow> nat \<Rightarrow> rectangle" where
  "swatch_bounds ww n i =
     (let next_y = fl32 (rows_y n + 75) in
      rect (fl32 (tools_x ww + fl32 (fl32 (of_nat (i mod 4)) * 45)))
        (fl32 (fl32 (next_y + 25) + fl32 (fl32 (of_nat (i div 4)) * 45))) 40 40)"

text \<open>The lists are filled by the first call and moved by every one.\<close>

definition placed :: "'a widget_scheme list \<Rightarrow> (nat \<Rightarrow> rectangle) \<Rightarrow> 'a widget_scheme list \<Rightarrow> 'a widget_scheme list" where
  "placed initial place ws =
     (let ws = (if ws = [] then initial else ws) in map (\<lambda>i. moved (place i) (ws ! i)) [0..<length ws])"

definition update_layout :: "rat \<Rightarrow> rat \<Rightarrow> bool \<Rightarrow> app_layout \<Rightarrow> app_layout" where
  "update_layout ww wh websocket l =
     (let l = l\<lparr>left_panel := moved (rect 0 TOP_BAR_HEIGHT LEFT_PANEL_WIDTH (fl32 (wh - TOP_BAR_HEIGHT))) (left_panel l),
            right_panel := moved (rect (fl32 (ww - RIGHT_PANEL_WIDTH)) TOP_BAR_HEIGHT RIGHT_PANEL_WIDTH
              (fl32 (wh - TOP_BAR_HEIGHT))) (right_panel l),
            bottom_panel := moved (rect 0 (fl32 (wh - BOTTOM_PANEL_HEIGHT)) ww BOTTOM_PANEL_HEIGHT) (bottom_panel l),
            open_btn := named (rect 15 10 60 30) ''Open'' (open_btn l),
            save_btn := named (rect 80 10 60 30) ''Save'' (save_btn l),
            save_as_btn := named (rect 145 10 80 30) ''Save As'' (save_as_btn l),
            auto_save_btn := named (rect 230 10 110 30) ''Auto-Save'' (auto_save_btn l),
            clear_btn := named (rect 345 10 75 30) ''Clear'' (clear_btn l)\<rparr>;
          l = network_bounds wh websocket l;
          l = l\<lparr>session_id_field := named (rect (fl32 (ww - 215)) (fl32 (wh - 120)) 200 30) ''Session ID'' (session_id_field l),
            join_btn := named (rect (fl32 (ww - 385)) (fl32 (wh - 70)) 80 35) ''Join'' (join_btn l),
            create_btn := named (rect (fl32 (ww - 295)) (fl32 (wh - 70)) 80 35) ''Create'' (create_btn l),
            leave_btn := named (rect (fl32 (ww - 295)) (fl32 (wh - 70)) 80 35) ''Leave'' (leave_btn l),
            tool_buttons := placed new_tool_buttons (tool_bounds ww) (tool_buttons l)\<rparr>;
          n = length (tool_buttons l)
      in l\<lparr>thickness_buttons := placed new_thickness_buttons (thickness_bounds ww n) (thickness_buttons l),
          color_swatches := placed new_color_swatches (swatch_bounds ww n) (color_swatches l)\<rparr>)"

text \<open>Where the widgets are that a frame updates in a session or outside of one.\<close>

definition live_widgets :: "bool \<Rightarrow> bool \<Rightarrow> app_layout \<Rightarrow> rectangle list" where
  "live_widgets websocket in_session l =
     map bounds [open_btn l, save_btn l, save_as_btn l, auto_save_btn l, clear_btn l, protocol_toggle l, connect_btn l,
       local_server_btn l] @
     map bounds (if in_session then [leave_btn l] else [join_btn l, create_btn l]) @
     map bounds (if websocket then [host_field l, port_field l] else []) @ [bounds (session_id_field l)] @
     map bounds (tool_buttons l) @ map bounds (thickness_buttons l) @ map bounds (color_swatches l)"

section \<open>The canvas in the window\<close>

text \<open>\<open>0.95f\<close>, and the rectangle, from the window and the size of the surface.\<close>

definition margin :: rat where
  "margin = fl32 (95 / 100)"

definition canvas_rect :: "rat \<Rightarrow> rat \<Rightarrow> u32 \<Rightarrow> u32 \<Rightarrow> rectangle" where
  "canvas_rect ww wh surface_width surface_height =
     (let canvas_area_w = fl32 (fl32 (ww - LEFT_PANEL_WIDTH) - RIGHT_PANEL_WIDTH);
          canvas_area_h = fl32 (fl32 (wh - TOP_BAR_HEIGHT) - BOTTOM_PANEL_HEIGHT);
          ratio = fl32 (fl32 (of_nat (unat surface_width)) / fl32 (of_nat (unat surface_height)));
          cw = fl32 (canvas_area_w * margin);
          ch = fl32 (cw / ratio);
          (cw, ch) = (if ch > fl32 (canvas_area_h * margin)
            then (fl32 (fl32 (canvas_area_h * margin) * ratio), fl32 (canvas_area_h * margin)) else (cw, ch))
      in rect (fl32 (LEFT_PANEL_WIDTH + fl32 (fl32 (canvas_area_w - cw) * (1 / 2))))
           (fl32 (TOP_BAR_HEIGHT + fl32 (fl32 (canvas_area_h - ch) * (1 / 2)))) cw ch)"

text \<open>What a frame tells the canvas of the mouse; \<open>hit\<close> is \<open>CheckCollisionPointRec\<close>.\<close>

definition canvas_mouse ::
  "hit_test \<Rightarrow> vector2 \<Rightarrow> rectangle \<Rightarrow> bool \<Rightarrow> bool \<Rightarrow> bool \<Rightarrow> tool_type \<Rightarrow> canvas_input_state option"
where
  "canvas_mouse hit mouse r pressed held released active = do {
     position \<leftarrow> normalize_point (clamp_to_canvas mouse r) r;
     Some \<lparr>in_inside = hit mouse r, in_pressed = pressed, in_down = held, in_released = released,
       in_position = position, in_tool = active\<rparr> }"

section \<open>Lemmas\<close>

lemma rect_sel [simp]:
  "rect_x (rect x y w h) = x" "rect_y (rect x y w h) = y"
  "rect_width (rect x y w h) = w" "rect_height (rect x y w h) = h"
  by (simp_all add: rect_def)

lemma fl32_error: "\<bar>fl32 x - x\<bar> \<le> \<bar>x\<bar> / 2 ^ 24 + 1 / 2 ^ 30"
proof (cases "x = 0")
  case False
  have "(2 :: rat) powi (- 149) \<le> 2 powi (- 30)" by (rule powi_le) simp
  then have "ulp 24 (- 149) x \<le> 1 / 2 ^ 23 * \<bar>x\<bar> + 1 / 2 ^ 30"
    using ulp_bound [OF False, of 24 "- 149"] by (simp add: power_int_minus field_simps)
  with round_to_error [of 24 "- 149" x] show ?thesis by (simp add: fl32_def field_simps)
qed simp

text \<open>Coordinates of a window, and numbers near one.\<close>

lemma fl32_window: "\<bar>x\<bar> \<le> 20000 \<Longrightarrow> \<bar>fl32 x - x\<bar> \<le> 1 / 100"
  using fl32_error [of x] by (simp add: field_simps)

lemma fl32_near_one: "\<bar>x\<bar> \<le> 2 \<Longrightarrow> \<bar>fl32 x - x\<bar> \<le> 1 / 100000"
  using fl32_error [of x] by (simp add: field_simps)

text \<open>A window of whole pixels: the sums of the layout are exact.\<close>

lemma fl32_whole:
  assumes "\<bar>k\<bar> \<le> 20000" and "\<bar>n\<bar> \<le> 2000"
  shows "fl32 (of_int k - of_int n) = of_int k - of_int n" "fl32 (of_int k + of_int n) = of_int k + of_int n"
  using fl_of_int(1) [of "k - n"] fl_of_int(1) [of "k + n"] assms by simp_all

lemma fl32_steps:
  assumes "i < 100"
  shows "fl32 (fl32 (of_nat i) * 45) = of_int (45 * int i)"
  using fl_of_int(1) [of "int i"] fl_of_int(1) [of "45 * int i"] assms by (simp add: mult.commute)

definition window :: "int \<Rightarrow> int \<Rightarrow> bool" where
  "window w h \<longleftrightarrow> 1024 \<le> w \<and> w \<le> 16384 \<and> 768 \<le> h \<and> h \<le> 16384"

lemma tools_x_eq: "window w h \<Longrightarrow> tools_x (of_int w) = of_int w - 205"
  using fl32_whole(1) [of w 220] fl32_whole(2) [of "w - 220" 15] by (simp add: window_def tools_x_def)

lemma column_x_eq:
  "window w h \<Longrightarrow> i < 40 \<Longrightarrow>
    fl32 (tools_x (of_int w) + fl32 (fl32 (of_nat i) * 45)) = of_int w - 205 + of_int (45 * int i)"
  using fl32_whole(2) [of "w - 205" "45 * int i"] fl32_steps [of i]
  by (simp add: tools_x_eq) (simp add: window_def)

text \<open>Something not larger than its area, put into the middle of it, stays inside.\<close>

lemma centered:
  fixes a v base :: rat
  assumes "500 \<le> a" and "a \<le> 16384" and "0 \<le> v" and "v \<le> 951 / 1000 * a" and "0 \<le> base" and "base \<le> 1000"
  shows "base \<le> fl32 (base + fl32 (fl32 (a - v) * (1 / 2)))"
    and "fl32 (fl32 (base + fl32 (fl32 (a - v) * (1 / 2))) + v) \<le> base + a"
proof -
  define gap where "gap = fl32 (a - v)"
  define off where "off = fl32 (gap * (1 / 2))"
  define left where "left = fl32 (base + off)"
  have gap: "\<bar>gap - (a - v)\<bar> \<le> 1 / 100" unfolding gap_def by (rule fl32_window) (use assms in simp)
  then have off: "\<bar>off - gap * (1 / 2)\<bar> \<le> 1 / 100"
    unfolding off_def by (intro fl32_window) (use assms in linarith)
  with gap have left: "\<bar>left - (base + off)\<bar> \<le> 1 / 100"
    unfolding left_def by (intro fl32_window) (use assms in linarith)
  with gap off have "\<bar>fl32 (left + v) - (left + v)\<bar> \<le> 1 / 100"
    by (intro fl32_window) (use assms in linarith)
  with gap off left assms show "base \<le> fl32 (base + fl32 (fl32 (a - v) * (1 / 2)))"
    "fl32 (fl32 (base + fl32 (fl32 (a - v) * (1 / 2))) + v) \<le> base + a"
    unfolding gap_def [symmetric] off_def [symmetric] left_def [symmetric] by linarith+
qed

lemma margin_bounds: "9499 / 10000 \<le> margin" "margin \<le> 9501 / 10000"
proof -
  have "\<bar>fl32 (95 / 100) - 95 / 100\<bar> \<le> 1 / 100000" by (rule fl32_near_one) simp
  then show "9499 / 10000 \<le> margin" "margin \<le> 9501 / 10000" unfolding margin_def by linarith+
qed

text \<open>A part of an area by the margin.\<close>

lemma margin_part:
  assumes "500 \<le> a" and "a \<le> 16384"
  shows "400 \<le> fl32 (a * margin)" and "fl32 (a * margin) \<le> 9502 / 10000 * a"
proof -
  have "a * margin \<le> a * (9501 / 10000)" "a * (9499 / 10000) \<le> a * margin"
    using margin_bounds assms by (intro mult_left_mono; simp)+
  moreover from this assms have "\<bar>fl32 (a * margin) - a * margin\<bar> \<le> 1 / 100"
    by (intro fl32_window) linarith
  ultimately show "400 \<le> fl32 (a * margin)" "fl32 (a * margin) \<le> 9502 / 10000 * a" using assms by linarith+
qed

definition aspect :: rat where
  "aspect = fl32 (1280 / 744)"

lemma aspect_bounds: "17 / 10 \<le> aspect" "aspect \<le> 18 / 10"
proof -
  have "\<bar>fl32 (1280 / 744) - 1280 / 744\<bar> \<le> 1 / 100000" by (rule fl32_near_one) simp
  then show "17 / 10 \<le> aspect" "aspect \<le> 18 / 10" unfolding aspect_def by linarith+
qed

text \<open>The two sizes the code chooses from.\<close>

lemma canvas_size:
  assumes "500 \<le> a" and "a \<le> 16384" and "500 \<le> b" and "b \<le> 16384"
    and "(cw, ch) = (if fl32 (fl32 (a * margin) / aspect) > fl32 (b * margin)
      then (fl32 (fl32 (b * margin) * aspect), fl32 (b * margin))
      else (fl32 (a * margin), fl32 (fl32 (a * margin) / aspect)))"
  shows "100 \<le> cw \<and> cw \<le> 951 / 1000 * a \<and> 100 \<le> ch \<and> ch \<le> 951 / 1000 * b"
proof -
  define cw0 where "cw0 = fl32 (a * margin)"
  define bm where "bm = fl32 (b * margin)"
  define ch0 where "ch0 = fl32 (cw0 / aspect)"
  have cw0: "400 \<le> cw0" "cw0 \<le> 9502 / 10000 * a" unfolding cw0_def using margin_part [OF assms(1,2)] by simp_all
  have bm: "400 \<le> bm" "bm \<le> 9502 / 10000 * b" unfolding bm_def using margin_part [OF assms(3,4)] by simp_all
  have pos: "0 < aspect" using aspect_bounds by simp
  have quotient: "cw0 / aspect * aspect = cw0" using pos by simp
  have "cw0 / aspect \<le> cw0" "200 \<le> cw0 / aspect"
    using cw0(1) aspect_bounds mult_left_mono [of 1 aspect cw0] pos by (simp_all add: divide_le_eq le_divide_eq)
  then have error: "\<bar>ch0 - cw0 / aspect\<bar> \<le> 1 / 100" unfolding ch0_def
    by (intro fl32_window) (use cw0 assms in linarith)
  then have ch0: "ch0 \<le> cw0 / aspect + 1 / 100" "100 \<le> ch0" using \<open>200 \<le> cw0 / aspect\<close> by linarith+
  show ?thesis
  proof (cases "ch0 > bm")
    case True
    with ch0 have "bm * aspect \<le> (cw0 / aspect + 1 / 100) * aspect" using pos by (intro mult_right_mono) simp_all
    then have "bm * aspect \<le> cw0 + 2 / 100" using quotient aspect_bounds by (simp add: distrib_right)
    moreover have "400 \<le> bm * aspect" using mult_mono [of 400 bm 1 aspect] bm(1) aspect_bounds by simp
    moreover from calculation have "\<bar>fl32 (bm * aspect) - bm * aspect\<bar> \<le> 1 / 100"
      by (intro fl32_window) (use cw0 assms in linarith)
    ultimately have "fl32 (bm * aspect) \<le> 951 / 1000 * a" "100 \<le> fl32 (bm * aspect)" using cw0 assms by linarith+
    with True bm assms show ?thesis by (simp flip: cw0_def bm_def ch0_def)
  next
    case False
    with cw0 bm ch0 assms show ?thesis by (simp flip: cw0_def bm_def ch0_def)
  qed
qed

lemma canvas_rect_inside:
  assumes "window w h"
  defines "r \<equiv> canvas_rect (of_int w) (of_int h) 1280 744"
  shows "220 \<le> rect_x r" "fl32 (rect_x r + rect_width r) \<le> of_int w - 220"
    and "50 \<le> rect_y r" "fl32 (rect_y r + rect_height r) \<le> of_int h - 160"
    and "0 < rect_width r" "0 < rect_height r" "100 \<le> rect_width r" "100 \<le> rect_height r"
proof -
  let ?a = "of_int (w - 440) :: rat" and ?b = "of_int (h - 210) :: rat"
  have areas: "fl32 (fl32 (of_int w - 220) - 220) = ?a" "fl32 (fl32 (of_int h - 50) - 160) = ?b"
    using assms(1) fl32_whole(1) [of w 220] fl32_whole(1) [of "w - 220" 220] fl32_whole(1) [of h 50]
      fl32_whole(1) [of "h - 50" 160] by (simp_all add: window_def)
  have ratio: "fl32 (fl32 (of_nat (unat (1280 :: u32))) / fl32 (of_nat (unat (744 :: u32)))) = aspect"
    using fl_of_int(1) [of 1280] fl_of_int(1) [of 744] by (simp add: aspect_def)
  obtain cw ch where size: "(cw, ch) = (if fl32 (fl32 (?a * margin) / aspect) > fl32 (?b * margin)
      then (fl32 (fl32 (?b * margin) * aspect), fl32 (?b * margin))
      else (fl32 (?a * margin), fl32 (fl32 (?a * margin) / aspect)))"
    by (metis surj_pair)
  have bounds: "500 \<le> ?a" "?a \<le> 16384" "500 \<le> ?b" "?b \<le> 16384" using assms(1) by (simp_all add: window_def)
  have r: "r = rect (fl32 (220 + fl32 (fl32 (?a - cw) * (1 / 2)))) (fl32 (50 + fl32 (fl32 (?b - ch) * (1 / 2)))) cw ch"
    using size unfolding r_def canvas_rect_def areas ratio Let_def by (auto split: if_split_asm)
  from canvas_size [OF bounds size] centered [OF bounds(1,2), of cw 220] centered [OF bounds(3,4), of ch 50]
  show "220 \<le> rect_x r" "fl32 (rect_x r + rect_width r) \<le> of_int w - 220"
    "50 \<le> rect_y r" "fl32 (rect_y r + rect_height r) \<le> of_int h - 160"
    "0 < rect_width r" "0 < rect_height r" "100 \<le> rect_width r" "100 \<le> rect_height r"
    by (simp_all add: r)
qed

text \<open>The lists of a layout are those of the first call, or not yet filled.\<close>

definition layout_inv :: "app_layout \<Rightarrow> bool" where
  "layout_inv l \<longleftrightarrow> map tool_id (tool_buttons l) \<in> {[], map fst tools} \<and>
     length (thickness_buttons l) \<in> {0, length thicknesses} \<and> map swatch_color (color_swatches l) \<in> {[], palette}"

lemma moved_sel [simp]: "bounds (moved r w) = r" "label (moved r b) = label b" "tool_id (moved r t) = tool_id t"
  "swatch_color (moved r sw) = swatch_color sw"
  by (simp_all add: moved_def)

lemma named_sel [simp]: "bounds (named r t w) = r" "label (named r t w) = t"
  by (simp_all add: named_def)

lemma length_placed: "length (placed initial place ws) = (if ws = [] then length initial else length ws)"
  by (simp add: placed_def Let_def)

lemma map_placed:
  assumes "\<And>r w. f (moved r w) = f w"
  shows "map f (placed initial place ws) = (if ws = [] then map f initial else map f ws)"
proof -
  have "map (\<lambda>i. f (ws ! i)) [0..<length ws] = map f ws" for ws
    using map_map [of f "(!) ws" "[0..<length ws]"] by (simp add: map_nth o_def)
  then show ?thesis by (simp add: placed_def Let_def o_def assms)
qed

lemma bounds_placed: "map bounds (placed initial place ws) = map place [0..<length (placed initial place ws)]"
  by (simp add: placed_def Let_def)

lemma layout_lists:
  fixes l ww wh websocket
  defines "l' \<equiv> update_layout ww wh websocket l"
  assumes "layout_inv l"
  shows "map bounds (tool_buttons l') = map (tool_bounds ww) [0..<9]"
    and "map bounds (thickness_buttons l') = map (thickness_bounds ww 9) [0..<4]"
    and "map bounds (color_swatches l') = map (swatch_bounds ww 9) [0..<8]"
    and "map tool_id (tool_buttons l') = map fst tools" "map swatch_color (color_swatches l') = palette"
    and "length (thickness_buttons l') = 4" "layout_inv l'"
proof -
  have lists: "tool_buttons l' = placed new_tool_buttons (tool_bounds ww) (tool_buttons l)"
    "thickness_buttons l' = placed new_thickness_buttons (thickness_bounds ww (length (tool_buttons l'))) (thickness_buttons l)"
    "color_swatches l' = placed new_color_swatches (swatch_bounds ww (length (tool_buttons l'))) (color_swatches l)"
    by (simp_all add: l'_def update_layout_def Let_def network_bounds_def)
  have new: "map tool_id new_tool_buttons = map fst tools" "map swatch_color new_color_swatches = palette"
    "length new_thickness_buttons = 4" "length thicknesses = 4" "length tools = 9" "length palette = 8"
    by (simp_all add: new_tool_buttons_def new_color_swatches_def new_thickness_buttons_def tools_def thicknesses_def palette_def)
  show ids: "map tool_id (tool_buttons l') = map fst tools" "map swatch_color (color_swatches l') = palette"
    using assms(2) new by (auto simp: lists(1,3) map_placed layout_inv_def)
  show count: "length (thickness_buttons l') = 4"
    using assms(2) new(3,4) by (auto simp: lists(2) length_placed layout_inv_def)
  have n: "length (tool_buttons l') = 9" "length (color_swatches l') = 8"
    using arg_cong [OF ids(1), of length] arg_cong [OF ids(2), of length] new(5,6) by simp_all
  show "map bounds (tool_buttons l') = map (tool_bounds ww) [0..<9]"
    by (subst lists(1), subst bounds_placed) (simp only: lists(1) [symmetric] n)
  show "map bounds (thickness_buttons l') = map (thickness_bounds ww 9) [0..<4]"
    by (subst lists(2), subst bounds_placed) (simp only: n(1) [symmetric] lists(2) [symmetric] count)
  show "map bounds (color_swatches l') = map (swatch_bounds ww 9) [0..<8]"
    by (subst lists(3), subst bounds_placed) (simp only: n(1) [symmetric] lists(3) [symmetric] n(2))
  show "layout_inv l'" using ids count new(4) by (simp add: layout_inv_def)
qed

text \<open>In a window of whole pixels the widgets have whole coordinates: left, top, width, height.\<close>

definition boxes :: "int \<Rightarrow> int \<Rightarrow> bool \<Rightarrow> bool \<Rightarrow> (int \<times> int \<times> int \<times> int) list" where
  "boxes w h websocket in_session =
     [(15, 10, 60, 30), (80, 10, 60, 30), (145, 10, 80, 30), (230, 10, 110, 30), (345, 10, 75, 30)] @
     (if websocket then [(230, h - 120, 90, 30), (230, h - 70, 110, 35), (350, h - 70, 150, 35)]
      else [(15, h - 120, 90, 30), (15, h - 70, 110, 35), (135, h - 70, 150, 35)]) @
     (if in_session then [(w - 295, h - 70, 80, 35)] else [(w - 385, h - 70, 80, 35), (w - 295, h - 70, 80, 35)]) @
     (if websocket then [(15, h - 120, 200, 30), (15, h - 65, 200, 30)] else []) @ [(w - 215, h - 120, 200, 30)] @
     map (\<lambda>i. (w - 205, 95 + 35 * int i, 190, 30)) [0..<9] @
     map (\<lambda>i. (w - 205 + 45 * int i, 445, 40, 30)) [0..<4] @
     map (\<lambda>i. (w - 205 + 45 * int (i mod 4), 520 + 45 * int (i div 4), 40, 40)) [0..<8]"

definition whole_rect :: "int \<times> int \<times> int \<times> int \<Rightarrow> rectangle" where
  "whole_rect = (\<lambda>(x, y, b, c). rect (of_int x) (of_int y) (of_int b) (of_int c))"

lemma fl32_rows: "i < 100 \<Longrightarrow> fl32 (fl32 (of_nat i) * 35) = of_int (35 * int i)"
  using fl_of_int(1) [of "int i"] fl_of_int(1) [of "35 * int i"] by (simp add: mult.commute)

lemma rows_y_9: "rows_y 9 = 420"
  using fl32_rows [of 9] fl_of_int(1) [of 105] fl_of_int(1) [of 420] by (simp add: rows_y_def)

lemma list_bounds_whole:
  assumes "window w h"
  shows "i < 9 \<Longrightarrow> tool_bounds (of_int w) i = whole_rect (w - 205, 95 + 35 * int i, 190, 30)"
    and "i < 4 \<Longrightarrow> thickness_bounds (of_int w) 9 i = whole_rect (w - 205 + 45 * int i, 445, 40, 30)"
    and "i < 8 \<Longrightarrow> swatch_bounds (of_int w) 9 i =
      whole_rect (w - 205 + 45 * int (i mod 4), 520 + 45 * int (i div 4), 40, 40)"
proof -
  show "tool_bounds (of_int w) i = whole_rect (w - 205, 95 + 35 * int i, 190, 30)" if "i < 9"
    using that fl32_rows [of i] fl32_whole(2) [of 95 "35 * int i"] fl_of_int(1) [of 95] fl_of_int(1) [of 190]
    by (simp add: tool_bounds_def tools_x_eq [OF assms] whole_rect_def)
  show "thickness_bounds (of_int w) 9 i = whole_rect (w - 205 + 45 * int i, 445, 40, 30)" if "i < 4"
    using that column_x_eq [OF assms, of i] fl_of_int(1) [of 445]
    by (simp add: thickness_bounds_def rows_y_9 whole_rect_def)
  show "swatch_bounds (of_int w) 9 i = whole_rect (w - 205 + 45 * int (i mod 4), 520 + 45 * int (i div 4), 40, 40)"
    if "i < 8"
    using that column_x_eq [OF assms, of "i mod 4"] fl32_steps [of "i div 4"] fl_of_int(1) [of 495] fl_of_int(1) [of 520]
      fl32_whole(2) [of 520 "45 * int (i div 4)"]
    by (simp add: swatch_bounds_def rows_y_9 whole_rect_def Let_def)
qed

lemma live_widgets_boxes:
  assumes "window w h" and "layout_inv l"
  shows "live_widgets websocket in_session (update_layout (of_int w) (of_int h) websocket l) =
    map whole_rect (boxes w h websocket in_session)"
proof -
  let ?l = "update_layout (of_int w) (of_int h) websocket l"
  have sums: "fl32 (of_int h - 120) = of_int (h - 120)" "fl32 (of_int h - 70) = of_int (h - 70)"
    "fl32 (of_int h - 65) = of_int (h - 65)" "fl32 (of_int w - 215) = of_int (w - 215)"
    "fl32 (of_int w - 385) = of_int (w - 385)" "fl32 (of_int w - 295) = of_int (w - 295)"
    using assms(1) fl32_whole(1) [of h 120] fl32_whole(1) [of h 70] fl32_whole(1) [of h 65]
      fl32_whole(1) [of w 215] fl32_whole(1) [of w 385] fl32_whole(1) [of w 295] by (simp_all add: window_def)
  have lists: "map bounds (tool_buttons ?l) = map whole_rect (map (\<lambda>i. (w - 205, 95 + 35 * int i, 190, 30)) [0..<9])"
    "map bounds (thickness_buttons ?l) = map whole_rect (map (\<lambda>i. (w - 205 + 45 * int i, 445, 40, 30)) [0..<4])"
    "map bounds (color_swatches ?l) = map whole_rect
      (map (\<lambda>i. (w - 205 + 45 * int (i mod 4), 520 + 45 * int (i div 4), 40, 40)) [0..<8])"
    using layout_lists(1-3) [OF assms(2), of "of_int w" "of_int h" websocket] list_bounds_whole [OF assms(1)]
    by simp_all
  have rest: "map bounds [open_btn ?l, save_btn ?l, save_as_btn ?l, auto_save_btn ?l, clear_btn ?l, protocol_toggle ?l,
      connect_btn ?l, local_server_btn ?l] = map whole_rect
      ([(15, 10, 60, 30), (80, 10, 60, 30), (145, 10, 80, 30), (230, 10, 110, 30), (345, 10, 75, 30)] @
       (if websocket then [(230, h - 120, 90, 30), (230, h - 70, 110, 35), (350, h - 70, 150, 35)]
        else [(15, h - 120, 90, 30), (15, h - 70, 110, 35), (135, h - 70, 150, 35)]))"
    "map bounds (if in_session then [leave_btn ?l] else [join_btn ?l, create_btn ?l]) = map whole_rect
      (if in_session then [(w - 295, h - 70, 80, 35)] else [(w - 385, h - 70, 80, 35), (w - 295, h - 70, 80, 35)])"
    "map bounds (if websocket then [host_field ?l, port_field ?l] else []) = map whole_rect
      (if websocket then [(15, h - 120, 200, 30), (15, h - 65, 200, 30)] else [])"
    "bounds (session_id_field ?l) = whole_rect (w - 215, h - 120, 200, 30)"
    by (simp_all add: update_layout_def network_bounds_def Let_def sums [unfolded of_int_diff of_int_numeral] whole_rect_def)
  show ?thesis unfolding live_widgets_def rest lists boxes_def
    by (simp only: map_append append_assoc list.map)
qed

text \<open>No two widgets meet, and each is in the bar, in the panel below or in the panel at the right.\<close>

definition apart :: "int \<times> int \<times> int \<times> int \<Rightarrow> int \<times> int \<times> int \<times> int \<Rightarrow> bool" where
  "apart = (\<lambda>(x, y, b, c) (x', y', b', c'). x + b \<le> x' \<or> x' + b' \<le> x \<or> y + c \<le> y' \<or> y' + c' \<le> y)"

lemma boxes_apart:
  assumes "window w h"
  shows "sorted_wrt apart (boxes w h websocket in_session)"
proof -
  have col: "sorted_wrt apart (map (\<lambda>i. (w - 205, 95 + 35 * int i, 190, 30)) [0..<9])"
    "sorted_wrt apart (map (\<lambda>i. (w - 205 + 45 * int i, 445, 40, 30)) [0..<4])"
    "sorted_wrt apart (map (\<lambda>i. (w - 205 + 45 * int (i mod 4), 520 + 45 * int (i div 4), 40, 40)) [0..<8])"
    by (simp_all add: apart_def upt_rec)
  have "h - 120 \<ge> 648" "w - 385 \<ge> 639" using assms by (simp_all add: window_def)
  then show ?thesis
    using col unfolding boxes_def sorted_wrt_append by (auto simp: apart_def)
qed

lemma boxes_off_canvas:
  assumes "window w h" and "(x, y, b, c) \<in> set (boxes w h websocket in_session)"
  shows "y + c \<le> 50 \<or> h - 160 \<le> y \<or> w - 220 \<le> x"
    and "0 \<le> x" "x + b \<le> w" "0 \<le> y" "y + c \<le> h" "0 \<le> b" "0 \<le> c"
  using assms by (auto simp: boxes_def window_def split: if_split_asm)

lemma canvas_mouse_defined:
  assumes "rect_width r \<noteq> 0" and "rect_height r \<noteq> 0"
  shows "\<exists>inp. canvas_mouse hit mouse r pressed held released active = Some inp \<and> in_inside inp = hit mouse r"
proof -
  let ?p = "clamp_to_canvas mouse r"
  obtain x y where xy: "divide32 (fl32 (v_x ?p - rect_x r)) (rect_width r) = Some x"
    "divide32 (fl32 (v_y ?p - rect_y r)) (rect_height r) = Some y"
    using assms by (simp add: divide32_def)
  from normalize_coordinate [OF xy(1)] normalize_coordinate [OF xy(2)] xy show ?thesis
    by (auto simp: canvas_mouse_def normalize_point_def)
qed

text \<open>What \<open>CheckCollisionPointRec\<close> means, and what follows for the widgets.\<close>

definition sound_hit :: "hit_test \<Rightarrow> bool" where
  "sound_hit hit \<longleftrightarrow> (\<forall>p r. hit p r \<longrightarrow> rect_x r \<le> v_x p \<and> v_x p < fl32 (rect_x r + rect_width r) \<and>
     rect_y r \<le> v_y p \<and> v_y p < fl32 (rect_y r + rect_height r))"

lemma hit_box:
  assumes "sound_hit hit" and "window w h" and "(x, y, b, c) \<in> set (boxes w h websocket in_session)"
    and "hit p (whole_rect (x, y, b, c))"
  shows "of_int x \<le> v_x p \<and> v_x p < of_int (x + b) \<and> of_int y \<le> v_y p \<and> v_y p < of_int (y + c)"
proof -
  have "\<bar>x + b\<bar> < 2 ^ 24" "\<bar>y + c\<bar> < 2 ^ 24"
    using boxes_off_canvas(2-7) [OF assms(2,3)] assms(2) by (simp_all add: window_def)
  from this [THEN fl_of_int(1)] have "fl32 (of_int (x + b)) = of_int (x + b)" "fl32 (of_int (y + c)) = of_int (y + c)"
    by simp_all
  with assms(1,4) show ?thesis by (fastforce simp: sound_hit_def whole_rect_def)
qed

lemma one_widget_hit:
  fixes w h websocket in_session l
  assumes "sound_hit hit" and "window w h" and "layout_inv l"
  defines "ws \<equiv> live_widgets websocket in_session (update_layout (of_int w) (of_int h) websocket l)"
  assumes "i < j" and "j < length ws" and "hit p (ws ! i)"
  shows "\<not> hit p (ws ! j)"
proof
  assume j: "hit p (ws ! j)"
  let ?bs = "boxes w h websocket in_session"
  have ws: "ws = map whole_rect ?bs" unfolding ws_def by (rule live_widgets_boxes [OF assms(2,3)])
  obtain x y b c x' y' b' c' where i': "?bs ! i = (x, y, b, c)" and j': "?bs ! j = (x', y', b', c')"
    by (metis surj_pair)
  have len: "i < length ?bs" "j < length ?bs" using assms(5,6) by (simp_all add: ws)
  then have "(x, y, b, c) \<in> set ?bs" "(x', y', b', c') \<in> set ?bs" using i' j' nth_mem by metis+
  moreover have "hit p (whole_rect (x, y, b, c))" "hit p (whole_rect (x', y', b', c'))"
    using assms(7) j i' j' len by (simp_all add: ws)
  ultimately have "of_int x \<le> v_x p \<and> v_x p < of_int (x + b) \<and> of_int y \<le> v_y p \<and> v_y p < of_int (y + c)"
    "of_int x' \<le> v_x p \<and> v_x p < of_int (x' + b') \<and> of_int y' \<le> v_y p \<and> v_y p < of_int (y' + c')"
    using hit_box [OF assms(1,2)] by blast+
  then have "(of_int x :: rat) < of_int (x' + b')" "(of_int x' :: rat) < of_int (x + b)"
    "(of_int y :: rat) < of_int (y' + c')" "(of_int y' :: rat) < of_int (y + c)" by linarith+
  then have "\<not> apart (?bs ! i) (?bs ! j)" by (simp add: apart_def i' j' not_le of_int_less_iff del: of_int_add)
  with boxes_apart [OF assms(2)] assms(5) len show False by (simp add: sorted_wrt_iff_nth_less)
qed

lemma widget_off_canvas:
  assumes "sound_hit hit" and "window w h" and "layout_inv l"
    and "r \<in> set (live_widgets websocket in_session (update_layout (of_int w) (of_int h) websocket l))" and "hit p r"
  shows "\<not> hit p (canvas_rect (of_int w) (of_int h) 1280 744)"
proof
  assume canvas: "hit p (canvas_rect (of_int w) (of_int h) 1280 744)"
  obtain x y b c where box: "(x, y, b, c) \<in> set (boxes w h websocket in_session)" "r = whole_rect (x, y, b, c)"
    using assms(4) unfolding live_widgets_boxes [OF assms(2,3)] by auto
  have "of_int x \<le> v_x p \<and> v_x p < of_int (x + b) \<and> of_int y \<le> v_y p \<and> v_y p < of_int (y + c)"
    using hit_box [OF assms(1,2) box(1)] assms(5) box(2) by simp
  moreover have "220 \<le> v_x p" "v_x p < of_int (w - 220)" "50 \<le> v_y p" "v_y p < of_int (h - 160)"
    using canvas assms(1) canvas_rect_inside(1-4) [OF assms(2)] by (fastforce simp: sound_hit_def)+
  ultimately have "(of_int x :: rat) < of_int (w - 220)" "(50 :: rat) < of_int (y + c)" "(of_int y :: rat) < of_int (h - 160)"
    by linarith+
  then have "x < w - 220" "50 < y + c" "y < h - 160" by (simp_all only: of_int_less_iff of_int_numeral_less_iff)
  with boxes_off_canvas(1) [OF assms(2) box(1)] show False by linarith
qed

section \<open>Properties\<close>

text \<open>in every window the program can have, a position of the mouse that is on a widget is on no
  other widget and not on the canvas, so a click on a widget never draws and no two widgets share a
  click, for either protocol, in a session or not, and whatever layout was before; what the
  frame tells the canvas of the mouse is defined. \<open>hit\<close> is the test of raylib, of which only
  its meaning is used: a point it finds in a rectangle is not left of, above, right of or below it.\<close>

theorem widgets_off_canvas:
  fixes w h websocket in_session l
  defines "ws \<equiv> live_widgets websocket in_session (update_layout (of_int w) (of_int h) websocket l)"
  assumes "window w h" and "layout_inv l" and "sound_hit hit" and "i < length ws" and "hit p (ws ! i)"
  shows "layout_inv (update_layout (of_int w) (of_int h) websocket l) \<and>
    (\<forall>j < length ws. hit p (ws ! j) \<longrightarrow> j = i) \<and>
    (\<exists>inp. canvas_mouse hit p (canvas_rect (of_int w) (of_int h) 1280 744) pressed held released active = Some inp \<and>
      \<not> in_inside inp)"
proof -
  let ?r = "canvas_rect (of_int w) (of_int h) 1280 744"
  have "ws ! i \<in> set ws" using assms(5) by simp
  then have "\<not> hit p ?r" using widget_off_canvas [OF assms(4,2,3) _ assms(6)] unfolding ws_def by blast
  moreover have "j = i" if "j < length ws" "hit p (ws ! j)" for j
    using one_widget_hit [OF assms(4,2,3), of i j websocket in_session p]
      one_widget_hit [OF assms(4,2,3), of j i websocket in_session p] that assms(5,6) unfolding ws_def
    by (meson linorder_neqE_nat)
  moreover have "rect_width ?r \<noteq> 0" "rect_height ?r \<noteq> 0" using canvas_rect_inside(5,6) [OF assms(2)] by simp_all
  ultimately show ?thesis using canvas_mouse_defined [of ?r] layout_lists(7) [OF assms(3)] by metis
qed

text \<open>The test as raylib documents it.\<close>

definition point_in_rect :: hit_test where
  "point_in_rect p r \<longleftrightarrow> rect_x r \<le> v_x p \<and> v_x p < fl32 (rect_x r + rect_width r) \<and>
     rect_y r \<le> v_y p \<and> v_y p < fl32 (rect_y r + rect_height r)"

lemma sound_point_in_rect: "sound_hit point_in_rect"
  by (simp add: sound_hit_def point_in_rect_def)

definition blank_layout :: app_layout where
  "blank_layout = (let p = \<lparr>bounds = rect 0 0 0 0, bg_color = \<lparr>rgba_r = 245, rgba_g = 245, rgba_b = 245, rgba_a = 255\<rparr>\<rparr>;
     b = new_button []; f = \<lparr>bounds = rect 0 0 0 0, label = [], focused = False\<rparr> in
     \<lparr>left_panel = p, right_panel = p, bottom_panel = p, open_btn = b, save_btn = b, save_as_btn = b,
      auto_save_btn = b, clear_btn = b, host_field = f, port_field = f, protocol_toggle = b, connect_btn = b,
      local_server_btn = b, session_id_field = f, join_btn = b, create_btn = b, leave_btn = b,
      tool_buttons = [], thickness_buttons = [], color_swatches = []\<rparr>)"

lemma blank_layout_inv: "layout_inv blank_layout"
  by (simp add: layout_inv_def blank_layout_def Let_def)

lemma widgets_off_canvas_witness:
  "\<exists>inp. canvas_mouse point_in_rect \<lparr>v_x = 20, v_y = 20\<rparr> (canvas_rect (of_int 1280) (of_int 800) 1280 744)
      True True False tool_line = Some inp \<and> \<not> in_inside inp"
proof -
  have "point_in_rect \<lparr>v_x = 20, v_y = 20\<rparr> (rect 15 10 60 30)"
    using fl_of_int(1) [of 75] fl_of_int(1) [of 40] by (simp add: point_in_rect_def)
  moreover have "live_widgets False False (update_layout (of_int 1280) (of_int 800) False blank_layout) ! 0 = rect 15 10 60 30"
    by (simp add: live_widgets_def update_layout_def network_bounds_def Let_def)
  moreover have "window 1280 800" by (simp add: window_def)
  ultimately show ?thesis
    using widgets_off_canvas [of 1280 800 blank_layout point_in_rect 0 False False]
    by (simp add: blank_layout_inv sound_point_in_rect) (simp add: live_widgets_def)
qed

end
