(* ===== verification/Gui.thy ===== *)
theory Gui
  imports Network_Properties Layout
begin

text \<open>
  The widgets in the main loop of \<open>engine/engine.cpp\<close>: a frame from the state of mouse and
  keyboard to what the program does. \<open>Program\<close> has a frame given by what was clicked and typed;
  here the widgets of the layout find that out, each where the code updates it. The widgets do not
  look at the program, except for the session, so those of a group are updated together before the
  program does what was clicked.
\<close>

section \<open>Groups of widgets\<close>

definition update_file_buttons :: "hit_test \<Rightarrow> mouse_state \<Rightarrow> app_layout \<Rightarrow> frame_input \<Rightarrow> app_layout \<times> frame_input" where
  "update_file_buttons hit m l inp =
     (let (open_b, open_c) = button_update hit m (open_btn l);
          (save_b, save_c) = button_update hit m (save_btn l);
          (save_as_b, save_as_c) = button_update hit m (save_as_btn l);
          (auto_save_b, auto_save_c) = button_update hit m (auto_save_btn l);
          (clear_b, clear_c) = button_update hit m (clear_btn l)
      in (l\<lparr>open_btn := open_b, save_btn := save_b, save_as_btn := save_as_b, auto_save_btn := auto_save_b,
            clear_btn := clear_b\<rparr>,
          inp\<lparr>open_clicked := open_c, save_clicked := save_c, save_as_clicked := save_as_c,
            auto_save_clicked := auto_save_c, clear_clicked := clear_c\<rparr>))"

definition update_network_buttons :: "hit_test \<Rightarrow> mouse_state \<Rightarrow> app_layout \<Rightarrow> frame_input \<Rightarrow> app_layout \<times> frame_input" where
  "update_network_buttons hit m l inp =
     (let (connect_b, connect_c) = button_update hit m (connect_btn l);
          (server_b, server_c) = button_update hit m (local_server_btn l);
          (protocol_b, protocol_c) = button_update hit m (protocol_toggle l)
      in (l\<lparr>connect_btn := connect_b, local_server_btn := server_b, protocol_toggle := protocol_b\<rparr>,
          inp\<lparr>connect_clicked := connect_c, local_server_clicked := server_c, protocol_clicked := protocol_c\<rparr>))"

text \<open>Only the buttons that are shown are updated.\<close>

definition update_session_buttons ::
  "hit_test \<Rightarrow> mouse_state \<Rightarrow> bool \<Rightarrow> app_layout \<Rightarrow> frame_input \<Rightarrow> app_layout \<times> frame_input"
where
  "update_session_buttons hit m session_shown l inp =
     (if \<not> session_shown then
        (let (join_b, join_c) = button_update hit m (join_btn l);
             (create_b, create_c) = button_update hit m (create_btn l)
         in (l\<lparr>join_btn := join_b, create_btn := create_b\<rparr>, inp\<lparr>join_clicked := join_c, create_clicked := create_c\<rparr>))
      else
        (let (leave_b, leave_c) = button_update hit m (leave_btn l)
         in (l\<lparr>leave_btn := leave_b\<rparr>, inp\<lparr>leave_clicked := leave_c\<rparr>)))"

text \<open>The fields are bound to strings of the network and the session manager.\<close>

definition update_text_fields ::
  "hit_test \<Rightarrow> mouse_state \<Rightarrow> bool \<Rightarrow> int list \<Rightarrow> bool \<Rightarrow> app_layout \<Rightarrow> app \<Rightarrow> frame_input \<Rightarrow> app_layout \<times> frame_input"
where
  "update_text_fields hit m backspace ks websocket l a inp =
     (let (l, inp, ks) =
            (if websocket then
               (let (host_f, host, ks) = text_field_update hit m backspace ks (nm_host (net a)) (host_field l);
                    (port_f, port, ks) = text_field_update hit m backspace ks (nm_port (net a)) (port_field l)
                in (l\<lparr>host_field := host_f, port_field := port_f\<rparr>, inp\<lparr>host_typed := Some host, port_typed := Some port\<rparr>, ks))
             else (l, inp, ks));
          (id_f, sid, ks) = text_field_update hit m backspace ks (session_id_input (mgr a)) (session_id_field l)
      in (l\<lparr>session_id_field := id_f\<rparr>, inp\<lparr>session_id_typed := Some sid\<rparr>))"





section \<open>A frame\<close>



section \<open>Lemmas\<close>


lemma button_update_sel [simp]:
  "bounds (fst (button_update hit m b)) = bounds b" "label (fst (button_update hit m b)) = label b"
  by (simp_all add: button_update_def case_prod_unfold Let_def)



lemma tool_button_update_sel [simp]:
  "bounds (fst (tool_button_update hit m b)) = bounds b" "tool_id (fst (tool_button_update hit m b)) = tool_id b"
  by (simp_all add: tool_button_update_def case_prod_unfold Let_def)







definition changed :: "'a \<Rightarrow> 'a \<Rightarrow> 'a option" where
  "changed old new = (if new = old then None else Some new)"

lemma case_changed [simp]: "(case changed old new of None \<Rightarrow> old | Some x \<Rightarrow> x) = new"
  by (simp add: changed_def)

lemma changed_None [simp]: "(changed old new = None) = (new = old)"
  by (auto simp: changed_def)


text \<open>A group finds out what is its own.\<close>

lemmas group_defs = update_file_buttons_def update_network_buttons_def update_session_buttons_def
  update_text_fields_def Let_def case_prod_unfold







section \<open>The program with its widgets\<close>






text \<open>The session buttons over a series of frames, each with the mouse and whether there is a session.\<close>

definition session_frames :: "hit_test \<Rightarrow> (mouse_state \<times> bool) list \<Rightarrow> app_layout \<Rightarrow> app_layout" where
  "session_frames hit fs l = fold (\<lambda>(m, s) l. fst (update_session_buttons hit m s l no_input)) fs l"

lemma session_frames_create:
  "bounds (create_btn (session_frames hit fs l)) = bounds (create_btn l) \<and>
   btn_down (create_btn (session_frames hit fs l)) =
     press_history (map (\<lambda>(m, s). (m, hit (mouse_at m) (bounds (create_btn l)))) (filter (\<lambda>(m, s). \<not> s) fs))
       (btn_down (create_btn l))"
proof (induction fs arbitrary: l)
  case (Cons f fs)
  obtain m s where f: "f = (m, s)" by (cases f)
  let ?l = "fst (update_session_buttons hit m s l no_input)"
  have "bounds (create_btn ?l) = bounds (create_btn l)"
    "btn_down (create_btn ?l) = (if s then btn_down (create_btn l)
      else fst (press_release m (hit (mouse_at m) (bounds (create_btn l))) (btn_down (create_btn l))))"
    by (auto simp: group_defs button_update_def)
  with Cons [of ?l] show ?case by (simp add: session_frames_def f)
qed (simp add: session_frames_def)

lemma pressed_outside:
  "press_history (map (\<lambda>(m, s). (m, over m)) (filter (\<lambda>(m, s). \<not> s) fs)) was_down \<longleftrightarrow>
     was_down \<and> (\<forall>(m, s) \<in> set fs. \<not> s \<longrightarrow> \<not> mouse_released m) \<or>
     (\<exists>before m after. fs = before @ (m, False) # after \<and> mouse_pressed m \<and> over m \<and>
       (\<forall>(m', s) \<in> set ((m, False) # after). \<not> s \<longrightarrow> \<not> mouse_released m'))"
proof (induction fs arbitrary: was_down)
  case (Cons f fs)
  obtain m s where f: "f = (m, s)" by (cases f)
  have first: "(\<exists>before m' after. (m, s) # fs = before @ (m', False) # after \<and> P m' after) \<longleftrightarrow>
      \<not> s \<and> P m fs \<or> (\<exists>before m' after. fs = before @ (m', False) # after \<and> P m' after)" for P
    by (auto simp: Cons_eq_append_conv)
  show ?case unfolding f first using Cons by (cases s) (auto simp: press_release_def Let_def)
qed simp

lemma create_clicked_history:
  "create_clicked (snd (update_session_buttons hit m s l no_input)) \<longleftrightarrow>
     \<not> s \<and> snd (press_release m (hit (mouse_at m) (bounds (create_btn l))) (btn_down (create_btn l)))"
  by (auto simp: group_defs button_update_def no_input_def)



section \<open>Properties\<close>





text \<open>C33: when the button that creates a session is clicked, over any series of frames: exactly when the
  mouse is released over it, outside of a session, and it was pressed there before, in a frame outside
  of a session, and not released since in a frame outside of a session. Releases while there is a
  session do not count: a press that is still down when a session begins waits, and when the session
  has ended a release over the button creates a new session, wherever the mouse was pressed for it.\<close>

theorem create_button_clicked:
  assumes "\<not> btn_down (create_btn l)"
  defines "r \<equiv> bounds (create_btn l)"
  shows "create_clicked (snd (update_session_buttons hit m s (session_frames hit fs l) no_input)) \<longleftrightarrow>
    \<not> s \<and> mouse_released m \<and> hit (mouse_at m) r \<and>
    (mouse_pressed m \<or> (\<exists>before m' after. fs = before @ (m', False) # after \<and> mouse_pressed m' \<and> hit (mouse_at m') r \<and>
      (\<forall>(m'', s') \<in> set ((m', False) # after). \<not> s' \<longrightarrow> \<not> mouse_released m'')))"
proof -
  have "btn_down (create_btn (session_frames hit fs l)) \<longleftrightarrow>
      (\<exists>before m' after. fs = before @ (m', False) # after \<and> mouse_pressed m' \<and> hit (mouse_at m') r \<and>
        (\<forall>(m'', s') \<in> set ((m', False) # after). \<not> s' \<longrightarrow> \<not> mouse_released m''))"
    using session_frames_create [of hit fs l] pressed_outside [of "\<lambda>m. hit (mouse_at m) r" fs False] assms(1)
    by (simp add: r_def)
  with session_frames_create [of hit fs l] show ?thesis
    by (auto simp: create_clicked_history press_release_def Let_def r_def)
qed

text \<open>Pressed on the button, released during a session; after the session a stroke that ends over the button.\<close>

lemma create_button_clicked_witness:
  "create_clicked (snd (update_session_buttons point_in_rect
     \<lparr>mouse_at = \<lparr>v_x = 0, v_y = 0\<rparr>, mouse_pressed = False, mouse_down = False, mouse_released = True\<rparr> False
     (session_frames point_in_rect
       [(\<lparr>mouse_at = \<lparr>v_x = 0, v_y = 0\<rparr>, mouse_pressed = True, mouse_down = True, mouse_released = False\<rparr>, False),
        (\<lparr>mouse_at = \<lparr>v_x = 0, v_y = 0\<rparr>, mouse_pressed = False, mouse_down = False, mouse_released = True\<rparr>, True),
        (\<lparr>mouse_at = \<lparr>v_x = 500, v_y = 300\<rparr>, mouse_pressed = True, mouse_down = True, mouse_released = False\<rparr>, False)]
       (blank_layout\<lparr>create_btn := \<lparr>bounds = rect 0 0 80 35, label = ''Create'', btn_active = False, btn_down = False\<rparr>\<rparr>)) no_input))"
proof -
  have over: "point_in_rect \<lparr>v_x = 0, v_y = 0\<rparr> (rect 0 0 80 35)"
    using fl_of_int(1) [of 80] fl_of_int(1) [of 35] by (simp add: point_in_rect_def)
  show ?thesis
    by (subst create_button_clicked) (auto simp: over intro!: exI [of _ "[]"])
qed

end
