(* ===== verification/Drawing.thy ===== *)
theory Drawing
  imports Layout
begin

text \<open>
  What \<open>engine/engine.cpp\<close> and \<open>engine/ui/app_layout.cpp\<close> compute before they draw: the preview
  of a stroke over the canvas, and a text broken into lines. The calls of raylib that draw are
  values; the extent of a text is a function that raylib provides.
\<close>

section \<open>Shapes\<close>

text \<open>\<open>DrawLineEx\<close>, \<open>DrawRectangleLinesEx\<close>, \<open>DrawRectangleRec\<close>, \<open>DrawRectangle\<close>, \<open>DrawEllipseLines\<close>,
  \<open>DrawEllipse\<close>, \<open>DrawTextEx\<close> and \<open>DrawText\<close>.\<close>

datatype shape =
    Line vector2 vector2 rat rgba
  | Rectangle_Lines rectangle rat rgba
  | Filled_Rectangle rectangle rgba
  | Filled_Box int int int int rgba
  | Ellipse_Lines int int rat rat rgba
  | Filled_Ellipse int int rat rat rgba
  | Text_In_Font string vector2 rat rat rgba
  | Plain_Text string int int int rgba

section \<open>The preview of a stroke\<close>

definition canvas_to_screen :: "canvas_point \<Rightarrow> rectangle \<Rightarrow> vector2" where
  "canvas_to_screen p r =
     \<lparr>v_x = fl32 (rect_x r + fl32 (fl32 (fl32 (of_nat (unat (pt_x p))) / 65535) * rect_width r)),
      v_y = fl32 (rect_y r + fl32 (fl32 (fl32 (of_nat (unat (pt_y p))) / 65535) * rect_height r))\<rparr>"

text \<open>The rectangle and the ellipse between two points; the centre is cast to \<open>int\<close>.\<close>

definition spanned :: "vector2 \<Rightarrow> vector2 \<Rightarrow> rectangle" where
  "spanned p0 p1 = rect (min (v_x p0) (v_x p1)) (min (v_y p0) (v_y p1))
     \<bar>fl32 (v_x p1 - v_x p0)\<bar> \<bar>fl32 (v_y p1 - v_y p0)\<bar>"

definition ellipse_between :: "vector2 \<Rightarrow> vector2 \<Rightarrow> (int \<times> int \<times> rat \<times> rat) option" where
  "ellipse_between p0 p1 = do {
     cx \<leftarrow> float_to_int (fl32 (fl32 (v_x p0 + v_x p1) * (1 / 2)));
     cy \<leftarrow> float_to_int (fl32 (fl32 (v_y p0 + v_y p1) * (1 / 2)));
     Some (cx, cy, max 1 (fl32 (\<bar>fl32 (v_x p1 - v_x p0)\<bar> * (1 / 2))),
       max 1 (fl32 (\<bar>fl32 (v_y p1 - v_y p0)\<bar> * (1 / 2)))) }"

text \<open>What is drawn, and the answer of the function.\<close>

definition draw_stroke_preview :: "draw_operation \<Rightarrow> rectangle \<Rightarrow> (bool \<times> shape list) option" where
  "draw_stroke_preview op r =
     (if length (points op) < 2 then Some (False, [])
      else
        (let p0 = canvas_to_screen (hd (points op)) r; p1 = canvas_to_screen (last (points op)) r;
             c = argb_to_color (color op);
             thick = max 1 (fl32 (fl32 (of_nat (unat (thickness op)) * rect_width r) / 1280))
         in
         if tool op = tool_line then Some (True, [Line p0 p1 thick c])
         else if tool op = tool_rect then Some (True, [Rectangle_Lines (spanned p0 p1) thick c])
         else if tool op = tool_filled_rect then Some (True, [Filled_Rectangle (spanned p0 p1) c])
         else if tool op = tool_ellipse then do {
           (cx, cy, rx, ry) \<leftarrow> ellipse_between p0 p1;
           Some (True, [Ellipse_Lines cx cy rx ry c]) }
         else if tool op = tool_filled_ellipse then do {
           (cx, cy, rx, ry) \<leftarrow> ellipse_between p0 p1;
           Some (True, [Filled_Ellipse cx cy rx ry c]) }
         else Some (False, [])))"

section \<open>Text\<close>

text \<open>
  The font, if it has been loaded: \<open>MeasureTextEx\<close> of a text in it, by size and spacing, and
  \<open>MeasureText\<close> without it.
\<close>

record fonts =
  font_valid :: bool
  font_measure :: "string \<Rightarrow> rat \<Rightarrow> rat \<Rightarrow> vector2"
  plain_width :: "string \<Rightarrow> int \<Rightarrow> int"

definition DrawTextLayout :: "fonts \<Rightarrow> string \<Rightarrow> int \<Rightarrow> int \<Rightarrow> rat \<Rightarrow> rgba \<Rightarrow> shape" where
  "DrawTextLayout f t x y sz c =
     (if font_valid f then Text_In_Font t \<lparr>v_x = fl32 (of_int x), v_y = fl32 (of_int y)\<rparr> sz 0 c
      else Plain_Text t x y (trunc sz) c)"

definition text_width :: "fonts \<Rightarrow> rat \<Rightarrow> string \<Rightarrow> rat" where
  "text_width f sz t =
     (if font_valid f then v_x (font_measure f t sz 0) else fl32 (of_int (plain_width f t (trunc sz))))"

text \<open>A word with the space after it, and the text after that.\<close>

definition next_word :: "string \<Rightarrow> string \<times> string" where
  "next_word t =
     (let w = takeWhile (\<lambda>c. c \<noteq> CHR '' '') t; rest = dropWhile (\<lambda>c. c \<noteq> CHR '' '') t
      in (w @ take 1 rest, drop 1 rest))"

lemma next_word_parts:
  "fst (next_word t) @ snd (next_word t) = t"
  "t \<noteq> [] \<Longrightarrow> length (snd (next_word t)) < length t" "t \<noteq> [] \<Longrightarrow> fst (next_word t) \<noteq> []"
proof -
  show parts: "fst (next_word t) @ snd (next_word t) = t" by (simp add: next_word_def Let_def)
  show nonempty: "fst (next_word t) \<noteq> []" if "t \<noteq> []" using that
    by (cases t) (auto simp: next_word_def Let_def)
  have "length (fst (next_word t)) + length (snd (next_word t)) = length t"
    using arg_cong [OF parts, of length] by simp
  moreover have "0 < length (fst (next_word t))" if "t \<noteq> []" using nonempty [OF that] by simp
  ultimately show "length (snd (next_word t)) < length t" if "t \<noteq> []" using that by linarith
qed

text \<open>The lines with their positions: \<open>current\<close> is the line that is being filled.\<close>

function wrap_lines ::
  "(string \<Rightarrow> rat) \<Rightarrow> rat \<Rightarrow> int \<Rightarrow> string \<Rightarrow> string \<Rightarrow> int \<Rightarrow> (string \<times> int) list option"
where
  "wrap_lines extent max_width line_height t current y =
     (if t = [] then Some (if current \<noteq> [] then [(current, y)] else [])
      else
        (let (word, rest) = next_word t; test_line = current @ word in
         if extent test_line > max_width \<and> current \<noteq> [] then do {
           y' \<leftarrow> i32 (y + line_height);
           ls \<leftarrow> wrap_lines extent max_width line_height rest word y';
           Some ((current, y) # ls) }
         else wrap_lines extent max_width line_height rest test_line y))"
  by pat_completeness auto
termination
  by (relation "measure (\<lambda>(_, _, _, t, _, _). length t)") (auto dest!: next_word_parts(2) simp: prod_eq_iff)

declare wrap_lines.simps [simp del]

definition DrawTextWrapped :: "fonts \<Rightarrow> string \<Rightarrow> int \<Rightarrow> int \<Rightarrow> rat \<Rightarrow> rat \<Rightarrow> rgba \<Rightarrow> shape list option" where
  "DrawTextWrapped f t x y max_width sz c =
     (if t = [] then Some []
      else do {
        ls \<leftarrow> wrap_lines (text_width f sz) max_width (trunc (fl32 (sz + 4))) t [] y;
        Some (map (\<lambda>(l, y). DrawTextLayout f l x y sz c) ls) })"

section \<open>Lemmas\<close>




lemma fl32_fine: "\<bar>x\<bar> \<le> 2 \<Longrightarrow> \<bar>fl32 x - x\<bar> \<le> 1 / 5000000"
  using fl32_error [of x] by (simp add: field_simps)

lemma fl32_coarse: "\<bar>x\<bar> \<le> 70000 \<Longrightarrow> \<bar>fl32 x - x\<bar> \<le> 1 / 100"
  using fl32_error [of x] by (simp add: field_simps)

lemma times_close:
  fixes x y e w :: rat
  assumes "\<bar>x - y\<bar> \<le> e" and "0 \<le> w"
  shows "\<bar>x * w - y * w\<bar> \<le> e * w"
  using mult_right_mono [OF assms] assms(2) by (simp add: abs_mult left_diff_distrib [symmetric])

lemma float_to_u16_near:
  assumes "float_to_u16 x = Some k" and "0 \<le> x"
  shows "of_nat (unat k) \<le> x" "x < of_nat (unat k) + 1"
proof -
  have "trunc x = \<lfloor>x\<rfloor>" using assms(2) by (simp add: trunc_def)
  with assms have "0 \<le> \<lfloor>x\<rfloor>" "\<lfloor>x\<rfloor> < 65536" "k = word_of_int \<lfloor>x\<rfloor>"
    by (auto simp: float_to_u16_def Let_def split: if_split_asm)
  then have "uint k = \<lfloor>x\<rfloor>" by (simp add: word_of_int_inverse)
  then have k: "(of_nat (unat k) :: rat) = of_int \<lfloor>x\<rfloor>" by (metis of_int_of_nat_eq uint_nat)
  show "of_nat (unat k) \<le> x" "x < of_nat (unat k) + 1" unfolding k by linarith+
qed

text \<open>One coordinate, from the screen to the canvas and back.\<close>

lemma coordinate_back:
  fixes p r0 w :: rat
  assumes "0 \<le> r0" and "r0 \<le> 17000" and "100 \<le> w" and "w \<le> 17000" and "r0 \<le> p" and "p \<le> r0 + w + 1 / 100"
    and "divide32 (fl32 (p - r0)) w = Some t" and "float_to_u16 (fl32 (t * 65535)) = Some k"
  shows "\<bar>fl32 (r0 + fl32 (fl32 (fl32 (of_nat (unat k)) / 65535) * w)) - p\<bar> \<le> 1 / 2"
proof -
  define d where "d = fl32 (p - r0)"
  define q where "q = d / w"
  have d: "\<bar>d - (p - r0)\<bar> \<le> 1 / 100" unfolding d_def by (rule fl32_window) (use assms in linarith)
  have d0: "0 \<le> d" unfolding d_def using assms by (intro fl32_nonneg) simp
  have qw: "q * w = d" using assms(3) by (simp add: q_def)
  have "d \<le> 2 * w" using d assms by linarith
  then have q: "0 \<le> q" "q \<le> 2" using d0 assms(3) by (simp_all add: q_def divide_le_eq)
  have t: "t = clamp (fl32 q) 0 1" using assms(3,7) by (simp add: divide32_def d_def q_def)
  have "0 \<le> fl32 q" using q by (intro fl32_nonneg) simp
  moreover have "\<bar>fl32 q - q\<bar> \<le> 1 / 5000000" using q by (intro fl32_fine) simp
  then have "fl32 q \<le> q + 1 / 5000000" "q - 1 / 5000000 \<le> fl32 q" by linarith+
  ultimately have t01: "0 \<le> t" "t \<le> 1" "t \<le> q + 1 / 5000000" "q - 1 / 5000000 \<le> t \<or> t = 1"
    unfolding t clamp_def by (auto split: if_split)
  have tw: "\<bar>t * w - d\<bar> \<le> 1 / 40"
  proof (cases "t = 1")
    case True
    have "(1 - q) * w \<le> 1 / 5000000 * w" using t01(3) True assms(3) by (intro mult_right_mono) simp_all
    then have "w - d \<le> 1 / 5000000 * w" by (simp add: left_diff_distrib qw)
    moreover have "t * w = w" using True by simp
    ultimately show ?thesis using d assms by linarith
  next
    case False
    with t01(3,4) have "\<bar>t - q\<bar> \<le> 1 / 5000000" by linarith
    then have "\<bar>t * w - q * w\<bar> \<le> 1 / 5000000 * w" using assms(3) by (intro times_close) simp_all
    with qw assms(4) show ?thesis by linarith
  qed
  define K :: rat where "K = of_nat (unat k)"
  have u: "\<bar>fl32 (t * 65535) - t * 65535\<bar> \<le> 1 / 100" by (rule fl32_coarse) (use t01 in simp)
  have "0 \<le> fl32 (t * 65535)" using t01 by (intro fl32_nonneg) simp
  from float_to_u16_near [OF assms(8) this] u have K: "\<bar>K - t * 65535\<bar> \<le> 101 / 100"
    unfolding K_def by linarith
  have "unat k \<le> 65535" using unsigned_less [of k, where ?'a = nat] by simp
  then have "(of_nat (unat k) :: rat) \<le> of_nat 65535" by (simp only: of_nat_le_iff)
  moreover have "(0 :: rat) \<le> of_nat (unat k)" by (simp only: of_nat_0_le_iff)
  ultimately have K01: "0 \<le> K" "K \<le> 65535" by (simp_all only: K_def of_nat_numeral)
  have exact: "fl32 (of_nat (unat k)) = K"
  proof -
    have "\<bar>int (unat k)\<bar> < 2 ^ 24" using of_nat_mono [OF \<open>unat k \<le> 65535\<close>, where ?'a = int] by simp
    from fl_of_int(1) [OF this] show ?thesis by (simp only: K_def of_int_of_nat_eq)
  qed
  define s where "s = fl32 (K / 65535)"
  have s: "\<bar>s - K / 65535\<bar> \<le> 1 / 5000000" unfolding s_def by (rule fl32_fine) (use K01 in simp)
  have "\<bar>K / 65535 - t\<bar> \<le> 101 / 6553500" using K by (simp add: abs_le_iff field_simps)
  with s have "\<bar>s - t\<bar> \<le> 1 / 64000" by linarith
  then have "\<bar>s * w - t * w\<bar> \<le> 1 / 64000 * w" using assms(3) by (intro times_close) simp_all
  with assms(4) have st: "\<bar>s * w - t * w\<bar> \<le> 3 / 10" by linarith
  have tw0: "0 \<le> t * w" "t * w \<le> w" using t01 assms(3) mult_right_mono [of t 1 w] by simp_all
  have m: "\<bar>fl32 (s * w) - s * w\<bar> \<le> 1 / 100" by (rule fl32_coarse) (use st tw0 assms in linarith)
  then have "\<bar>fl32 (r0 + fl32 (s * w)) - (r0 + fl32 (s * w))\<bar> \<le> 1 / 100"
    by (intro fl32_coarse) (use st tw0 assms in linarith)
  with m st tw d have "\<bar>fl32 (r0 + fl32 (s * w)) - p\<bar> \<le> 1 / 2" by linarith
  then show ?thesis unfolding s_def exact .
qed

section \<open>Properties\<close>

text \<open>C36: in every window the preview of a stroke is under the mouse: a position on the canvas that is
  turned into a point of the stroke and back to the screen has moved by at most half a pixel in each
  direction, for all roundings and the truncation to 16 bits.\<close>

theorem preview_under_mouse:
  assumes "window w h"
  shows "let r = canvas_rect (of_int w) (of_int h) 1280 744; p = clamp_to_canvas mouse r in
    \<exists>q. normalize_point p r = Some q \<and>
      \<bar>v_x (canvas_to_screen q r) - v_x p\<bar> \<le> 1 / 2 \<and> \<bar>v_y (canvas_to_screen q r) - v_y p\<bar> \<le> 1 / 2"
proof -
  let ?r = "canvas_rect (of_int w) (of_int h) 1280 744"
  let ?p = "clamp_to_canvas mouse ?r"
  note inside = canvas_rect_inside [OF assms]
  have window: "(of_int w :: rat) \<le> 16384" "(of_int h :: rat) \<le> 16384" using assms by (simp_all add: window_def)
  have there: "\<exists>t k. divide32 (fl32 (clamp m r0 (fl32 (r0 + l)) - r0)) l = Some t \<and>
      float_to_u16 (fl32 (t * 65535)) = Some k \<and>
      \<bar>fl32 (r0 + fl32 (fl32 (fl32 (of_nat (unat k)) / 65535) * l)) - clamp m r0 (fl32 (r0 + l))\<bar> \<le> 1 / 2"
    if r: "0 \<le> r0" "100 \<le> l" "fl32 (r0 + l) \<le> 16384" for m r0 l :: rat
  proof -
    have "\<bar>fl32 (r0 + l) - (r0 + l)\<bar> \<le> (r0 + l) / 16777216 + 1 / 1073741824" using fl32_error [of "r0 + l"] r by simp
    then have "r0 + l - fl32 (r0 + l) \<le> (r0 + l) / 16777216 + 1 / 1073741824" by (simp add: abs_le_iff)
    with r(3) have sum: "r0 + l \<le> 17000" by (simp add: field_simps)
    then have "\<bar>fl32 (r0 + l) - (r0 + l)\<bar> \<le> 1 / 100" using r by (intro fl32_coarse) simp
    then have "r0 \<le> fl32 (r0 + l)" "fl32 (r0 + l) \<le> r0 + l + 1 / 100" using r by linarith+
    then have p: "r0 \<le> clamp m r0 (fl32 (r0 + l))" "clamp m r0 (fl32 (r0 + l)) \<le> r0 + l + 1 / 100"
      using r by (auto simp: clamp_def)
    obtain t where t: "divide32 (fl32 (clamp m r0 (fl32 (r0 + l)) - r0)) l = Some t" using r by (simp add: divide32_def)
    obtain k where k: "float_to_u16 (fl32 (t * 65535)) = Some k" using normalize_coordinate [OF t] by blast
    from coordinate_back [OF r(1) _ r(2) _ p t k] sum r t k show ?thesis by simp
  qed
  from there [of "rect_x ?r" "rect_width ?r" "v_x mouse"] there [of "rect_y ?r" "rect_height ?r" "v_y mouse"] inside window
  show ?thesis
    by (auto simp: normalize_point_def clamp_to_canvas_def canvas_to_screen_def Let_def)
qed

lemma preview_under_mouse_witness:
  "\<exists>q. normalize_point (clamp_to_canvas \<lparr>v_x = 600, v_y = 300\<rparr> (canvas_rect (of_int 1280) (of_int 800) 1280 744))
    (canvas_rect (of_int 1280) (of_int 800) 1280 744) = Some q"
proof -
  have "window 1280 800" by (simp add: window_def)
  from preview_under_mouse [OF this] show ?thesis by (auto simp: Let_def)
qed



end
