(* ===== verification/Layout_Draw.thy ===== *)
theory Layout_Draw
  imports Drawing App_State
begin

text \<open>
  \<open>AppLayout::draw\<close> of \<open>engine/ui/app_layout.cpp\<close> and the drawing of the widgets in
  \<open>engine/ui/components.cpp\<close>: what is drawn in a frame, in the order of the calls. A call is
  \<open>None\<close> where a coordinate is cast to an \<open>int\<close> that cannot hold it. The colours that
  raylib names are arguments. The texts that \<open>TextFormat\<close> makes are shorter than its buffer.
\<close>

section \<open>Widgets\<close>









section \<open>The window\<close>












section \<open>Lemmas\<close>

text \<open>The rectangle that a shape covers; the other shapes are lines, texts and ellipses.\<close>

fun covers :: "shape \<Rightarrow> rectangle option" where
  "covers (Filled_Rectangle r c) = Some r"
| "covers (Rectangle_Lines r t c) = Some r"
| "covers (Filled_Box x y w h c) = Some (rect (of_int x) (of_int y) (of_int w) (of_int h))"
| "covers s = None"



lemma covers_text [simp]: "covers (DrawTextLayout f t x y sz c) = None"
  by (simp add: DrawTextLayout_def)

















section \<open>Properties\<close>



end
