(* ===== verification/Spec2Isabelle.thy ===== *)
theory Spec2Isabelle
  imports Wire_Properties Canvas_Properties File_Properties Server_Properties Session_Properties
    Network_Properties Convergence Udp_Socket Accept_Loops Render Gui Layout_Draw
begin

text \<open>
  SketchSync is a shared drawing board. A relay server keeps sessions; the clients of a session draw
  on a canvas, one of them hosts. A member sends its stroke to the server, the server forwards it to
  the host, the host numbers it, draws it and sends it back to the server, and the server gives it to
  the members, which draw it in the order of the numbers. A client saves its canvas to a file, finds a
  session by UDP broadcast, and can start a server of its own. This development models that logic as
  HOL functions over explicit states and proves what makes it correct; where the code does not do what
  it means to, a theorem shows the behaviour instead.

  \<^bold>\<open>Conventions.\<close> A C++ function is a HOL function of the same name on its arguments and the state
  it touches, in the \<open>option\<close> monad where it can meet undefined behaviour: \<open>None\<close> is an access
  outside a buffer, a signed overflow, a cast out of range or a shift that is too wide. Errors that the
  code returns are values (\<open>result\<close>). Unsigned integers are words of their width and wrap, \<open>int\<close> is
  \<open>int\<close> with its range checked, floats are rationals with every operation rounded as IEEE 754 rounds
  it. Everything is executable. What a socket, the file dialogs, the operating system or raylib answer
  is an argument; nothing is assumed of it except what a theorem says in its hypotheses.

  \<^bold>\<open>The wire.\<close>
  \<^item> \<open>Prelude\<close>, \<open>Results\<close>, \<open>Bytes\<close>: shared lemmas, \<open>common/results.h\<close>, \<open>common/bytes.h\<close>.
  \<^item> \<open>Codec\<close>: the contract of a serializer and its parser as locales, provided by every message below.
  \<^item> \<open>Draw_Operation\<close> and \<open>Message\<close>: \<open>common/canvas/draw_operation.cpp\<close>, \<open>common/protocol/message.cpp\<close>.
  \<^item> \<open>Wire_Properties\<close>: round trips, parsers that are total and stay inside their input, what the draw
    parser accepts, and the bound of 65535 points beyond which serializing leaves its buffer.
  \<^item> \<open>Udp\<close>: \<open>common/udp/udpDiscovery.cpp\<close>, the datagrams, the responder, the search; a search finds
    exactly the existing sessions. \<open>Udp_Socket\<close>: \<open>common/udp/udpSocket.cpp\<close>, which nothing else uses.
  \<^item> \<open>Sockets\<close>: \<open>tcpSocket.cpp\<close>, \<open>websocket.cpp\<close> and \<open>clientConnection.h\<close>; the locale \<open>transport\<close>
    is what both have in common, and the links of the models below are shown to be these sockets.

  \<^bold>\<open>The server.\<close>
  \<^item> \<open>Server\<close>: \<open>server/server.cpp\<close> and \<open>server/session/*.h\<close>, every handler, \<open>dispatch\<close>, the receive
    loops and the end of a client thread. A connection is a number; \<open>wire\<close> is what was sent to whom.
  \<^item> \<open>Server_Lemmas\<close>, \<open>Server_World\<close>: closed forms of the handlers; the session service as an abstract
    step relation, and the invariant of sessions and ids.
  \<^item> \<open>World\<close>: the server with all its client threads, accepted, served and ended in any order.
  \<^item> \<open>Client_Threads\<close>: both receive loops deliver the frames of a client one after the other.
  \<^item> \<open>Accept_Loops\<close>: \<open>tcpServer.cpp\<close>, \<open>websocketServer.cpp\<close>, the accept loops, \<open>run\<close> and \<open>shutdown\<close>.
  \<^item> \<open>Server_Properties\<close>: refinement of the service, the invariant of every reachable world, sends to
    clients that are there, the handlers one by one, and both transports alike.

  \<^bold>\<open>The canvas and its files.\<close>
  \<^item> \<open>Floats\<close>, \<open>Raster\<close>: binary32 and binary64, and the rasterizer of \<open>engine/canvas/canvas.cpp\<close> down to
    the pixel. \<open>Raster_Lemmas\<close>: drawing is defined on canvases of up to 65536 by 65536 pixels and
    touches nothing but pixels. \<open>Bucket_Fill\<close>: the fill recolours exactly the connected region.
  \<^item> \<open>Canvas\<close>, \<open>Canvas_Lemmas\<close>: history, numbering, deduplication, loading, the strokes of the mouse;
    the pixels are the picture of the history.
  \<^item> \<open>Op_Log\<close>: the contract between a canvas and the code that replicates it, as a locale.
  \<^item> \<open>Sketch_File\<close>, \<open>File_Lemmas\<close>: \<open>file_manager.cpp\<close>, \<open>persistenceWriter.cpp\<close> and the loader of
    \<open>ui.cpp\<close>; the writer thread works in rounds at any time.
  \<^item> \<open>Canvas_Properties\<close>, \<open>File_Properties\<close>: the properties of these.

  \<^bold>\<open>The client.\<close>
  \<^item> \<open>Ports\<close>: numbers in text, \<open>server/main.cpp\<close>, \<open>server_process.cpp\<close> and the ports of the local server.
  \<^item> \<open>App_State\<close>: the state of \<open>session_manager\<close>, \<open>sessionClient\<close>, \<open>network_manager\<close> and \<open>sketch_app\<close>.
  \<^item> \<open>Session\<close>: \<open>sessionClient.cpp\<close> and \<open>session_manager.cpp\<close>, requests, handlers and the polling thread.
  \<^item> \<open>Network\<close>: \<open>network_manager.cpp\<close>; a job of the connect thread is one step over an \<open>outcome\<close>.
  \<^item> \<open>Program\<close>: a frame of \<open>engine/engine.cpp\<close>, and the steps of the program: a frame, the connect thread,
    a turn of the polling thread, a round of the writer, in any order.
  \<^item> \<open>Session_Lemmas\<close>, \<open>Network_Lemmas\<close>, \<open>Picture_Lemmas\<close>: what every step keeps.
  \<^item> \<open>Session_Properties\<close>: a member's canvas is a prefix of the host's history and catches up with it; a
    stroke reaches everyone through the server model; any message is survived. A clear that comes back
    from the server and strokes outside a session lose data.
  \<^item> \<open>Network_Properties\<close>: threads, connection and session agree in every reachable state; joining from
    the button to the session; what a lost connection, a failed discovery and a dead server leave.
  \<^item> \<open>Replication\<close>, \<open>Convergence\<close>: a whole session, the server with a host and its members, each a program
    with a user who draws, and frames that take their time. In every interleaving each canvas is a prefix
    of the host's history, and the whole history once nothing is under way. The members are those of the
    start; nobody clears, opens a file, joins or leaves in it.
  \<^item> \<open>Widgets\<close>, \<open>Layout\<close>: \<open>components.cpp\<close>, the mouse functions of \<open>ui.cpp\<close>, \<open>app_layout.cpp\<close>; widgets
    and canvas do not overlap in any window.
  \<^item> \<open>Gui\<close>: the frame of \<open>Program\<close> as the widgets make it of mouse and keyboard; it does at most one
    thing, and what it reaches is reached by \<open>Program\<close>. A press can outlive a session.
  \<^item> \<open>Render\<close>: the texture that the window shows. It is the canvas between two frames, unless a
    message arrives just before the flag of a change is lowered: then that change is not shown.
  \<^item> \<open>Drawing\<close>: the preview of a stroke stays under the mouse, a wrapped text loses nothing.
    \<open>Layout_Draw\<close>: what the layout and its widgets draw, as a list of calls.

  \<^bold>\<open>Bounds.\<close> Canvases up to 65536 by 65536 pixels, windows up to 16384 pixels; the id counters of the
  server have not reached the end of 32 bits (\<open>ids_left\<close>), the history is shorter than \<open>2 ^ 32\<close>
  where numbers matter. The only fuel is the 15 attempts of \<open>start_local_server\<close>, which are the code's
  own. The bucket fill, the receive loops and the shapes end by a measure.

  \<^bold>\<open>Not modelled.\<close> Threads interleave between locked operations, messages, jobs, frames and rounds of
  the writer, not inside them. Floats do not overflow, are not NaN except where a definition says so, and
  the compiler does not fuse operations. Left out are constructors and destructors that only pass on
  references or call a function that is modelled, getters, setting up the window, the file dialogs,
  allocation failure, disks that fill up, exceptions thrown by sockets while they are used, logging,
  sleeps and timers, and \<open>session::created_at\<close>.
\<close>

end
